(* ===== verification/Prelude.thy ===== *)
theory Prelude
  imports Main "HOL-Library.Word"
begin

text \<open>
  Shared vocabulary of the development: the fact collections, the error numbers, bytes and
  C strings held in fixed-size arrays, and the memory images of the integers the firmware
  stores. A byte is a \<open>char\<close> (eight bits), a buffer is a \<open>char list\<close> of the
  array's length, and a C string is the part of a buffer before the first NUL.
\<close>

section \<open>Fact collections\<close>

named_theorems cstr_simps \<open>reading and writing C strings in arrays\<close>

section \<open>Bytes and error numbers\<close>

type_synonym byte = char
type_synonym bytes = "byte list"

abbreviation NUL :: byte where
  "NUL \<equiv> CHR 0x00"

text \<open>The errno values of the libc Zephyr builds against; only that they are positive and
  different from each other matters.\<close>

abbreviation (input) EPERM :: int where "EPERM \<equiv> 1"
abbreviation (input) ENOENT :: int where "ENOENT \<equiv> 2"
abbreviation (input) EIO :: int where "EIO \<equiv> 5"
abbreviation (input) EBADF :: int where "EBADF \<equiv> 9"
abbreviation (input) EAGAIN :: int where "EAGAIN \<equiv> 11"
abbreviation (input) EACCES :: int where "EACCES \<equiv> 13"
abbreviation (input) ENODEV :: int where "ENODEV \<equiv> 19"
abbreviation (input) EINVAL :: int where "EINVAL \<equiv> 22"
abbreviation (input) ENOSPC :: int where "ENOSPC \<equiv> 28"
abbreviation (input) ENODATA :: int where "ENODATA \<equiv> 61"
abbreviation (input) ENOSYS :: int where "ENOSYS \<equiv> 88"
abbreviation (input) ENOTCONN :: int where "ENOTCONN \<equiv> 128"

section \<open>Arrays and C strings\<close>

text \<open>\<open>memcpy (buf, src, length src)\<close>: the first bytes of the array are replaced, the
  rest stays. The array never grows: what would fall outside is cut, and every use below
  proves that nothing is cut.\<close>

definition memcpy_into :: "bytes \<Rightarrow> bytes \<Rightarrow> bytes" where
  "memcpy_into buf src = take (length buf) (src @ drop (length src) buf)"

text \<open>The C string a buffer holds, and \<open>strlen\<close>.\<close>

definition c_str :: "bytes \<Rightarrow> bytes" where
  "c_str buf = takeWhile (\<lambda>c. c \<noteq> NUL) buf"

text \<open>A string argument of a C function: no NUL inside.\<close>

definition is_c_string :: "bytes \<Rightarrow> bool" where
  "is_c_string str \<longleftrightarrow> NUL \<notin> set str"

text \<open>An array of \<open>n + 1\<close> bytes that holds a terminated string.\<close>

definition wf_cstr :: "nat \<Rightarrow> bytes \<Rightarrow> bool" where
  "wf_cstr n buf \<longleftrightarrow> length buf = Suc n \<and> NUL \<in> set buf"

lemma length_memcpy_into [simp]: "length (memcpy_into buf src) = length buf"
  by (simp add: memcpy_into_def)

lemma memcpy_into_Nil [simp]: "memcpy_into buf [] = buf"
  by (simp add: memcpy_into_def)

lemma memcpy_into_fits:
  "length src \<le> length buf \<Longrightarrow> memcpy_into buf src = src @ drop (length src) buf"
  by (simp add: memcpy_into_def)

lemma memcpy_into_all: "length src = length buf \<Longrightarrow> memcpy_into buf src = src"
  by (simp add: memcpy_into_def)

lemma c_str_no_NUL [simp]: "NUL \<notin> set (c_str buf)"
  by (auto simp: c_str_def dest: set_takeWhileD)

lemma is_c_string_c_str [simp]: "is_c_string (c_str buf)"
  by (simp add: is_c_string_def)

lemma length_c_str_le: "length (c_str buf) \<le> length buf"
  by (simp add: c_str_def length_takeWhile_le)

lemma c_str_append_NUL [cstr_simps]: "c_str (str @ NUL # rest) = c_str str"
  by (induction str) (auto simp: c_str_def)

lemma c_str_c_string: "is_c_string str \<Longrightarrow> c_str str = str"
  by (auto simp: c_str_def is_c_string_def takeWhile_eq_all_conv)

lemma is_c_string_take: "is_c_string str \<Longrightarrow> is_c_string (take n str)"
  by (auto simp: is_c_string_def dest: in_set_takeD)

lemma length_c_str_wf: "wf_cstr n buf \<Longrightarrow> length (c_str buf) \<le> n"
proof -
  assume wf: "wf_cstr n buf"
  then obtain xs ys where "buf = xs @ NUL # ys"
    by (auto simp: wf_cstr_def dest: split_list)
  moreover have "length (c_str xs) \<le> length xs"
    by (rule length_c_str_le)
  ultimately show ?thesis
    using wf by (simp add: wf_cstr_def c_str_append_NUL)
qed

text \<open>An array filled with zeros, as \<open>memset\<close> and static storage leave it.\<close>

definition zeros :: "nat \<Rightarrow> bytes" where
  "zeros n = replicate n NUL"

lemma length_zeros [simp]: "length (zeros n) = n"
  by (simp add: zeros_def)

lemma wf_cstr_zeros [simp]: "wf_cstr n (zeros (Suc n))"
  by (simp add: wf_cstr_def zeros_def)

text \<open>Storing a terminator inside the array keeps the string well formed.\<close>

lemma wf_cstr_terminate:
  "length buf = Suc n \<Longrightarrow> i \<le> n \<Longrightarrow> wf_cstr n (buf[i := NUL])"
  by (simp add: wf_cstr_def set_update_memI)

lemma c_str_terminate [cstr_simps]:
  "i < length buf \<Longrightarrow> c_str (buf[i := NUL]) = c_str (take i buf)"
  by (simp add: upd_conv_take_nth_drop c_str_append_NUL)

section \<open>Memory images of integers\<close>

text \<open>Both supported cores are little endian.\<close>

definition byte_of :: "8 word \<Rightarrow> byte" where
  "byte_of w = char_of (unat w)"

definition word_of_byte :: "byte \<Rightarrow> 8 word" where
  "word_of_byte c = word_of_nat (of_char c)"

definition le32 :: "32 word \<Rightarrow> bytes" where
  "le32 w = map (\<lambda>i. char_of (unat w div 256 ^ i)) [0, 1, 2, 3]"

definition of_le32 :: "bytes \<Rightarrow> 32 word" where
  "of_le32 bs = word_of_nat (foldr (\<lambda>c n. of_char c + 256 * n) bs 0)"

lemma word_of_byte_of [simp]: "word_of_byte (byte_of w) = w"
proof -
  have "unat w < 256"
    using unsigned_less [of w] by simp
  then show ?thesis
    by (simp add: word_of_byte_def byte_of_def)
qed

lemma length_le32 [simp]: "length (le32 w) = 4"
  by (simp add: le32_def)

lemma base_256_digits:
  assumes "n < 256 ^ 4"
  shows "n mod 256 + 256 * (n div 256 mod 256 + 256 * (n div 65536 mod 256 +
    256 * (n div 16777216 mod 256))) = (n::nat)"
proof -
  have d2: "n div 65536 = n div 256 div 256" and d3: "n div 16777216 = n div 256 div 256 div 256"
    by (simp_all flip: div_mult2_eq)
  have "n div 256 div 256 div 256 < 256"
    using assms by (simp flip: div_mult2_eq add: less_mult_imp_div_less)
  then show ?thesis
    unfolding d2 d3 by (simp add: mod_mult_div_eq)
qed

lemma of_le32_le32 [simp]: "of_le32 (le32 w) = w"
proof -
  have "unat w < 256 ^ 4"
    using unsigned_less [of w] by simp
  then have "foldr (\<lambda>c n. of_char c + 256 * n) (le32 w) 0 = unat w"
    using base_256_digits [of "unat w"] by (simp add: le32_def)
  then show ?thesis
    by (simp add: of_le32_def)
qed

lemma byte_of_word [simp]: "byte_of (word_of_byte c) = c"
proof -
  have "of_char c < (256::nat)"
    by simp
  then show ?thesis
    by (simp add: byte_of_def word_of_byte_def unat_of_nat)
qed

lemma le32_of_le32:
  assumes "length b = 4"
  shows "le32 (of_le32 b) = b"
proof -
  from assms obtain c0 c1 c2 c3 where b: "b = [c0, c1, c2, c3]"
    by (auto simp: numeral_eq_Suc length_Suc_conv)
  define a0 a1 a2 a3 where a: "a0 = (of_char c0 :: nat)" "a1 = (of_char c1 :: nat)"
    "a2 = (of_char c2 :: nat)" "a3 = (of_char c3 :: nat)"
  have lt: "a0 < 256" "a1 < 256" "a2 < 256" "a3 < 256"
    by (simp_all add: a)
  define n where "n = a0 + 256 * (a1 + 256 * (a2 + 256 * a3))"
  have "n < 2 ^ 32"
    using lt by (simp add: n_def)
  then have "unat (word_of_nat n :: 32 word) = n"
    by (simp add: unat_of_nat)
  moreover have "of_le32 b = word_of_nat n"
    unfolding of_le32_def n_def by (rule arg_cong [where f = word_of_nat]) (simp add: b a)
  ultimately have u: "unat (of_le32 b) = n"
    by simp
  have "n mod 256 = a0" and d1: "n div 256 = a1 + 256 * (a2 + 256 * a3)"
    using lt unfolding n_def by (simp_all only: mod_mult_self2 div_mult_self2 mod_less div_less
        add_0 simp_thms zero_neq_numeral not_False_eq_True)
  moreover have "n div 256 mod 256 = a1"
    unfolding d1 using lt by (simp only: mod_mult_self2 mod_less)
  moreover have d2: "n div 65536 = a2 + 256 * a3"
    using lt div_mult2_eq [of n 256 256] by (simp add: d1)
  moreover have "n div 65536 mod 256 = a2"
    unfolding d2 using lt by (simp only: mod_mult_self2 mod_less)
  moreover have "n div 16777216 mod 256 = a3"
    using lt div_mult2_eq [of n 65536 256] by (simp add: d2)
  moreover have "char_of m = c" if "m mod 256 = of_char c" for m :: nat and c
    using that by (metis char_of_char char_of_mod_256)
  ultimately have "char_of n = c0" "char_of (n div 256) = c1" "char_of (n div 65536) = c2"
    "char_of (n div 16777216) = c3"
    unfolding a by blast+
  with u show ?thesis
    by (simp add: le32_def b)
qed

section \<open>Decimal numbers\<close>

text \<open>What \<open>%d\<close> prints.\<close>

fun dec_nat :: "nat \<Rightarrow> bytes" where
  "dec_nat n = (if n < 10 then [char_of (48 + n)]
     else dec_nat (n div 10) @ [char_of (48 + n mod 10)])"

declare dec_nat.simps [simp del]

definition dec_int :: "int \<Rightarrow> bytes" where
  "dec_int k = (if k < 0 then CHR ''-'' # dec_nat (nat (- k)) else dec_nat (nat k))"

text \<open>\<open>%s\<close> of a pointer that may be NULL: what is printed then is not defined.\<close>

definition show_str :: "bytes option \<Rightarrow> bytes" where
  "show_str p = (case p of Some str \<Rightarrow> str | None \<Rightarrow> [])"

end
