(* ===== verification/Env.thy ===== *)
theory Env
  imports Prelude
begin

text \<open>
  The boundary of the firmware. Zephyr (its flash, network, GPIO, clock, work-queue, socket
  and HTTP interfaces) is not part of the repository. A call into it is an action of type
  \<open>call\<close>; what it answers is given by an environment, an argument of every operation of
  the model: \<open>zret E h c\<close> is the integer the call \<open>c\<close> returns when the calls made so
  far are \<open>h\<close> (latest first), and \<open>zdat E h c\<close> the bytes it writes through a pointer
  argument. Since the answer may depend on the whole history, an environment covers any
  behaviour of the hardware and of Zephyr; what Zephyr documents is stated as hypotheses
  about \<open>E\<close> where a property needs it. The options of Kconfig and of the board's device
  tree are fields of the same record. Log output is not modelled,
  except for the messages of the DHCP event handlers, which have no other effect.
\<close>

section \<open>Calls into Zephyr\<close>

datatype nvs_call =
    FlashReady
  | FlashPageInfo
  | NvsMount nat nat             \<comment> \<open>sector size, sector count\<close>
  | NvsRead "16 word" nat
  | NvsWrite "16 word" bytes
  | NvsClear

type_synonym ip4 = "32 word"
type_synonym iface = nat

datatype net_call =
    NetHostnameSet bytes
  | NetIfSetGw iface ip4
  | NetIfAddrRm iface ip4
  | NetIfAddrAdd iface ip4         \<comment> \<open>with type NET_ADDR_OVERRIDABLE\<close>
  | NetIfSetNetmask iface ip4 ip4
  | Dhcpv4Start iface
  | Dhcpv4Restart iface
  | Dhcpv4Stop iface
  | DnsReconfigure bytes
  | NetMgmtAddCallback
  | Dhcpv4AddOptionCallback nat nat  \<comment> \<open>option number, size of the buffer\<close>
  | NetConfigInitApp

datatype pin =
    PowerGpio nat | GpioReset | StatusLed | Button
  | TCK | TMS | TDI | TDO | UartMuxSel

datatype gpio_flags = GPIO_INPUT | GPIO_OUTPUT_INACTIVE | GPIO_OUTPUT_ACTIVE

datatype gpio_call =
    GpioReady pin
  | GpioConfigure pin gpio_flags
  | GpioSet pin int
  | GpioGet pin
  | GpioInterruptEdgeBoth pin
  | GpioAddCallback pin

datatype work = NtpSyncWork | ButtonWork | ResetWork

datatype reboot_type = SYS_REBOOT_WARM | SYS_REBOOT_COLD

datatype kernel_call =
    KMsleep nat
  | WorkInit work
  | WorkSchedule work nat          \<comment> \<open>delay in milliseconds\<close>
  | WorkCancel work
  | WorkCancelSync work
  | ThreadCreate string
  | LogPanic
  | SysReboot reboot_type
  | SysPoweroff
  | KPanic
  | EventPost nat
  | EventWait nat
  | IrqLock
  | IrqUnlock
  | Printk bytes                  \<comment> \<open>a line for the console\<close>
  | ShellPrint bytes

text \<open>The C library's \<open>struct tm\<close>, to which Zephyr's \<open>rtc_time\<close> is cast.\<close>

record tm =
  tm_sec :: int
  tm_min :: int
  tm_hour :: int
  tm_mday :: int
  tm_mon :: int                     \<comment> \<open>0 to 11\<close>
  tm_year :: int                    \<comment> \<open>since 1900\<close>
  tm_wday :: int
  tm_yday :: int

datatype time_call =
    RtcReady
  | RtcSetTime tm int               \<comment> \<open>broken-down time, nanoseconds\<close>
  | RtcGetTime
  | ClockGet
  | ClockSet int int                \<comment> \<open>seconds, nanoseconds\<close>
  | GetAddrInfo bytes
  | FreeAddrInfo
  | SntpInit bytes nat              \<comment> \<open>address, port\<close>
  | SntpQuery nat                   \<comment> \<open>timeout in milliseconds\<close>
  | SntpClose

datatype sensor_call =
    SensorReady
  | SensorFetch
  | SensorGet
  | HwinfoDeviceId nat              \<comment> \<open>size of the buffer\<close>

datatype http_service = HttpService | HttpsService

datatype tls_tag = HTTP_SERVER_CERTIFICATE_TAG | PSK_TAG

datatype tls_credential = ServerCertificate | ServerPrivateKey | Psk bytes | PskId bytes

datatype http_call =
    TlsCredentialAdd tls_tag tls_credential
  | ShellWebsocketEnable http_service
  | HttpServerStart
  | ShellWsCb http_service int      \<comment> \<open>the shell's own websocket callback\<close>
  | WsRecvMsg int nat int           \<comment> \<open>socket, size, timeout in milliseconds\<close>
  | WsSendMsg int bytes int
  | WsDisconnect int
  | WsUnregister int
  | SocketServiceRegister int
  | SocketServiceUnregister
  | HeapAlloc nat
  | HeapFree

datatype sock_call =
    SockSocket
  | SockSetopt int
  | SockGetError int
  | SockBind int nat                \<comment> \<open>socket, port\<close>
  | SockListen int nat
  | SockAccept int
  | SockRecv int nat
  | SockSend int bytes
  | SockShutdown int
  | SockClose int

datatype uart_call =
    UartReady
  | UartConfigure
  | UartCallbackSet
  | UartRxBufRsp nat nat            \<comment> \<open>offset and size of a part of the log buffer\<close>
  | UartRxEnable nat nat nat        \<comment> \<open>the same, and the timeout in microseconds\<close>
  | UartTx bytes
  | TxSemInit
  | TxSemTake
  | TxSemGive

datatype call =
    Nvs nvs_call
  | Sensor sensor_call
  | Http http_call
  | Sock sock_call
  | Uart uart_call
  | Net net_call
  | Gpio gpio_call
  | Kernel kernel_call
  | Time time_call

section \<open>JSON\<close>

text \<open>The values Zephyr's JSON library encodes and parses; a string may be a NULL pointer. A
  descriptor says which members an object has, in which order and with which types.\<close>

datatype json =
    JStr "bytes option"
  | JNum int
  | JBool bool
  | JObj "(bytes \<times> json) list"
  | JArr "json list"

datatype json_tok =
    JSON_TOK_STRING
  | JSON_TOK_NUMBER
  | JSON_TOK_TRUE
  | JSON_TOK_OBJECT "(bytes \<times> json_tok) list"
  | JSON_TOK_ARRAY nat json_tok     \<comment> \<open>at most so many elements\<close>

type_synonym json_descr = "(bytes \<times> json_tok) list"

section \<open>Build options and environment\<close>

record product_info =
  SYSTEM_PRODUCT_NAME :: bytes
  SYSTEM_MANUFACTURER :: bytes
  SYSTEM_MODEL :: bytes
  SYSTEM_PROCESSOR_MODEL :: bytes
  SYSTEM_PROCESSOR_COUNT :: int
  SYSTEM_MEMORY_GIB :: int
  PROJECT_GIT_SHA :: bytes
  BANNER_VERSION :: bytes

record http_options =
  CONFIG_APP_HTTPS :: bool
  CONFIG_APP_HTTPS_PUBLIC_KEY :: bool
  CONFIG_APP_HTTPS_PSK :: bool
  CONFIG_SHELL_BACKEND_WEBSOCKET :: bool

record kconfig =
  CONFIG_PERSISTENT_STORAGE :: bool   \<comment> \<open>and a storage partition exists\<close>
  CONFIG_APP_NTP :: bool
  CONFIG_RTC :: bool
  CONFIG_APP_DNS_RESOLVE :: bool
  CONFIG_POWEROFF :: bool
  CONFIG_DEFAULT_ADMIN_PASSWORD :: bytes
  CONFIG_NET_HOSTNAME :: bytes
  CONFIG_DNS_SERVER1 :: bytes
  STORAGE_PARTITION_SIZE :: nat
  NET_IF_MAX_IPV4_ADDR :: nat
  POWER_GPIOS :: nat                  \<comment> \<open>how many power GPIO aliases the device tree has\<close>
  HAS_GPIO_RESET :: bool
  HAS_STATUS_LED :: bool
  HAS_RESET_BUTTON :: bool
  HAS_DIE_TEMP :: bool
  HAS_UARTMUXSEL :: bool
  CONFIG_APP_SENSORS :: bool
  CONFIG_APP_BMC_UUID :: bool
  CONFIG_WALLABMC_UUID_NS :: bytes
  product :: product_info
  http_options :: http_options
  CONFIG_APP_CONSOLE_LOGGER :: bool
  CONFIG_APP_CONSOLE_LOG_SIZE :: nat
  CONFIG_CONSOLE_BRIDGE :: bool
  CONFIG_APP_WEB_TERMINAL_HOST_SERIAL :: bool
  CONFIG_JTAG :: bool

datatype addr_type = NET_ADDR_ANY | NET_ADDR_AUTOCONF | NET_ADDR_DHCP | NET_ADDR_MANUAL
  | NET_ADDR_OVERRIDABLE

record addr_slot =
  is_used :: bool
  addr_type :: addr_type
  addr_preferred :: bool              \<comment> \<open>addr_state = NET_ADDR_PREFERRED\<close>
  slot_addr :: ip4
  slot_netmask :: ip4

record env = kconfig +
  zret :: "call list \<Rightarrow> call \<Rightarrow> int"
  zdat :: "call list \<Rightarrow> call \<Rightarrow> bytes"
  errno :: "call list \<Rightarrow> int"                        \<comment> \<open>after these calls\<close>
  default_iface :: "call list \<Rightarrow> iface option"      \<comment> \<open>net_if_get_default\<close>
  ifaces :: "call list \<Rightarrow> iface list"                \<comment> \<open>what net_if_foreach visits\<close>
  has_ipv4 :: "call list \<Rightarrow> iface \<Rightarrow> bool"           \<comment> \<open>config.ip.ipv4 is not NULL\<close>
  unicast :: "call list \<Rightarrow> iface \<Rightarrow> nat \<Rightarrow> addr_slot" \<comment> \<open>config.ip.ipv4->unicast[i]\<close>
  inet_pton :: "bytes \<Rightarrow> ip4 option"                  \<comment> \<open>None where it does not return 1\<close>
  inet_ntop :: "ip4 \<Rightarrow> bytes option"                  \<comment> \<open>None where it returns NULL\<close>
  hostname_now :: "call list \<Rightarrow> bytes"                 \<comment> \<open>net_hostname_get\<close>
  no_return :: "call list \<Rightarrow> call \<Rightarrow> bool"            \<comment> \<open>calls that stop the processor\<close>
  clock_now :: "call list \<Rightarrow> int \<times> int"               \<comment> \<open>seconds, nanoseconds\<close>
  rtc_now :: "call list \<Rightarrow> tm \<times> int"
  sntp_time :: "call list \<Rightarrow> 64 word \<times> 32 word"       \<comment> \<open>seconds, fraction\<close>
  timeutil_timegm :: "tm \<Rightarrow> int"
  base64_decode :: "nat \<Rightarrow> bytes \<Rightarrow> int + bytes"        \<comment> \<open>size of the buffer, text\<close>
  uuid_from_string :: "bytes \<Rightarrow> int + bytes"
  uuid_generate_v5 :: "bytes \<Rightarrow> bytes \<Rightarrow> int + bytes"
  uuid_to_string :: "bytes \<Rightarrow> int + bytes"
  die_temp :: "call list \<Rightarrow> int \<times> int"             \<comment> \<open>struct sensor_value: val1, val2\<close>
  ipv4_gw :: "call list \<Rightarrow> iface \<Rightarrow> ip4"
  uninit_ptr :: "call list \<Rightarrow> bytes option"           \<comment> \<open>what an uninitialised pointer is\<close>
  after_scope :: "bytes \<Rightarrow> bytes"                  \<comment> \<open>an array read after its block has ended\<close>
  json_pieces :: "json \<Rightarrow> bytes list \<times> int"         \<comment> \<open>what the encoder appends, and its result\<close>
  json_obj_parse :: "json_descr \<Rightarrow> bytes \<Rightarrow> int + (bytes \<times> json) list"
  scanf_overflow :: "int \<Rightarrow> int"   \<comment> \<open>%d of a number that is no int: undefined in C\<close>
  iface_name :: "iface \<Rightarrow> bytes"                     \<comment> \<open>net_if_get_device(iface)->name\<close>
  iface_index :: "iface \<Rightarrow> int"                     \<comment> \<open>net_if_get_by_iface\<close>
  dhcpv4_lease_time :: "call list \<Rightarrow> iface \<Rightarrow> 32 word"

section \<open>Performing a call\<close>

record io =
  trace :: "call list"                \<comment> \<open>latest first\<close>

definition ext :: "env \<Rightarrow> call \<Rightarrow> 'a io_scheme \<Rightarrow> int \<times> 'a io_scheme" where
  "ext E c s = (zret E (trace s) c, s\<lparr>trace := c # trace s\<rparr>)"

definition ext_dat :: "env \<Rightarrow> call \<Rightarrow> 'a io_scheme \<Rightarrow> int \<times> bytes \<times> 'a io_scheme" where
  "ext_dat E c s = (zret E (trace s) c, zdat E (trace s) c, s\<lparr>trace := c # trace s\<rparr>)"

text \<open>A call whose answer the code ignores.\<close>

definition ext_ignore :: "env \<Rightarrow> call \<Rightarrow> 'a io_scheme \<Rightarrow> 'a io_scheme" where
  "ext_ignore E c s = snd (ext E c s)"

lemma ext_ignore_eq: "ext_ignore E c s = s\<lparr>trace := c # trace s\<rparr>"
  by (simp add: ext_ignore_def ext_def)

end
