(* ===== verification/Bmc_State.thy ===== *)
theory Bmc_State
  imports Env
begin

text \<open>
  The static variables of the firmware's core modules, as one record threaded through every
  operation: fs.c (the mount flag and the NVS geometry), config.c (the configuration in RAM
  and whether it is backed by storage), ntp.c, power.c, main.c, vpd.c, and the consoles, JTAG
  and web server (the record \<open>daemons\<close>). Also the relation
  \<open>only_io\<close>, the contract of the operations that only call Zephyr.
\<close>

section \<open>Configuration data (config.c)\<close>

definition MAX_HOSTNAME_LEN :: nat where "MAX_HOSTNAME_LEN = 20"
definition MAX_PW_LEN :: nat where "MAX_PW_LEN = 20"
definition MAX_NTP_SERVER_LEN :: nat where "MAX_NTP_SERVER_LEN = 40"

definition CFG_CURRENT_VERSION :: "8 word" where "CFG_CURRENT_VERSION = 3"

datatype config_id =
    CFG_VERSION
  | CFG_BMC_ADMIN_PASSWORD
  | CFG_BMC_HOSTNAME
  | CFG_BMC_DEFAULT_IP4
  | CFG_BMC_DEFAULT_IP4_NM
  | CFG_BMC_DEFAULT_IP4_GW
  | CFG_BMC_USE_DHCP4
  | CFG_BMC_USE_NTP
  | CFG_BMC_NTP_SERVER
  | CFG_HOST_AUTO_POWERON

text \<open>The number of an enumerator, which is the NVS key of the field.\<close>

fun cfg_key :: "config_id \<Rightarrow> 16 word" where
  "cfg_key CFG_VERSION = 1"
| "cfg_key CFG_BMC_ADMIN_PASSWORD = 2"
| "cfg_key CFG_BMC_HOSTNAME = 3"
| "cfg_key CFG_BMC_DEFAULT_IP4 = 4"
| "cfg_key CFG_BMC_DEFAULT_IP4_NM = 5"
| "cfg_key CFG_BMC_DEFAULT_IP4_GW = 6"
| "cfg_key CFG_BMC_USE_DHCP4 = 7"
| "cfg_key CFG_BMC_USE_NTP = 8"
| "cfg_key CFG_BMC_NTP_SERVER = 9"
| "cfg_key CFG_HOST_AUTO_POWERON = 10"

lemma cfg_key_eq_iff [simp]: "cfg_key i = cfg_key j \<longleftrightarrow> i = j"
  by (cases i; cases j) simp_all

text \<open>The enumerators are ordered by their number, as in C.\<close>

instantiation config_id :: linorder
begin

definition less_eq_config_id :: "config_id \<Rightarrow> config_id \<Rightarrow> bool" where
  "less_eq_config_id i j \<longleftrightarrow> cfg_key i \<le> cfg_key j"

definition less_config_id :: "config_id \<Rightarrow> config_id \<Rightarrow> bool" where
  "less_config_id i j \<longleftrightarrow> cfg_key i < cfg_key j"

instance
  by standard (auto simp: less_eq_config_id_def less_config_id_def not_le dest: order.antisym)

end

record config_data =
  version :: "8 word"
  bmc_hostname :: bytes              \<comment> \<open>char [MAX_HOSTNAME_LEN + 1]\<close>
  bmc_default_ip4 :: ip4
  bmc_use_dhcp4 :: "8 word"
  host_auto_poweron :: "8 word"
  bmc_admin_password :: bytes        \<comment> \<open>char [MAX_PW_LEN + 1]\<close>
  bmc_use_ntp :: "8 word"
  bmc_ntp_server :: bytes            \<comment> \<open>char [MAX_NTP_SERVER_LEN + 1]\<close>
  bmc_default_ip4_nm :: ip4
  bmc_default_ip4_gw :: ip4

definition zero_config :: config_data where
  "zero_config = \<lparr>version = 0, bmc_hostname = zeros (Suc MAX_HOSTNAME_LEN),
     bmc_default_ip4 = 0, bmc_use_dhcp4 = 0, host_auto_poweron = 0,
     bmc_admin_password = zeros (Suc MAX_PW_LEN), bmc_use_ntp = 0,
     bmc_ntp_server = zeros (Suc MAX_NTP_SERVER_LEN), bmc_default_ip4_nm = 0,
     bmc_default_ip4_gw = 0\<rparr>"

text \<open>The three strings lie in arrays of their declared size and are terminated.\<close>

definition wf_config :: "config_data \<Rightarrow> bool" where
  "wf_config c \<longleftrightarrow>
     wf_cstr MAX_HOSTNAME_LEN (bmc_hostname c) \<and>
     wf_cstr MAX_PW_LEN (bmc_admin_password c) \<and>
     wf_cstr MAX_NTP_SERVER_LEN (bmc_ntp_server c)"

lemma wf_config_zero [simp]: "wf_config zero_config"
  by (simp add: wf_config_def zero_config_def)

section \<open>The state of the consoles, JTAG and the web server\<close>

text \<open>\<open>struct console_log\<close> (console_logger.c), without the lock and the semaphore, which are
  Zephyr's, and the pointers, which are fixed. The positions only grow; the code takes them
  modulo the size.\<close>

record console_log =
  allocated :: "64 word"
  received :: "64 word"
  log_size :: nat
  log_buffer :: bytes

text \<open>\<open>struct host_websocket\<close> (console_bridge_ws.c)\<close>

record host_websocket =
  ws_fd :: int
  ws_new_client :: bool

text \<open>The cached levels of the JTAG pins (jtag.c), -1 where unknown.\<close>

record jtag_pins =
  tck_prev :: int
  tms_prev :: int
  tdi_prev :: int

text \<open>The callbacks a websocket resource of the shell can have (http.c).\<close>

datatype ws_cb = NoCb | ShellCb http_service | AuthCb http_service

record shell_ws =
  ws_detail_cb :: "http_service \<Rightarrow> ws_cb"
  shell_http_ws_cb :: ws_cb
  shell_https_ws_cb :: ws_cb

record daemons =
  host_console_log :: console_log
  active_client_fd :: int
  new_client :: bool
  host_websocket :: host_websocket
  jtag :: jtag_pins
  shell_ws :: shell_ws

definition zero_daemons :: daemons where
  "zero_daemons = \<lparr>host_console_log = \<lparr>allocated = 0, received = 0, log_size = 0, log_buffer = []\<rparr>,
     active_client_fd = - 1, new_client = False,
     host_websocket = \<lparr>ws_fd = 0, ws_new_client = False\<rparr>,
     jtag = \<lparr>tck_prev = - 1, tms_prev = - 1, tdi_prev = - 1\<rparr>,
     shell_ws = \<lparr>ws_detail_cb = ShellCb, shell_http_ws_cb = NoCb, shell_https_ws_cb = NoCb\<rparr>\<rparr>"

section \<open>The state of the core modules\<close>

record bmc = io +
  fs_is_enabled :: bool
  nvs_sector_size :: nat
  nvs_sector_count :: nat
  config_data :: config_data
  config_use_fs :: bool
  ntp_synced :: bool
  ntp_started :: bool
  ntp_interval_sec :: "32 word"
  system_power_state :: bool
  boot_finished :: bool
  bmc_uuid_str :: bytes
  daemons :: daemons

text \<open>The values the variables have after a reset, with the calls made before it.\<close>

definition reset_state :: "call list \<Rightarrow> bmc" where
  "reset_state h = \<lparr>trace = h, fs_is_enabled = False, nvs_sector_size = 0,
     nvs_sector_count = 0, config_data = zero_config, config_use_fs = False,
     ntp_synced = False, ntp_started = False, ntp_interval_sec = 20,
     system_power_state = False, boot_finished = False, bmc_uuid_str = [],
     daemons = zero_daemons\<rparr>"

abbreviation cfg_update :: "(config_data \<Rightarrow> config_data) \<Rightarrow> bmc \<Rightarrow> bmc" where
  "cfg_update f s \<equiv> s\<lparr>config_data := f (config_data s)\<rparr>"

section \<open>Operations that only call Zephyr\<close>

text \<open>\<open>only_io P s s'\<close>: from \<open>s\<close> to \<open>s'\<close> nothing happened but calls that satisfy \<open>P\<close>.\<close>

definition only_io :: "(call \<Rightarrow> bool) \<Rightarrow> bmc \<Rightarrow> bmc \<Rightarrow> bool" where
  "only_io P s s' \<longleftrightarrow> (\<exists>cs. (\<forall>c \<in> set cs. P c) \<and> s' = s\<lparr>trace := cs @ trace s\<rparr>)"

text \<open>No call to the key-value store.\<close>

definition no_nvs :: "call \<Rightarrow> bool" where
  "no_nvs c \<longleftrightarrow> (case c of Nvs _ \<Rightarrow> False | _ \<Rightarrow> True)"

abbreviation any_call :: "call \<Rightarrow> bool" where
  "any_call \<equiv> \<lambda>_. True"

lemma no_nvs_simps [simp]:
  "\<not> no_nvs (Nvs a)" "no_nvs (Net b)" "no_nvs (Gpio c)" "no_nvs (Kernel d)" "no_nvs (Time e)"
  "no_nvs (Sensor f)" "no_nvs (Http g)" "no_nvs (Sock i)" "no_nvs (Uart j)"
  by (simp_all add: no_nvs_def)

lemma only_ioE:
  assumes "only_io P s s'"
  obtains cs where "\<forall>c \<in> set cs. P c" and "s' = s\<lparr>trace := cs @ trace s\<rparr>"
  using assms by (auto simp: only_io_def)

lemma only_io_refl [simp, intro]: "only_io P s s"
  unfolding only_io_def by (rule exI [of _ "[]"]) simp

lemma only_io_trans [trans]:
  assumes "only_io P s t" and "only_io P t u"
  shows "only_io P s u"
proof -
  from assms obtain cs ds where "\<forall>c \<in> set cs. P c" "t = s\<lparr>trace := cs @ trace s\<rparr>"
    "\<forall>c \<in> set ds. P c" "u = t\<lparr>trace := ds @ trace t\<rparr>"
    by (auto elim!: only_ioE)
  then have "(\<forall>c \<in> set (ds @ cs). P c) \<and> u = s\<lparr>trace := (ds @ cs) @ trace s\<rparr>"
    by auto
  then show ?thesis
    unfolding only_io_def by blast
qed

lemma only_io_mono: "only_io P s t \<Longrightarrow> (\<And>c. P c \<Longrightarrow> Q c) \<Longrightarrow> only_io Q s t"
  by (auto simp: only_io_def)

lemma only_io_fields:
  assumes "only_io P s s'"
  shows "fs_is_enabled s' = fs_is_enabled s"
    and "config_data s' = config_data s"
    and "config_use_fs s' = config_use_fs s"
    and "ntp_synced s' = ntp_synced s"
    and "ntp_started s' = ntp_started s"
    and "ntp_interval_sec s' = ntp_interval_sec s"
    and "system_power_state s' = system_power_state s"
    and "boot_finished s' = boot_finished s"
    and "bmc_uuid_str s' = bmc_uuid_str s"
    and "daemons s' = daemons s"
  using assms by (auto elim!: only_ioE)

text \<open>To show \<open>only_io\<close> for an operation, unfold it and its \<open>let\<close>s and follow its text
  with the rules of \<open>io_intro\<close>: one per form of statement, and one per callee.\<close>

named_theorems io_intro \<open>from only_io P s t, only_io P s (snd (f t)) for an operation f\<close>

lemma io_statements [io_intro]:
  fixes s t :: bmc
  shows "only_io P s t \<Longrightarrow> only_io P s (snd (a, t))"
    and "only_io P s (snd p) \<Longrightarrow> (\<And>a t. only_io P s t \<Longrightarrow> only_io P s (snd (F a t))) \<Longrightarrow>
      only_io P s (snd (case p of (a, t) \<Rightarrow> F a t))"
    and "only_io P s (snd (snd q)) \<Longrightarrow>
      (\<And>a b t. only_io P s t \<Longrightarrow> only_io P s (snd (G a b t))) \<Longrightarrow>
      only_io P s (snd (case q of (a, b, t) \<Rightarrow> G a b t))"
    and "(c \<Longrightarrow> only_io P s (snd x)) \<Longrightarrow> (\<not> c \<Longrightarrow> only_io P s (snd y)) \<Longrightarrow>
      only_io P s (snd (if c then x else y))"
    and "(c \<Longrightarrow> only_io P s t) \<Longrightarrow> (\<not> c \<Longrightarrow> only_io P s u) \<Longrightarrow>
      only_io P s (if c then t else u)"
    and "only_io P s (snd z) \<Longrightarrow> (\<And>v. only_io P s (snd (H v))) \<Longrightarrow>
      only_io P s (snd (case opt of None \<Rightarrow> z | Some v \<Rightarrow> H v))"
    and "(\<And>v. only_io P s (snd (J v))) \<Longrightarrow> (\<And>v. only_io P s (snd (K v))) \<Longrightarrow>
      only_io P s (snd (case alt of Inl v \<Rightarrow> J v | Inr v \<Rightarrow> K v))"
  by (auto split: prod.split option.split sum.split)

text \<open>The same for operations that return a second value.\<close>

lemma io_statements2 [io_intro]:
  fixes s t :: bmc
  shows "only_io P s t \<Longrightarrow> only_io P s (snd (snd (a, b, t)))"
    and "only_io P s (snd p) \<Longrightarrow> (\<And>a t. only_io P s t \<Longrightarrow> only_io P s (snd (snd (H a t)))) \<Longrightarrow>
      only_io P s (snd (snd (case p of (a, t) \<Rightarrow> H a t)))"
    and "only_io P s (snd (snd q)) \<Longrightarrow>
      (\<And>a b t. only_io P s t \<Longrightarrow> only_io P s (snd (snd (F a b t)))) \<Longrightarrow>
      only_io P s (snd (snd (case q of (a, b, t) \<Rightarrow> F a b t)))"
    and "(c \<Longrightarrow> only_io P s (snd (snd x))) \<Longrightarrow> (\<not> c \<Longrightarrow> only_io P s (snd (snd y))) \<Longrightarrow>
      only_io P s (snd (snd (if c then x else y)))"
  by (auto split: prod.split)

lemma only_io_push: "P c \<Longrightarrow> only_io P s t \<Longrightarrow> only_io P s (t\<lparr>trace := c # trace t\<rparr>)"
  by (rule only_io_trans, assumption) (auto simp: only_io_def intro: exI [of _ "[c]"])

lemma io_calls [io_intro]:
  fixes s t :: bmc
  shows "P c \<Longrightarrow> only_io P s t \<Longrightarrow> only_io P s (snd (ext E c t))"
    and "P c \<Longrightarrow> only_io P s t \<Longrightarrow> only_io P s (snd (snd (ext_dat E c t)))"
    and "P c \<Longrightarrow> only_io P s t \<Longrightarrow> only_io P s (ext_ignore E c t)"
  by (auto simp: ext_def ext_dat_def ext_ignore_eq intro: only_io_push)

lemma io_fold [io_intro]:
  "only_io P s t \<Longrightarrow> (\<And>x t. only_io P s t \<Longrightarrow> only_io P s (f x t)) \<Longrightarrow> only_io P s (fold f xs t)"
  by (induction xs arbitrary: t) auto

text \<open>The calls made from one state to a later one.\<close>

definition new_calls :: "bmc \<Rightarrow> bmc \<Rightarrow> call list" where
  "new_calls s s' = take (length (trace s') - length (trace s)) (trace s')"

lemma new_calls_eq: "trace s' = cs @ trace s \<Longrightarrow> new_calls s s' = cs"
  by (simp add: new_calls_def)

text \<open>The contract of an operation that changes no variable of the firmware.\<close>

locale io_op =
  fixes P :: "call \<Rightarrow> bool" and run :: "bmc \<Rightarrow> bmc"
  assumes only_io: "only_io P s (run s)"
begin

lemma keeps:
  "config_data (run s) = config_data s"
  "config_use_fs (run s) = config_use_fs s"
  "fs_is_enabled (run s) = fs_is_enabled s"
  "system_power_state (run s) = system_power_state s"
  "boot_finished (run s) = boot_finished s"
  "ntp_started (run s) = ntp_started s"
  "ntp_interval_sec (run s) = ntp_interval_sec s"
  "ntp_synced (run s) = ntp_synced s"
  "bmc_uuid_str (run s) = bmc_uuid_str s"
  "daemons (run s) = daemons s"
  using only_io_fields [OF only_io] by simp_all

lemma calls: "\<exists>cs. trace (run s) = cs @ trace s \<and> (\<forall>c \<in> set cs. P c)"
  using only_io [of s] by (auto elim!: only_ioE)

end

end
