(* ===== verification/Fs.thy ===== *)
theory Fs
  imports Bmc_State
begin

text \<open>
  Persistent storage (fs.c): mounting the NVS partition, reading, writing and clearing keys,
  and the retry of a flash operation that fails with EIO. Without
  \<open>CONFIG_PERSISTENT_STORAGE\<close> the stubs of fs.h are used instead. The locale
  \<open>key_store\<close> states what fs.c promises to config.c.
\<close>

section \<open>Mounting\<close>

definition FLASH_WRITE_RETRY_COUNT :: nat where "FLASH_WRITE_RETRY_COUNT = 3"

definition fs_enabled :: "env \<Rightarrow> bmc \<Rightarrow> bool" where
  "fs_enabled E s = (CONFIG_PERSISTENT_STORAGE E \<and> fs_is_enabled s)"

text \<open>The page size that \<open>flash_get_page_info_by_offs\<close> reports comes as four bytes.
  A flash page is never empty, so the division is defined.\<close>

definition mount_fs :: "env \<Rightarrow> bmc \<Rightarrow> int \<times> bmc" where
  "mount_fs E s =
     (let (rc, info, s) = ext_dat E (Nvs FlashPageInfo) s in
      if rc \<noteq> 0 then (rc, s)
      else
        let s = s\<lparr>nvs_sector_size := unat (of_le32 info)\<rparr>;
            s = s\<lparr>nvs_sector_count := STORAGE_PARTITION_SIZE E div nvs_sector_size s\<rparr>;
            (rc, s) = ext E (Nvs (NvsMount (nvs_sector_size s) (nvs_sector_count s))) s
        in if rc \<noteq> 0 then (rc, s)
           else (0, s\<lparr>fs_is_enabled := True\<rparr>))"

definition umount_fs :: "bmc \<Rightarrow> int \<times> bmc" where
  "umount_fs s = (0, s\<lparr>fs_is_enabled := False\<rparr>)"

definition fs_init :: "env \<Rightarrow> bmc \<Rightarrow> int \<times> bmc" where
  "fs_init E s =
     (if \<not> CONFIG_PERSISTENT_STORAGE E then (0, s)
      else
        let (ready, s) = ext E (Nvs FlashReady) s in
        if ready = 0 then (- ENODEV, s)
        else
          let (rc, s) = mount_fs E s in
          if rc \<noteq> 0 then (rc, s) else (0, s))"

definition fs_exit :: "env \<Rightarrow> bmc \<Rightarrow> int \<times> bmc" where
  "fs_exit E s = (if \<not> CONFIG_PERSISTENT_STORAGE E then (0, s) else umount_fs s)"

section \<open>Keys\<close>

text \<open>\<open>goto again\<close> is the recursive call; \<open>retry_count\<close> bounds it.\<close>

function fs_clear_again :: "env \<Rightarrow> nat \<Rightarrow> bmc \<Rightarrow> int \<times> bmc" where
  "fs_clear_again E retry_count s =
     (let (rc, s') = ext E (Nvs NvsClear) s in
      if rc \<noteq> 0 then
        if rc = - EIO \<and> retry_count < FLASH_WRITE_RETRY_COUNT
        then fs_clear_again E (Suc retry_count) s'
        else (rc, s')
      else (0, s'))"
  by pat_completeness auto
termination
  by (relation "measure (\<lambda>(E, retry_count, s). FLASH_WRITE_RETRY_COUNT - retry_count)") auto

definition fs_clear :: "env \<Rightarrow> bmc \<Rightarrow> int \<times> bmc" where
  "fs_clear E s =
     (if \<not> CONFIG_PERSISTENT_STORAGE E then (0, s)
      else if \<not> fs_enabled E s then (- ENODEV, s)
      else fs_clear_again E 0 s)"

text \<open>The bytes are what the read leaves in the caller's buffer, at most its size.\<close>

definition fs_key_read :: "env \<Rightarrow> 16 word \<Rightarrow> nat \<Rightarrow> bmc \<Rightarrow> int \<times> bytes \<times> bmc" where
  "fs_key_read E i n s =
     (if \<not> fs_enabled E s then (- ENODEV, [], s)
      else
        let (rc, buf, s) = ext_dat E (Nvs (NvsRead i n)) s; buf = take n buf in
        if rc < 0 then (rc, buf, s)
        else
          let rc = (if rc > int n then - EINVAL else rc)
          in (rc, buf, s))"

function fs_write_again :: "env \<Rightarrow> 16 word \<Rightarrow> bytes \<Rightarrow> nat \<Rightarrow> bmc \<Rightarrow> int \<times> bmc" where
  "fs_write_again E i buf retry_count s =
     (let (rc, s') = ext E (Nvs (NvsWrite i buf)) s in
      if rc < 0 then
        if rc = - EIO \<and> retry_count < FLASH_WRITE_RETRY_COUNT
        then fs_write_again E i buf (Suc retry_count) s'
        else (rc, s')
      else if rc = 0 then (int (length buf), s')
      else (rc, s'))"
  by pat_completeness auto
termination
  by (relation "measure (\<lambda>(E, i, buf, retry_count, s). FLASH_WRITE_RETRY_COUNT - retry_count)")
     auto

definition fs_key_write :: "env \<Rightarrow> 16 word \<Rightarrow> bytes \<Rightarrow> bmc \<Rightarrow> int \<times> bmc" where
  "fs_key_write E i buf s =
     (if \<not> fs_enabled E s then (- ENODEV, s) else fs_write_again E i buf 0 s)"

declare fs_clear_again.simps [simp del] fs_write_again.simps [simp del]

section \<open>The retry loop\<close>

text \<open>Both loops repeat one call; what differs is what they make of its answer.\<close>

function retry_call :: "env \<Rightarrow> call \<Rightarrow> nat \<Rightarrow> bmc \<Rightarrow> int \<times> bmc" where
  "retry_call E c k s =
     (let (rc, s') = ext E c s in
      if rc = - EIO \<and> k < FLASH_WRITE_RETRY_COUNT then retry_call E c (Suc k) s'
      else (rc, s'))"
  by pat_completeness auto
termination
  by (relation "measure (\<lambda>(E, c, k, s). FLASH_WRITE_RETRY_COUNT - k)") auto

declare retry_call.simps [simp del]

lemma fs_clear_again_retry: "fs_clear_again E k s = retry_call E (Nvs NvsClear) k s"
proof (induction E k s rule: fs_clear_again.induct)
  case (1 E k s)
  then show ?case
    by (subst fs_clear_again.simps, subst retry_call.simps) (auto simp: ext_def Let_def)
qed

lemma fs_write_again_retry:
  "fs_write_again E i buf k s =
     (let (rc, s') = retry_call E (Nvs (NvsWrite i buf)) k s
      in (if rc = 0 then int (length buf) else rc, s'))"
proof (induction E i buf k s rule: fs_write_again.induct)
  case (1 E i buf k s)
  then show ?case
    by (subst fs_write_again.simps, subst retry_call.simps) (auto simp: ext_def Let_def)
qed

text \<open>What the loop does: \<open>n\<close> more calls failed with EIO, the last one did not or used
  up the retries.\<close>

lemma retry_call_runs:
  assumes "k \<le> FLASH_WRITE_RETRY_COUNT"
  shows "\<exists>n. k + n \<le> FLASH_WRITE_RETRY_COUNT \<and>
    (\<forall>m < n. zret E (replicate m c @ trace s) c = - EIO) \<and>
    (zret E (replicate n c @ trace s) c = - EIO \<longrightarrow> k + n = FLASH_WRITE_RETRY_COUNT) \<and>
    retry_call E c k s = (zret E (replicate n c @ trace s) c,
      s\<lparr>trace := replicate (Suc n) c @ trace s\<rparr>)"
  using assms
proof (induction E c k s rule: retry_call.induct)
  case (1 E c k s)
  let ?s' = "s\<lparr>trace := c # trace s\<rparr>"
  have push: "replicate m c @ c # h = replicate (Suc m) c @ h" for m h
    by (simp add: replicate_append_same)
  show ?case
  proof (cases "zret E (trace s) c = - EIO \<and> k < FLASH_WRITE_RETRY_COUNT")
    case True
    then obtain n where n: "Suc k + n \<le> FLASH_WRITE_RETRY_COUNT"
      "\<forall>m < n. zret E (replicate (Suc m) c @ trace s) c = - EIO"
      "zret E (replicate (Suc n) c @ trace s) c = - EIO \<longrightarrow> Suc k + n = FLASH_WRITE_RETRY_COUNT"
      "retry_call E c (Suc k) ?s' = (zret E (replicate (Suc n) c @ trace s) c,
        s\<lparr>trace := replicate (Suc (Suc n)) c @ trace s\<rparr>)"
      using "1.IH" [of "(zret E (trace s) c, ?s')" "zret E (trace s) c" ?s']
      by (auto simp: ext_def push simp del: replicate_Suc)
    have "\<forall>m < Suc n. zret E (replicate m c @ trace s) c = - EIO"
      using n(2) True by (auto simp: less_Suc_eq_0_disj)
    then show ?thesis
      using n True by (intro exI [of _ "Suc n"]) (subst retry_call.simps, simp add: ext_def)
  next
    case False
    then show ?thesis
      using "1.prems"
      by (intro exI [of _ 0]) (subst retry_call.simps, auto simp: ext_def)
  qed
qed

lemma retry_call_io [io_intro]:
  "P c \<Longrightarrow> only_io P s t \<Longrightarrow> only_io P s (snd (retry_call E c k t))"
proof (induction E c k t rule: retry_call.induct)
  case (1 E c k t)
  then show ?case
    by (subst retry_call.simps) (auto simp: ext_def intro!: only_io_push)
qed

lemma fs_key_write_io [io_intro]:
  "P (Nvs (NvsWrite i buf)) \<Longrightarrow> only_io P s t \<Longrightarrow> only_io P s (snd (fs_key_write E i buf t))"
  by (auto simp: fs_key_write_def fs_write_again_retry intro!: io_intro)

lemma fs_clear_io [io_intro]:
  "P (Nvs NvsClear) \<Longrightarrow> only_io P s t \<Longrightarrow> only_io P s (snd (fs_clear E t))"
  by (auto simp: fs_clear_def fs_clear_again_retry intro!: io_intro)

lemma fs_key_read_io [io_intro]:
  "P (Nvs (NvsRead i n)) \<Longrightarrow> only_io P s t \<Longrightarrow> only_io P s (snd (snd (fs_key_read E i n t)))"
  by (auto simp: fs_key_read_def ext_dat_def Let_def intro: only_io_push)

lemma fs_key_read_size:
  "fs_key_read E i n s = (rc, buf, s') \<Longrightarrow> rc \<le> int n \<and> length buf \<le> n"
  by (auto simp: fs_key_read_def ext_dat_def Let_def split: if_splits)

section \<open>What a key store promises its client\<close>

text \<open>A read reports at most the size of the caller's buffer and writes no more than
  that; no operation touches a variable of another module.\<close>

locale key_store =
  fixes rd :: "16 word \<Rightarrow> nat \<Rightarrow> bmc \<Rightarrow> int \<times> bytes \<times> bmc"
    and wr :: "16 word \<Rightarrow> bytes \<Rightarrow> bmc \<Rightarrow> int \<times> bmc"
    and clr :: "bmc \<Rightarrow> int \<times> bmc"
  assumes rd_size: "rd i n s = (rc, buf, s') \<Longrightarrow> rc \<le> int n \<and> length buf \<le> n"
    and rd_io: "P (Nvs (NvsRead i n)) \<Longrightarrow> only_io P s t \<Longrightarrow> only_io P s (snd (snd (rd i n t)))"
    and wr_io: "P (Nvs (NvsWrite i b)) \<Longrightarrow> only_io P s t \<Longrightarrow> only_io P s (snd (wr i b t))"
    and clr_io: "P (Nvs NvsClear) \<Longrightarrow> only_io P s t \<Longrightarrow> only_io P s (snd (clr t))"

interpretation fs: key_store "fs_key_read E" "fs_key_write E" "fs_clear E" for E
  by unfold_locales (auto dest: fs_key_read_size intro: io_intro)

section \<open>What NVS documents\<close>

text \<open>The contents of the key-value store after a history: a successful write stores its
  bytes (an empty write deletes the key), a successful clear empties it.\<close>

fun nvs_store :: "env \<Rightarrow> call list \<Rightarrow> 16 word \<Rightarrow> bytes option" where
  "nvs_store E [] i = None"
| "nvs_store E (c # h) i =
     (case c of
        Nvs (NvsWrite j b) \<Rightarrow>
          (if j = i \<and> 0 \<le> zret E h c then (if b = [] then None else Some b)
           else nvs_store E h i)
      | Nvs NvsClear \<Rightarrow> (if zret E h c = 0 then None else nvs_store E h i)
      | _ \<Rightarrow> nvs_store E h i)"

lemma nvs_store_nonempty: "nvs_store E h i \<noteq> Some []"
  by (induction h) (auto split: call.splits nvs_call.splits if_splits)

text \<open>Reads answer from the contents: the stored length and as many bytes as fit.\<close>

definition nvs_documented :: "env \<Rightarrow> bool" where
  "nvs_documented E \<longleftrightarrow>
     (\<forall>h i n. zret E h (Nvs (NvsRead i n)) =
          (case nvs_store E h i of None \<Rightarrow> - ENOENT | Some b \<Rightarrow> int (length b)) \<and>
        zdat E h (Nvs (NvsRead i n)) =
          (case nvs_store E h i of None \<Rightarrow> [] | Some b \<Rightarrow> take n b))"

text \<open>Every write to the store succeeds, and so does clearing it.\<close>

definition nvs_writable :: "env \<Rightarrow> bool" where
  "nvs_writable E \<longleftrightarrow>
     (\<forall>h i b. 0 \<le> zret E h (Nvs (NvsWrite i b))) \<and> (\<forall>h. zret E h (Nvs NvsClear) = 0)"

lemma fs_key_read_stored:
  assumes "nvs_documented E" and "fs_enabled E s"
  shows "fs_key_read E i n s =
    (case nvs_store E (trace s) i of
       None \<Rightarrow> (- ENOENT, [], s\<lparr>trace := Nvs (NvsRead i n) # trace s\<rparr>)
     | Some b \<Rightarrow> (if length b > n then - EINVAL else int (length b), take n b,
         s\<lparr>trace := Nvs (NvsRead i n) # trace s\<rparr>))"
  using assms by (auto simp: nvs_documented_def fs_key_read_def ext_dat_def split: option.split)

lemma retry_write_store:
  assumes "k \<le> FLASH_WRITE_RETRY_COUNT"
    and "retry_call E (Nvs (NvsWrite i b)) k s = (rc, s')"
  shows "nvs_store E (trace s') j =
    (if j = i \<and> 0 \<le> rc then (if b = [] then None else Some b) else nvs_store E (trace s) j)"
  using assms
proof (induction E "Nvs (NvsWrite i b)" k s arbitrary: rc s' rule: retry_call.induct)
  case (1 E k s)
  let ?c = "Nvs (NvsWrite i b)" and ?s1 = "s\<lparr>trace := Nvs (NvsWrite i b) # trace s\<rparr>"
  show ?case
  proof (cases "zret E (trace s) ?c = - EIO \<and> k < FLASH_WRITE_RETRY_COUNT")
    case True
    then have "retry_call E ?c (Suc k) ?s1 = (rc, s')"
      using "1.prems"(2) by (subst (asm) retry_call.simps) (simp add: ext_def)
    then show ?thesis
      using "1.hyps" [of "(zret E (trace s) ?c, ?s1)" "zret E (trace s) ?c" ?s1 rc s'] True
      by (simp add: ext_def)
  next
    case False
    then show ?thesis
      using "1.prems"(2) by (subst (asm) retry_call.simps) (auto simp: ext_def)
  qed
qed

lemma fs_key_write_store:
  assumes "fs_key_write E i b s = (rc, s')" and "fs_enabled E s"
  shows "nvs_store E (trace s') j =
    (if j = i \<and> 0 \<le> rc then (if b = [] then None else Some b) else nvs_store E (trace s) j)"
proof -
  obtain r s1 where r: "retry_call E (Nvs (NvsWrite i b)) 0 s = (r, s1)"
    by fastforce
  with assms have "s' = s1" and "rc = (if r = 0 then int (length b) else r)"
    by (auto simp: fs_key_write_def fs_write_again_retry)
  with retry_write_store [OF _ r, of j] show ?thesis
    by auto
qed

lemma fs_key_read_only_read:
  "fs_key_read E i n s = (rc, buf, s') \<Longrightarrow> nvs_store E (trace s') j = nvs_store E (trace s) j"
  by (auto simp: fs_key_read_def ext_dat_def Let_def split: if_splits)

lemma nvs_store_no_nvs:
  assumes "only_io no_nvs s s'"
  shows "nvs_store E (trace s') i = nvs_store E (trace s) i"
proof -
  have "nvs_store E (cs @ h) i = nvs_store E h i" if "\<forall>c \<in> set cs. no_nvs c" for cs h
    using that by (induction cs) (auto simp: no_nvs_def split: call.splits)
  with assms show ?thesis
    by (auto elim!: only_ioE)
qed

end
