(* ===== verification/Config_Store.thy ===== *)
theory Config_Store
  imports Fs
begin

text \<open>
  The storage side of config.c: the firmware's \<open>strlcpy\<close>, the read and write helpers
  (the macros \<open>config_read\<close>, \<open>config_read_str\<close>, \<open>config_write\<close>, \<open>config_write_str\<close>,
  one definition per type of variable they are used with) and the getters the other modules
  call. The lemmas show that the helpers never leave the array they are given.
\<close>

section \<open>strlcpy\<close>

definition strlcpy :: "bytes \<Rightarrow> bytes \<Rightarrow> nat \<Rightarrow> nat \<times> bytes" where
  "strlcpy dst src dstsize =
     (let src_len = length (c_str src) in
      if dstsize \<noteq> 0 then
        let copy_len = min src_len (dstsize - 1);
            dst = memcpy_into dst (take copy_len src)
        in (src_len, dst[copy_len := NUL])
      else (src_len, dst))"

lemma take_c_str: "n \<le> length (c_str src) \<Longrightarrow> take n src = take n (c_str src)"
proof -
  assume n: "n \<le> length (c_str src)"
  have "take n src = take n (c_str src @ dropWhile (\<lambda>c. c \<noteq> NUL) src)"
    by (simp add: c_str_def)
  with n show ?thesis
    by (simp del: takeWhile_dropWhile_id)
qed

lemma strlcpy_c_str [cstr_simps]:
  assumes "length dst = Suc n"
  shows "c_str (snd (strlcpy dst src (Suc n))) = take n (c_str src)"
proof -
  let ?k = "min (length (c_str src)) n"
  have copy: "take ?k src = take ?k (c_str src)"
    by (rule take_c_str) simp
  have len: "length (take ?k (c_str src)) = ?k"
    by simp
  have "take ?k (memcpy_into dst (take ?k (c_str src))) = take ?k (c_str src)"
    using assms len by (simp add: memcpy_into_fits)
  then have "c_str (snd (strlcpy dst src (Suc n))) = c_str (take ?k (c_str src))"
    using assms copy by (simp add: strlcpy_def Let_def c_str_terminate)
  also have "\<dots> = take n (c_str src)"
    by (simp add: c_str_c_string is_c_string_take min_def)
  finally show ?thesis .
qed

lemma strlcpy_wf:
  "length dst = Suc n \<Longrightarrow> wf_cstr n (snd (strlcpy dst src (Suc n)))"
  by (simp add: strlcpy_def Let_def wf_cstr_terminate)

lemma strlcpy_keeps_wf [simp]:
  "wf_cstr n dst \<Longrightarrow> wf_cstr n (snd (strlcpy dst src (Suc n)))"
  by (rule strlcpy_wf) (simp add: wf_cstr_def)

lemma strlcpy_len: "fst (strlcpy dst src n) = length (c_str src)"
  by (simp add: strlcpy_def Let_def)

section \<open>Reading and writing fields\<close>

definition config_read_raw :: "env \<Rightarrow> 16 word \<Rightarrow> nat \<Rightarrow> bmc \<Rightarrow> int \<times> bytes \<times> bmc" where
  "config_read_raw E i n s =
     (if config_use_fs s then fs_key_read E i n s else (- ENODEV, [], s))"

definition config_write_raw :: "env \<Rightarrow> 16 word \<Rightarrow> bytes \<Rightarrow> bmc \<Rightarrow> int \<times> bmc" where
  "config_write_raw E i buf s =
     (if config_use_fs s then fs_key_write E i buf s else (- ENODEV, s))"

definition config_clear :: "env \<Rightarrow> bmc \<Rightarrow> int \<times> bmc" where
  "config_clear E s = fs_clear E s"

text \<open>Bytes read over the memory of a variable; the ones not read keep their value.\<close>

definition load_u8 :: "8 word \<Rightarrow> bytes \<Rightarrow> 8 word" where
  "load_u8 var buf = word_of_byte (hd (memcpy_into [byte_of var] buf))"

definition load_u32 :: "32 word \<Rightarrow> bytes \<Rightarrow> 32 word" where
  "load_u32 var buf = of_le32 (memcpy_into (le32 var) buf)"

definition config_read_u8 :: "env \<Rightarrow> config_id \<Rightarrow> 8 word \<Rightarrow> bmc \<Rightarrow> int \<times> 8 word \<times> bmc" where
  "config_read_u8 E i var s =
     (let (rc, buf, s) = config_read_raw E (cfg_key i) 1 s in (rc, load_u8 var buf, s))"

definition config_read_u32 :: "env \<Rightarrow> config_id \<Rightarrow> 32 word \<Rightarrow> bmc \<Rightarrow> int \<times> 32 word \<times> bmc" where
  "config_read_u32 E i var s =
     (let (rc, buf, s) = config_read_raw E (cfg_key i) 4 s in (rc, load_u32 var buf, s))"

text \<open>\<open>var[rc] = 0\<close> after a read of at most \<open>sizeof(var) - 1\<close> bytes, for any reader.\<close>

definition read_str_with ::
  "(16 word \<Rightarrow> nat \<Rightarrow> bmc \<Rightarrow> int \<times> bytes \<times> bmc) \<Rightarrow> 16 word \<Rightarrow> bytes \<Rightarrow> bmc \<Rightarrow>
    int \<times> bytes \<times> bmc" where
  "read_str_with rd i var s =
     (let (rc, buf, s) = rd i (length var - 1) s;
          var = memcpy_into var buf;
          var = (if rc \<ge> 0 then var[nat rc := NUL] else var)
      in (rc, var, s))"

definition config_read_str :: "env \<Rightarrow> config_id \<Rightarrow> bytes \<Rightarrow> bmc \<Rightarrow> int \<times> bytes \<times> bmc" where
  "config_read_str E i var s = read_str_with (config_read_raw E) (cfg_key i) var s"

definition config_write_u8 :: "env \<Rightarrow> config_id \<Rightarrow> 8 word \<Rightarrow> bmc \<Rightarrow> int \<times> bmc" where
  "config_write_u8 E i var s = config_write_raw E (cfg_key i) [byte_of var] s"

definition config_write_u32 :: "env \<Rightarrow> config_id \<Rightarrow> 32 word \<Rightarrow> bmc \<Rightarrow> int \<times> bmc" where
  "config_write_u32 E i var s = config_write_raw E (cfg_key i) (le32 var) s"

definition config_write_str :: "env \<Rightarrow> config_id \<Rightarrow> bytes \<Rightarrow> bmc \<Rightarrow> int \<times> bmc" where
  "config_write_str E i var s = config_write_raw E (cfg_key i) (c_str var) s"

section \<open>Getters\<close>

definition config_bmc_hostname :: "bmc \<Rightarrow> bytes" where
  "config_bmc_hostname s = c_str (bmc_hostname (config_data s))"

definition config_bmc_default_ip4 :: "bmc \<Rightarrow> ip4" where
  "config_bmc_default_ip4 s = bmc_default_ip4 (config_data s)"

definition config_bmc_default_ip4_nm :: "bmc \<Rightarrow> ip4" where
  "config_bmc_default_ip4_nm s = bmc_default_ip4_nm (config_data s)"

definition config_bmc_default_ip4_gw :: "bmc \<Rightarrow> ip4" where
  "config_bmc_default_ip4_gw s = bmc_default_ip4_gw (config_data s)"

definition config_bmc_use_dhcp4 :: "bmc \<Rightarrow> bool" where
  "config_bmc_use_dhcp4 s = (bmc_use_dhcp4 (config_data s) \<noteq> 0)"

definition config_host_auto_poweron :: "bmc \<Rightarrow> bool" where
  "config_host_auto_poweron s = (host_auto_poweron (config_data s) \<noteq> 0)"

definition config_bmc_admin_password :: "bmc \<Rightarrow> bytes" where
  "config_bmc_admin_password s = c_str (bmc_admin_password (config_data s))"

definition config_bmc_use_ntp :: "bmc \<Rightarrow> bool" where
  "config_bmc_use_ntp s = (bmc_use_ntp (config_data s) \<noteq> 0)"

definition config_bmc_ntp_server :: "bmc \<Rightarrow> bytes" where
  "config_bmc_ntp_server s = c_str (bmc_ntp_server (config_data s))"

lemmas getters = config_bmc_hostname_def config_bmc_default_ip4_def
  config_bmc_default_ip4_nm_def config_bmc_default_ip4_gw_def config_bmc_use_dhcp4_def
  config_host_auto_poweron_def config_bmc_admin_password_def config_bmc_use_ntp_def
  config_bmc_ntp_server_def

section \<open>The helpers stay inside their arrays\<close>

interpretation cfg: key_store "config_read_raw E" "config_write_raw E" "config_clear E" for E
  by unfold_locales
    (auto simp: config_read_raw_def config_write_raw_def config_clear_def
      dest: fs.rd_size intro: fs.rd_io fs.wr_io fs.clr_io split: if_splits)

declare cfg.rd_io [io_intro] cfg.wr_io [io_intro] cfg.clr_io [io_intro]

text \<open>Where a client of a key store reads a string, the terminator lands in the array and
  the result is a terminated string of the same size.\<close>

context key_store
begin

lemma read_str_withE:
  assumes "read_str_with rd i var s = (rc, var', s')"
  obtains buf where "rd i (length var - 1) s = (rc, buf, s')"
    and "var' = (if rc \<ge> 0 then (memcpy_into var buf)[nat rc := NUL] else memcpy_into var buf)"
  using assms by (auto simp: read_str_with_def Let_def split: prod.splits)

lemma read_str_in_bounds:
  assumes "read_str_with rd i var s = (rc, var', s')" and "var \<noteq> []" and "0 \<le> rc"
  shows "nat rc < length var"
proof -
  obtain buf where "rd i (length var - 1) s = (rc, buf, s')"
    using assms(1) by (rule read_str_withE)
  from rd_size [OF this] assms(2,3) show ?thesis
    by (cases var) auto
qed

lemma read_str_wf:
  assumes "read_str_with rd i var s = (rc, var', s')" and "wf_cstr n var"
  shows "length var' = Suc n \<and> (0 \<le> rc \<longrightarrow> wf_cstr n var')"
proof -
  obtain buf where r: "rd i (length var - 1) s = (rc, buf, s')"
    and var': "var' = (if rc \<ge> 0 then (memcpy_into var buf)[nat rc := NUL] else memcpy_into var buf)"
    using assms(1) by (rule read_str_withE)
  have "length var = Suc n"
    using assms(2) by (simp add: wf_cstr_def)
  with rd_size [OF r] var' show ?thesis
    by (auto intro: wf_cstr_terminate)
qed

lemma read_str_io:
  "P (Nvs (NvsRead i (length var - 1))) \<Longrightarrow> only_io P s t \<Longrightarrow>
    only_io P s (snd (snd (read_str_with rd i var t)))"
  using rd_io [of P i "length var - 1" s t]
  by (auto simp: read_str_with_def Let_def split: prod.split)

end

end
