(* ===== verification/Rtc.thy ===== *)
theory Rtc
  imports Bmc_State
begin

text \<open>
  The clock (rtc.c): parsing the ISO 8601 time of a Redfish request, and moving the time
  between the system clock and the RTC chip. The parts of the C library the code uses are
  modelled: \<open>sscanf\<close> for formats of \<open>%d\<close> conversions and literal characters, and
  \<open>gmtime_r\<close>. Zephyr's \<open>timeutil_timegm\<close> is a parameter.
\<close>

section \<open>gmtime\<close>

text \<open>The Gregorian date of a day counted from 1 January 1970, by 400-year eras that start
  on 1 March.\<close>

definition civil_of_days :: "int \<Rightarrow> int \<times> int \<times> int" where
  "civil_of_days days =
     (let z = days + 719468;
          era = z div 146097;
          doe = z mod 146097;
          yoe = (doe - doe div 1460 + doe div 36524 - doe div 146096) div 365;
          doy = doe - (365 * yoe + yoe div 4 - yoe div 100);
          mp = (5 * doy + 2) div 153;
          d = doy - (153 * mp + 2) div 5 + 1;
          m = (if mp < 10 then mp + 3 else mp - 9);
          y = yoe + era * 400 + (if m \<le> 2 then 1 else 0)
      in (y, m, d))"

definition is_leap :: "int \<Rightarrow> bool" where
  "is_leap y \<longleftrightarrow> y mod 4 = 0 \<and> (y mod 100 \<noteq> 0 \<or> y mod 400 = 0)"

definition days_before_month :: "int \<Rightarrow> int \<Rightarrow> int" where
  "days_before_month y m =
     [0, 31, 59, 90, 120, 151, 181, 212, 243, 273, 304, 334] ! nat (m - 1)
     + (if is_leap y \<and> 2 < m then 1 else 0)"

definition gmtime_r :: "int \<Rightarrow> tm" where
  "gmtime_r t =
     (let days = t div 86400; secs = t mod 86400; (y, m, d) = civil_of_days days
      in \<lparr>tm_sec = secs mod 60, tm_min = secs div 60 mod 60, tm_hour = secs div 3600,
          tm_mday = d, tm_mon = m - 1, tm_year = y - 1900, tm_wday = (days + 4) mod 7,
          tm_yday = days_before_month y m + d - 1\<rparr>)"

section \<open>sscanf\<close>

datatype directive = Conv "nat option" | Lit char

definition is_space :: "char \<Rightarrow> bool" where
  "is_space c \<longleftrightarrow> c \<in> set [CHR '' '', CHR 0x09, CHR 0x0A, CHR 0x0B, CHR 0x0C, CHR 0x0D]"

definition is_digit :: "char \<Rightarrow> bool" where
  "is_digit c \<longleftrightarrow> (48::nat) \<le> of_char c \<and> of_char c \<le> (57::nat)"

definition digit_val :: "char \<Rightarrow> int" where
  "digit_val c = of_char c - 48"

definition digits_val :: "bytes \<Rightarrow> int" where
  "digits_val ds = foldl (\<lambda>n c. 10 * n + digit_val c) 0 ds"

definition width_take :: "nat option \<Rightarrow> bytes \<Rightarrow> bytes" where
  "width_take w str = (case w of None \<Rightarrow> str | Some n \<Rightarrow> take n str)"

text \<open>\<open>%d\<close>: white space, an optional sign, digits; the width counts sign and digits.\<close>

definition scan_int :: "nat option \<Rightarrow> bytes \<Rightarrow> (int \<times> bytes) option" where
  "scan_int w str =
     (let str = dropWhile is_space str;
          item = width_take w str;
          (neg, body) = (case item of
             c # cs \<Rightarrow> if c = CHR ''-'' then (True, cs)
                       else if c = CHR ''+'' then (False, cs) else (False, item)
           | [] \<Rightarrow> (False, item));
          ds = takeWhile is_digit body;
          used = length item - length body + length ds
      in if ds = [] then None
         else Some (if neg then - digits_val ds else digits_val ds, drop used str))"

text \<open>The values converted before the first directive that fails; their number is what
  \<open>sscanf\<close> returns (or EOF, where there is none).\<close>

fun sscanf :: "directive list \<Rightarrow> bytes \<Rightarrow> int list" where
  "sscanf [] str = []"
| "sscanf (Lit c # fs) [] = []"
| "sscanf (Lit c # fs) (x # str) = (if x = c then sscanf fs str else [])"
| "sscanf (Conv w # fs) str =
     (case scan_int w str of None \<Rightarrow> [] | Some (v, rest) \<Rightarrow> v # sscanf fs rest)"

text \<open>A converted value stored in an \<open>int\<close>.\<close>

definition to_c_int :: "env \<Rightarrow> int \<Rightarrow> int" where
  "to_c_int E v = (if - (2 ^ 31) \<le> v \<and> v < 2 ^ 31 then v else scanf_overflow E v)"

section \<open>Time from an ISO string\<close>

definition NSEC_PER_MSEC :: int where "NSEC_PER_MSEC = 1000000"

definition iso_format :: "directive list" where
  "iso_format = [Conv None, Lit (CHR ''-''), Conv None, Lit (CHR ''-''), Conv None,
     Lit (CHR ''T''), Conv None, Lit (CHR '':''), Conv None, Lit (CHR '':''), Conv None,
     Lit (CHR ''.''), Conv (Some 3), Lit (CHR ''Z'')]"

definition zero_tm :: tm where
  "zero_tm = \<lparr>tm_sec = 0, tm_min = 0, tm_hour = 0, tm_mday = 0, tm_mon = 0, tm_year = 0,
     tm_wday = 0, tm_yday = 0\<rparr>"

definition frac_to_ms :: "int \<Rightarrow> int" where
  "frac_to_ms frac = (if frac < 10 then frac * 100 else if frac < 100 then frac * 10 else frac)"

text \<open>\<open>Inl\<close> is the error returned, \<open>Inr\<close> the \<open>timespec\<close> written on success.\<close>

definition time_iso_to_ts :: "env \<Rightarrow> bytes \<Rightarrow> int + (int \<times> int)" where
  "time_iso_to_ts E str =
     (case map (to_c_int E) (sscanf iso_format (c_str str)) of
        [year, month, day, hour, minute, second, frac] \<Rightarrow>
          if year < 1900 then Inl (- EINVAL)
          else if month < 1 then Inl (- EINVAL)
          else
            let tm = zero_tm\<lparr>tm_year := year - 1900, tm_mon := month - 1, tm_mday := day,
                       tm_hour := hour, tm_min := minute, tm_sec := second\<rparr>;
                epoch_sec = timeutil_timegm E tm
            in if epoch_sec = - 1 then Inl (- EINVAL)
               else
                 let ms = frac_to_ms frac
                 in Inr (epoch_sec, ms * NSEC_PER_MSEC)
      | _ \<Rightarrow> Inl (- EINVAL))"

section \<open>The RTC and the system clock\<close>

definition rtc_set_from_timespec :: "env \<Rightarrow> int \<times> int \<Rightarrow> bmc \<Rightarrow> int \<times> bmc" where
  "rtc_set_from_timespec E ts s =
     (let (ready, s) = ext E (Time RtcReady) s in
      if ready = 0 then (- ENODEV, s)
      else
        let (ret, s) = ext E (Time (RtcSetTime (gmtime_r (fst ts)) (snd ts))) s in
        if ret < 0 then (ret, s) else (0, s))"

definition rtc_set_from_clock :: "env \<Rightarrow> bmc \<Rightarrow> int \<times> bmc" where
  "rtc_set_from_clock E s =
     (if \<not> CONFIG_RTC E then (- ENODEV, s)
      else
        let ts = clock_now E (trace s); (ret, s) = ext E (Time ClockGet) s in
        if ret \<noteq> 0 then (ret, s)
        else
          let (ret, s) = rtc_set_from_timespec E ts s in
          if ret \<noteq> 0 then (ret, s) else (0, s))"

definition time_set_from_iso_str :: "env \<Rightarrow> bytes \<Rightarrow> bmc \<Rightarrow> int \<times> bmc" where
  "time_set_from_iso_str E str s =
     (case time_iso_to_ts E str of
        Inl ret \<Rightarrow> (ret, s)
      | Inr ts \<Rightarrow>
          let (ret, s) = rtc_set_from_timespec E ts s in
          if ret \<noteq> 0 then (ret, s)
          else
            let (ret, s) = ext E (Time (ClockSet (fst ts) (snd ts))) s in
            if ret \<noteq> 0 then (ret, s) else (0, s))"

text \<open>The end of \<open>rtc_init\<close>, after the last attempt to read the chip.\<close>

definition rtc_init_clock :: "env \<Rightarrow> int \<Rightarrow> tm \<times> int \<Rightarrow> bmc \<Rightarrow> int \<times> bmc" where
  "rtc_init_clock E rc now s =
     (if rc < 0 then (rc, s)
      else
        let sec = timeutil_timegm E (fst now) in
        if sec = - 1 then (- EINVAL, s)
        else
          let (rc, s) = ext E (Time (ClockSet sec (snd now))) s
          in if rc \<noteq> 0 then (rc, s) else (rc, s))"

definition rtc_init :: "env \<Rightarrow> bmc \<Rightarrow> int \<times> bmc" where
  "rtc_init E s =
     (if \<not> CONFIG_RTC E then (0, s)
      else
        let (ready, s) = ext E (Time RtcReady) s in
        if ready = 0 then (0, s)
        else
          let now = rtc_now E (trace s); (rc, s) = ext E (Time RtcGetTime) s in
          if rc = - ENODATA then
            let tm = zero_tm\<lparr>tm_year := 2026 - 1900, tm_mday := 1\<rparr>;
                (rc, s) = ext E (Time (RtcSetTime tm 0)) s
            in if rc < 0 then (rc, s)
               else
                 let now = rtc_now E (trace s); (rc, s) = ext E (Time RtcGetTime) s
                 in rtc_init_clock E rc now s
          else rtc_init_clock E rc now s)"

end
