(* ===== verification/Ntp.thy ===== *)
theory Ntp
  imports Config_Store Rtc
begin

text \<open>
  Time synchronisation (ntp.c): one SNTP exchange, the delayable work item that repeats it,
  and starting and stopping it. The state is \<open>ntp_synced\<close>, \<open>ntp_started\<close> and the
  interval in seconds; the work item itself belongs to Zephyr, and whether it is pending is
  read off the calls made.
\<close>

section \<open>One SNTP exchange\<close>

text \<open>\<open>((uint64_t)fraction * NSEC_PER_SEC) >> 32\<close>\<close>

definition fraction_to_nsec :: "32 word \<Rightarrow> 64 word" where
  "fraction_to_nsec fraction = drop_bit 32 ((ucast fraction :: 64 word) * 1000000000)"

definition sntp_set_clocks :: "env \<Rightarrow> 64 word \<times> 32 word \<Rightarrow> bmc \<Rightarrow> int \<times> bmc" where
  "sntp_set_clocks E ts s =
     (let tv_sec = sint (fst ts); tv_nsec = uint (fraction_to_nsec (snd ts));
          (rc, s) = ext E (Time (ClockSet tv_sec tv_nsec)) s in
      if rc < 0 then (rc, s)
      else
        let (rc, s) = rtc_set_from_clock E s;
            rc = (if rc < 0 then 0 else rc)
        in (rc, s))"

definition NTP_SERVER_PORT :: nat where "NTP_SERVER_PORT = 123"

definition dns_query :: "env \<Rightarrow> bytes \<Rightarrow> bmc \<Rightarrow> int \<times> bytes \<times> bmc" where
  "dns_query E host s =
     (let (rv, addr, s) = ext_dat E (Time (GetAddrInfo host)) s in
      if rv < 0 then (rv, [], s)
      else
        let s = ext_ignore E (Time FreeAddrInfo) s in (0, addr, s))"

definition do_sntp :: "env \<Rightarrow> bmc \<Rightarrow> int \<times> bmc" where
  "do_sntp E s =
     (let server = config_bmc_ntp_server s;
          (rv, addr, s) = dns_query E server s in
      if rv \<noteq> 0 then (rv, s)
      else
        let (rv, s) = ext E (Time (SntpInit addr NTP_SERVER_PORT)) s in
        if rv < 0 then (let s = ext_ignore E (Time SntpClose) s in (rv, s))
        else
          let s_time = sntp_time E (trace s); (rv, s) = ext E (Time (SntpQuery 4000)) s in
          if rv < 0 then (let s = ext_ignore E (Time SntpClose) s in (rv, s))
          else
            let s = ext_ignore E (Time SntpClose) s;
                (rv, s) = sntp_set_clocks E s_time s
            in if rv < 0 then (rv, s) else (0, s))"

section \<open>The periodic work item\<close>

text \<open>\<open>K_SECONDS\<close>\<close>

definition schedule_ntp :: "env \<Rightarrow> bmc \<Rightarrow> bmc" where
  "schedule_ntp E s =
     ext_ignore E (Kernel (WorkSchedule NtpSyncWork (1000 * unat (ntp_interval_sec s)))) s"

definition ntp_sync_work_handler :: "env \<Rightarrow> bmc \<Rightarrow> bmc" where
  "ntp_sync_work_handler E s =
     (let s = s\<lparr>ntp_interval_sec := 60\<rparr>;
          (rc, s) = do_sntp E s;
          s = (if rc = 0 then
                 if \<not> ntp_synced s then s\<lparr>ntp_synced := True, ntp_interval_sec := 6 * 60 * 60\<rparr>
                 else s
               else s)
      in schedule_ntp E s)"

definition ntp_is_synced :: "env \<Rightarrow> bmc \<Rightarrow> bool" where
  "ntp_is_synced E s = (CONFIG_APP_NTP E \<and> ntp_synced s)"

definition start_ntp :: "env \<Rightarrow> bmc \<Rightarrow> int \<times> bmc" where
  "start_ntp E s =
     (if \<not> CONFIG_APP_NTP E then (- ENODEV, s)
      else if ntp_started s then (0, s)
      else
        let s = ext_ignore E (Kernel (WorkInit NtpSyncWork)) s;
            s = schedule_ntp E s
        in (0, s\<lparr>ntp_started := True\<rparr>))"

definition stop_ntp :: "env \<Rightarrow> bmc \<Rightarrow> int \<times> bmc" where
  "stop_ntp E s =
     (if \<not> CONFIG_APP_NTP E then (- ENODEV, s)
      else if \<not> ntp_started s then (0, s)
      else
        let s = ext_ignore E (Kernel (WorkCancelSync NtpSyncWork)) s;
            s = s\<lparr>ntp_interval_sec := 1\<rparr>
        in (0, s\<lparr>ntp_started := False\<rparr>))"

definition ntp_init :: "env \<Rightarrow> bmc \<Rightarrow> int \<times> bmc" where
  "ntp_init E s =
     (if \<not> CONFIG_APP_NTP E then (0, s)
      else if config_bmc_use_ntp s then start_ntp E s else (0, s))"

section \<open>What the operations leave alone\<close>

lemma rtc_set_from_timespec_io [io_intro]:
  "\<forall>c. P (Time c) \<Longrightarrow> only_io P s t \<Longrightarrow> only_io P s (snd (rtc_set_from_timespec E ts t))"
  by (auto simp: rtc_set_from_timespec_def Let_def intro!: io_intro)

lemma rtc_set_from_clock_io [io_intro]: "\<forall>c. P (Time c) \<Longrightarrow> only_io P s t \<Longrightarrow> only_io P s (snd (rtc_set_from_clock E t))"
  by (auto simp: rtc_set_from_clock_def Let_def intro!: io_intro)

lemma time_set_from_iso_str_io [io_intro]:
  "\<forall>c. P (Time c) \<Longrightarrow> only_io P s t \<Longrightarrow> only_io P s (snd (time_set_from_iso_str E str t))"
  by (auto simp: time_set_from_iso_str_def Let_def intro!: io_intro)

lemma rtc_init_io [io_intro]: "\<forall>c. P (Time c) \<Longrightarrow> only_io P s t \<Longrightarrow> only_io P s (snd (rtc_init E t))"
  by (auto simp: rtc_init_def rtc_init_clock_def Let_def intro!: io_intro)

lemma sntp_set_clocks_io [io_intro]: "\<forall>c. P (Time c) \<Longrightarrow> only_io P s t \<Longrightarrow> only_io P s (snd (sntp_set_clocks E ts t))"
  by (auto simp: sntp_set_clocks_def Let_def intro!: io_intro)

lemma dns_query_io [io_intro]: "\<forall>c. P (Time c) \<Longrightarrow> only_io P s t \<Longrightarrow> only_io P s (snd (snd (dns_query E host t)))"
  by (auto simp: dns_query_def Let_def intro!: io_intro)

lemma do_sntp_io [io_intro]: "\<forall>c. P (Time c) \<Longrightarrow> only_io P s t \<Longrightarrow> only_io P s (snd (do_sntp E t))"
  by (auto simp: do_sntp_def Let_def intro!: io_intro)

end
