(* ===== verification/Net.thy ===== *)
theory Net
  imports Ntp
begin

text \<open>
  Networking (net.c, dhcp.c): the host name, the default IPv4 address, starting and stopping
  the DHCP client on every interface, and the initialisation. The interface's address table
  belongs to Zephyr: \<open>unicast E h\<close> is what the code reads in it after the calls \<open>h\<close>.
  The operations keep no state of their own, which the interpretations of \<open>io_op\<close> record.
\<close>

section \<open>DHCP client (dhcp.c)\<close>

definition DHCP_OPTION_NTP :: nat where "DHCP_OPTION_NTP = 42"

definition start_dhcpv4_client :: "env \<Rightarrow> iface \<Rightarrow> bmc \<Rightarrow> bmc" where
  "start_dhcpv4_client E iface s = ext_ignore E (Net (Dhcpv4Start iface)) s"

definition restart_dhcpv4_client :: "env \<Rightarrow> iface \<Rightarrow> bmc \<Rightarrow> bmc" where
  "restart_dhcpv4_client E iface s = ext_ignore E (Net (Dhcpv4Restart iface)) s"

definition stop_dhcpv4_client :: "env \<Rightarrow> iface \<Rightarrow> bmc \<Rightarrow> bmc" where
  "stop_dhcpv4_client E iface s = ext_ignore E (Net (Dhcpv4Stop iface)) s"

text \<open>\<open>net_if_foreach\<close>\<close>

definition net_if_foreach :: "env \<Rightarrow> (iface \<Rightarrow> bmc \<Rightarrow> bmc) \<Rightarrow> bmc \<Rightarrow> bmc" where
  "net_if_foreach E cb s = fold cb (ifaces E (trace s)) s"

definition dhcp4_init :: "env \<Rightarrow> bmc \<Rightarrow> int \<times> bmc" where
  "dhcp4_init E s =
     (let s = ext_ignore E (Net NetMgmtAddCallback) s;
          s = ext_ignore E (Net (Dhcpv4AddOptionCallback DHCP_OPTION_NTP 4)) s
      in (0, s))"

text \<open>The event handlers, which \<open>dhcp4_init\<close> registers: each only logs. Their value is the list of
  messages they pass to the log, with their level; reading the table of an interface that has
  no IPv4 configuration goes through a NULL pointer.\<close>

datatype log_level = LOG_INF | LOG_DBG

datatype mgmt_event = NET_EVENT_IPV4_ADDR_ADD | OtherMgmtEvent "64 word"

definition lease_messages :: "env \<Rightarrow> call list \<Rightarrow> iface \<Rightarrow> addr_slot \<Rightarrow> (log_level \<times> bytes) list" where
  "lease_messages E h iface slot =
     [(LOG_INF, ''New lease on '' @ iface_name E iface @ ''['' @ dec_int (iface_index E iface) @ '']''),
      (LOG_INF, ''    Address: '' @ show_str (inet_ntop E (slot_addr slot))),
      (LOG_DBG, ''    Subnet: '' @ show_str (inet_ntop E (slot_netmask slot))),
      (LOG_DBG, ''    Router: '' @ show_str (inet_ntop E (ipv4_gw E h iface))),
      (LOG_DBG, ''    Lease time: '' @ dec_nat (unat (dhcpv4_lease_time E h iface)) @ '' seconds'')]"

definition dhcp_event_handler ::
  "env \<Rightarrow> call list \<Rightarrow> mgmt_event \<Rightarrow> iface \<Rightarrow> (log_level \<times> bytes) list option" where
  "dhcp_event_handler E h ev iface =
     (if ev \<noteq> NET_EVENT_IPV4_ADDR_ADD then Some []
      else if NET_IF_MAX_IPV4_ADDR E > 0 \<and> \<not> has_ipv4 E h iface then None
      else Some (concat (map (\<lambda>i.
        let slot = unicast E h iface i in
        if addr_type slot \<noteq> NET_ADDR_DHCP then [] else lease_messages E h iface slot)
        [0..<NET_IF_MAX_IPV4_ADDR E])))"

definition dhcp_option_handler :: "env \<Rightarrow> nat \<Rightarrow> bytes \<Rightarrow> (log_level \<times> bytes) list" where
  "dhcp_option_handler E opt cb_data =
     [(LOG_DBG, ''DHCP Option '' @ dec_nat opt @ '': '' @
        show_str (inet_ntop E (of_le32 cb_data)))]"

definition start_dhcp4 :: "env \<Rightarrow> bmc \<Rightarrow> int \<times> bmc" where
  "start_dhcp4 E s = (0, net_if_foreach E (start_dhcpv4_client E) s)"

definition restart_dhcp4 :: "env \<Rightarrow> bmc \<Rightarrow> int \<times> bmc" where
  "restart_dhcp4 E s = (0, net_if_foreach E (restart_dhcpv4_client E) s)"

definition stop_dhcp4 :: "env \<Rightarrow> bmc \<Rightarrow> int \<times> bmc" where
  "stop_dhcp4 E s = (0, net_if_foreach E (stop_dhcpv4_client E) s)"

section \<open>Host name and default address (net.c)\<close>

definition net_do_set_hostname :: "env \<Rightarrow> bytes \<Rightarrow> bmc \<Rightarrow> int \<times> bmc" where
  "net_do_set_hostname E hostname s =
     (let (rc, s) = ext E (Net (NetHostnameSet (c_str hostname))) s in
      if rc \<noteq> 0 then (rc, s)
      else if config_bmc_use_dhcp4 s then
        let (rc, s) = restart_dhcp4 E s in
        if rc \<noteq> 0 then (rc, s) else (rc, s)
      else (rc, s))"

text \<open>One pass of the loop that removes the addresses set by hand.\<close>

definition remove_manual_addr :: "env \<Rightarrow> iface \<Rightarrow> nat \<Rightarrow> bmc \<Rightarrow> bmc" where
  "remove_manual_addr E iface i s =
     (let slot = unicast E (trace s) iface i in
      if \<not> is_used slot then s
      else if addr_type slot = NET_ADDR_MANUAL \<or> addr_type slot = NET_ADDR_OVERRIDABLE
      then ext_ignore E (Net (NetIfAddrRm iface (slot_addr slot))) s
      else s)"

definition net_do_set_default_ip4 :: "env \<Rightarrow> ip4 \<Rightarrow> ip4 \<Rightarrow> ip4 \<Rightarrow> bmc \<Rightarrow> int \<times> bmc" where
  "net_do_set_default_ip4 E ip4_addr ip4_netmask ip4_gateway s =
     (case default_iface E (trace s) of
        None \<Rightarrow> (- ENOENT, s)
      | Some iface \<Rightarrow>
          let s = ext_ignore E (Net (NetIfSetGw iface ip4_gateway)) s;
              s = (if has_ipv4 E (trace s) iface
                   then fold (remove_manual_addr E iface) [0..<NET_IF_MAX_IPV4_ADDR E] s
                   else s)
          in if ip4_addr = 0 then (0, s)
             else
               let (if_addr, s) = ext E (Net (NetIfAddrAdd iface ip4_addr)) s in
               if if_addr = 0 then (- EINVAL, s)
               else
                 let (ok, s) = ext E (Net (NetIfSetNetmask iface ip4_addr ip4_netmask)) s in
                 if ok = 0 then (- EINVAL, s) else (0, s))"

definition net_do_set_default_ip4_from_config :: "env \<Rightarrow> bmc \<Rightarrow> int \<times> bmc" where
  "net_do_set_default_ip4_from_config E s =
     (let ip4_addr = config_bmc_default_ip4 s;
          ip4_nm = config_bmc_default_ip4_nm s;
          ip4_gw = config_bmc_default_ip4_gw s
      in net_do_set_default_ip4 E ip4_addr ip4_nm ip4_gw s)"

definition net_start_dhcp4 :: "env \<Rightarrow> bmc \<Rightarrow> int \<times> bmc" where
  "net_start_dhcp4 E s = start_dhcp4 E s"

definition net_stop_dhcp4 :: "env \<Rightarrow> bmc \<Rightarrow> int \<times> bmc" where
  "net_stop_dhcp4 E s =
     (let (rc, s) = stop_dhcp4 E s in
      if rc \<noteq> 0 then (rc, s)
      else
        let (rc, s) = net_do_set_default_ip4_from_config E s;
            s = (if CONFIG_APP_DNS_RESOLVE E
                 then ext_ignore E (Net (DnsReconfigure (CONFIG_DNS_SERVER1 E))) s else s)
        in (0, s))"

definition net_init :: "env \<Rightarrow> bmc \<Rightarrow> int \<times> bmc" where
  "net_init E s =
     (let hostname = config_bmc_hostname s;
          (rc, s) = ext E (Net (NetHostnameSet hostname)) s;
          s = (if config_bmc_default_ip4 s \<noteq> 0
               then snd (net_do_set_default_ip4_from_config E s) else s);
          (rc, s) = dhcp4_init E s
      in if rc \<noteq> 0 then (rc, s)
         else
           let (rc, s) = ext E (Net NetConfigInitApp) s in
           if rc \<noteq> 0 then (rc, s)
           else
             let s = (if \<not> config_bmc_use_dhcp4 s then snd (net_stop_dhcp4 E s) else s);
                 (rc, s) = ntp_init E s
             in (0, s))"

section \<open>No operation of the network layer keeps state\<close>

lemma dhcpv4_client_io [io_intro]:
  "\<forall>c. P (Net c) \<Longrightarrow> only_io P s t \<Longrightarrow> only_io P s (start_dhcpv4_client E i t)"
  "\<forall>c. P (Net c) \<Longrightarrow> only_io P s t \<Longrightarrow> only_io P s (restart_dhcpv4_client E i t)"
  "\<forall>c. P (Net c) \<Longrightarrow> only_io P s t \<Longrightarrow> only_io P s (stop_dhcpv4_client E i t)"
  by (auto simp: start_dhcpv4_client_def restart_dhcpv4_client_def stop_dhcpv4_client_def
      intro: io_intro)

lemma dhcp4_io [io_intro]:
  "\<forall>c. P (Net c) \<Longrightarrow> only_io P s t \<Longrightarrow> only_io P s (snd (start_dhcp4 E t))"
  "\<forall>c. P (Net c) \<Longrightarrow> only_io P s t \<Longrightarrow> only_io P s (snd (restart_dhcp4 E t))"
  "\<forall>c. P (Net c) \<Longrightarrow> only_io P s t \<Longrightarrow> only_io P s (snd (stop_dhcp4 E t))"
  "\<forall>c. P (Net c) \<Longrightarrow> only_io P s t \<Longrightarrow> only_io P s (snd (dhcp4_init E t))"
  by (auto simp: start_dhcp4_def restart_dhcp4_def stop_dhcp4_def dhcp4_init_def
      net_if_foreach_def Let_def intro!: io_intro)

lemma net_do_set_hostname_io [io_intro]:
  "\<forall>c. P (Net c) \<Longrightarrow> only_io P s t \<Longrightarrow> only_io P s (snd (net_do_set_hostname E h t))"
  by (auto simp: net_do_set_hostname_def Let_def intro!: io_intro)

lemma remove_manual_addr_io [io_intro]:
  "\<forall>c. P (Net c) \<Longrightarrow> only_io P s t \<Longrightarrow> only_io P s (remove_manual_addr E iface i t)"
  by (auto simp: remove_manual_addr_def Let_def intro!: io_intro)

lemma net_do_set_default_ip4_io [io_intro]:
  "\<forall>c. P (Net c) \<Longrightarrow> only_io P s t \<Longrightarrow> only_io P s (snd (net_do_set_default_ip4 E a m g t))"
  by (auto simp: net_do_set_default_ip4_def Let_def intro!: io_intro)

lemma net_do_set_default_ip4_from_config_io [io_intro]:
  "\<forall>c. P (Net c) \<Longrightarrow> only_io P s t \<Longrightarrow> only_io P s (snd (net_do_set_default_ip4_from_config E t))"
  by (auto simp: net_do_set_default_ip4_from_config_def Let_def intro!: io_intro)

lemma net_dhcp4_io [io_intro]:
  "\<forall>c. P (Net c) \<Longrightarrow> only_io P s t \<Longrightarrow> only_io P s (snd (net_start_dhcp4 E t))"
  "\<forall>c. P (Net c) \<Longrightarrow> only_io P s t \<Longrightarrow> only_io P s (snd (net_stop_dhcp4 E t))"
  by (auto simp: net_start_dhcp4_def net_stop_dhcp4_def Let_def intro!: io_intro)

interpretation set_hostname: io_op no_nvs "\<lambda>s. snd (net_do_set_hostname E h s)" for E h
  by unfold_locales (auto intro!: io_intro)

interpretation set_default_ip4: io_op no_nvs "\<lambda>s. snd (net_do_set_default_ip4_from_config E s)" for E
  by unfold_locales (auto intro!: io_intro)

interpretation start_dhcp: io_op no_nvs "\<lambda>s. snd (net_start_dhcp4 E s)" for E
  by unfold_locales (auto intro!: io_intro)

interpretation stop_dhcp: io_op no_nvs "\<lambda>s. snd (net_stop_dhcp4 E s)" for E
  by unfold_locales (auto intro!: io_intro)

end
