(* ===== verification/Reboot.thy ===== *)
theory Reboot
  imports Fs
begin

text \<open>
  Leaving the firmware (main.c): \<open>bmc_reboot\<close> and \<open>bmc_poweroff\<close>, which do not return to
  their caller, and the \<open>boot_finished\<close> flag. The model gives the state in which the
  processor stops; a call that ends execution is one for which \<open>no_return\<close> holds.
\<close>

definition is_boot_finished :: "bmc \<Rightarrow> bool" where
  "is_boot_finished s = boot_finished s"

text \<open>Calls made one after the other until one of them does not return.\<close>

fun run_until_halt :: "env \<Rightarrow> call list \<Rightarrow> bmc \<Rightarrow> bmc" where
  "run_until_halt E [] s = s"
| "run_until_halt E (c # cs) s =
     (if no_return E (trace s) c then ext_ignore E c s
      else run_until_halt E cs (ext_ignore E c s))"

definition bmc_reboot :: "env \<Rightarrow> bmc \<Rightarrow> bmc" where
  "bmc_reboot E s =
     (let (rc, s) = fs_exit E s;
          s = ext_ignore E (Kernel LogPanic) s;
          s = ext_ignore E (Kernel (KMsleep 100)) s
      in run_until_halt E [Kernel (SysReboot SYS_REBOOT_WARM),
           Kernel (SysReboot SYS_REBOOT_COLD), Kernel KPanic] s)"

definition bmc_poweroff :: "env \<Rightarrow> bmc \<Rightarrow> bmc" where
  "bmc_poweroff E s =
     (let (rc, s) = fs_exit E s;
          s = ext_ignore E (Kernel LogPanic) s;
          s = ext_ignore E (Kernel (KMsleep 100)) s
      in if CONFIG_POWEROFF E
         then run_until_halt E [Kernel SysPoweroff, Kernel KPanic] s else s)"

text \<open>A shell command that does not return has no status.\<close>

definition cmd_bmc_reboot :: "env \<Rightarrow> bmc \<Rightarrow> int option \<times> bmc" where
  "cmd_bmc_reboot E s = (None, bmc_reboot E s)"

definition cmd_bmc_poweroff :: "env \<Rightarrow> bmc \<Rightarrow> int option \<times> bmc" where
  "cmd_bmc_poweroff E s = (None, bmc_poweroff E s)"

lemma run_until_halt_io [io_intro]:
  "(\<forall>c \<in> set cs. P c) \<Longrightarrow> only_io P s t \<Longrightarrow> only_io P s (run_until_halt E cs t)"
  by (induction cs arbitrary: t) (auto intro: io_intro)

lemma bmc_reboot_only_io:
  assumes "P (Kernel LogPanic)" "P (Kernel (KMsleep 100))" "\<forall>r. P (Kernel (SysReboot r))"
    "P (Kernel KPanic)"
  shows "only_io P (snd (fs_exit E s)) (bmc_reboot E s)"
  using assms by (auto simp: bmc_reboot_def Let_def intro!: io_intro split: prod.split)

lemma bmc_reboot_frame:
  "config_data (bmc_reboot E s) = config_data s"
  "CONFIG_PERSISTENT_STORAGE E \<Longrightarrow> \<not> fs_is_enabled (bmc_reboot E s)"
  using only_io_fields(1,2) [OF bmc_reboot_only_io [of any_call E s]]
  by (auto simp: fs_exit_def umount_fs_def)

end
