(* ===== verification/Config.thy ===== *)
theory Config
  imports Net Reboot
begin

text \<open>
  The configuration (config.c): the setters that Redfish and the shell call, the shell
  commands over them, and \<open>config_init\<close>, which loads the configuration at boot and writes
  the defaults of the fields it cannot read.
\<close>

section \<open>Setters\<close>

definition config_bmc_hostname_set :: "env \<Rightarrow> bytes \<Rightarrow> bmc \<Rightarrow> int \<times> bmc" where
  "config_bmc_hostname_set E hostname s =
     (let (rc, s) = net_do_set_hostname E hostname s in
      if rc \<noteq> 0 then (rc, s)
      else
        let s = cfg_update (\<lambda>c. c\<lparr>bmc_hostname :=
                  snd (strlcpy (bmc_hostname c) hostname (Suc MAX_HOSTNAME_LEN))\<rparr>) s;
            (rc, s) = config_write_str E CFG_BMC_HOSTNAME (bmc_hostname (config_data s)) s
        in if rc < 0 then (rc, s) else (0, s))"

definition ip4_stoa :: "env \<Rightarrow> bytes \<Rightarrow> int + ip4" where
  "ip4_stoa E str = (case inet_pton E (c_str str) of None \<Rightarrow> Inl (- EINVAL) | Some a \<Rightarrow> Inr a)"

text \<open>The \<open>str\<close> of the address setters is a pointer that may be NULL, here \<open>None\<close>.\<close>

definition ip4_arg :: "env \<Rightarrow> bytes option \<Rightarrow> int + ip4" where
  "ip4_arg E str = (case str of Some x \<Rightarrow> ip4_stoa E x | None \<Rightarrow> Inr 0)"

definition config_bmc_default_ip4_set :: "env \<Rightarrow> bytes option \<Rightarrow> bmc \<Rightarrow> int \<times> bmc" where
  "config_bmc_default_ip4_set E str s =
     (case ip4_arg E str of
        Inl rc \<Rightarrow> (rc, s)
      | Inr addr \<Rightarrow>
          let s = cfg_update (\<lambda>c. c\<lparr>bmc_default_ip4 := addr\<rparr>) s;
              (rc, s) = net_do_set_default_ip4_from_config E s
          in if rc \<noteq> 0 then (rc, s)
             else
               let (rc, s) = config_write_u32 E CFG_BMC_DEFAULT_IP4
                     (bmc_default_ip4 (config_data s)) s
               in if rc < 0 then (rc, s) else (0, s))"

definition config_bmc_default_ip4_nm_set :: "env \<Rightarrow> bytes option \<Rightarrow> bmc \<Rightarrow> int \<times> bmc" where
  "config_bmc_default_ip4_nm_set E str s =
     (case ip4_arg E str of
        Inl rc \<Rightarrow> (rc, s)
      | Inr addr \<Rightarrow>
          let s = cfg_update (\<lambda>c. c\<lparr>bmc_default_ip4_nm := addr\<rparr>) s;
              (rc, s) = net_do_set_default_ip4_from_config E s
          in if rc \<noteq> 0 then (rc, s)
             else
               let (rc, s) = config_write_u32 E CFG_BMC_DEFAULT_IP4_NM
                     (bmc_default_ip4_nm (config_data s)) s
               in if rc < 0 then (rc, s) else (0, s))"

definition config_bmc_default_ip4_gw_set :: "env \<Rightarrow> bytes option \<Rightarrow> bmc \<Rightarrow> int \<times> bmc" where
  "config_bmc_default_ip4_gw_set E str s =
     (case ip4_arg E str of
        Inl rc \<Rightarrow> (rc, s)
      | Inr addr \<Rightarrow>
          let s = cfg_update (\<lambda>c. c\<lparr>bmc_default_ip4_gw := addr\<rparr>) s;
              (rc, s) = net_do_set_default_ip4_from_config E s
          in if rc \<noteq> 0 then (rc, s)
             else
               let (rc, s) = config_write_u32 E CFG_BMC_DEFAULT_IP4_GW
                     (bmc_default_ip4_gw (config_data s)) s
               in if rc < 0 then (rc, s) else (0, s))"

definition config_bmc_use_dhcp4_set :: "env \<Rightarrow> bool \<Rightarrow> bmc \<Rightarrow> int \<times> bmc" where
  "config_bmc_use_dhcp4_set E use s =
     (let same = (bmc_use_dhcp4 (config_data s) = (if use then 1 else 0)) in
      if same then (0, s)
      else
        let s = (if use
                 then snd (net_start_dhcp4 E (cfg_update (\<lambda>c. c\<lparr>bmc_use_dhcp4 := 1\<rparr>) s))
                 else snd (net_stop_dhcp4 E (cfg_update (\<lambda>c. c\<lparr>bmc_use_dhcp4 := 0\<rparr>) s)));
            (rc, s) = config_write_u8 E CFG_BMC_USE_DHCP4 (bmc_use_dhcp4 (config_data s)) s
        in if rc < 0 then (rc, s) else (0, s))"

definition config_bmc_use_ntp_set :: "env \<Rightarrow> bool \<Rightarrow> bmc \<Rightarrow> int \<times> bmc" where
  "config_bmc_use_ntp_set E use s =
     (let same = (bmc_use_ntp (config_data s) = (if use then 1 else 0)) in
      if same then (0, s)
      else
        let s = (if use
                 then snd (start_ntp E (cfg_update (\<lambda>c. c\<lparr>bmc_use_ntp := 1\<rparr>) s))
                 else snd (stop_ntp E (cfg_update (\<lambda>c. c\<lparr>bmc_use_ntp := 0\<rparr>) s)));
            (rc, s) = config_write_u8 E CFG_BMC_USE_NTP (bmc_use_ntp (config_data s)) s
        in if rc < 0 then (rc, s) else (0, s))"

definition config_bmc_ntp_server_set :: "env \<Rightarrow> bytes \<Rightarrow> bmc \<Rightarrow> int \<times> bmc" where
  "config_bmc_ntp_server_set E ntp_server s =
     (let s = cfg_update (\<lambda>c. c\<lparr>bmc_ntp_server :=
                snd (strlcpy (bmc_ntp_server c) ntp_server (Suc MAX_NTP_SERVER_LEN))\<rparr>) s;
          (rc, s) = config_write_str E CFG_BMC_NTP_SERVER (bmc_ntp_server (config_data s)) s
      in if rc < 0 then (rc, s)
         else if config_bmc_use_ntp s then
           let (rc, s) = stop_ntp E s;
               (rc, s) = start_ntp E s
           in if rc < 0 then (rc, s) else (0, s)
         else (0, s))"

definition config_bmc_password_set :: "env \<Rightarrow> bytes \<Rightarrow> bmc \<Rightarrow> int \<times> bmc" where
  "config_bmc_password_set E password s =
     (if length (c_str password) > MAX_PW_LEN then (- EINVAL, s)
      else
        let s = cfg_update (\<lambda>c. c\<lparr>bmc_admin_password :=
                  snd (strlcpy (bmc_admin_password c) password (Suc MAX_PW_LEN))\<rparr>) s;
            (rc, s) = config_write_str E CFG_BMC_ADMIN_PASSWORD
              (bmc_admin_password (config_data s)) s
        in if rc < 0 then (rc, s) else (0, s))"

definition config_host_auto_poweron_set :: "env \<Rightarrow> bool \<Rightarrow> bmc \<Rightarrow> int \<times> bmc" where
  "config_host_auto_poweron_set E on s =
     (let same = (host_auto_poweron (config_data s) = (if on then 1 else 0)) in
      if same then (0, s)
      else
        let s = cfg_update (\<lambda>c. c\<lparr>host_auto_poweron := (if on then 1 else 0)\<rparr>) s;
            (rc, s) = config_write_u8 E CFG_HOST_AUTO_POWERON
              (host_auto_poweron (config_data s)) s
        in if rc < 0 then (rc, s) else (0, s))"

section \<open>Loading at boot\<close>

text \<open>The load of one field: read it; where that fails, give it the default and write it.\<close>

definition init_str ::
  "env \<Rightarrow> config_id \<Rightarrow> (config_data \<Rightarrow> bytes) \<Rightarrow> (bytes \<Rightarrow> config_data \<Rightarrow> config_data) \<Rightarrow>
    (bmc \<Rightarrow> bytes) \<Rightarrow> bmc \<Rightarrow> bmc" where
  "init_str E i get put dflt s =
     (let (rc, var, s) = config_read_str E i (get (config_data s)) s;
          s = cfg_update (put var) s
      in if rc < 0 then
           let s = cfg_update (put (snd (strlcpy var (dflt s) (length var)))) s
           in snd (config_write_str E i (get (config_data s)) s)
         else s)"

definition init_u32 ::
  "env \<Rightarrow> config_id \<Rightarrow> (config_data \<Rightarrow> ip4) \<Rightarrow> (ip4 \<Rightarrow> config_data \<Rightarrow> config_data) \<Rightarrow>
    ip4 \<Rightarrow> bmc \<Rightarrow> bmc" where
  "init_u32 E i get put dflt s =
     (let (rc, var, s) = config_read_u32 E i (get (config_data s)) s;
          s = cfg_update (put var) s
      in if rc < 0 then
           let s = cfg_update (put dflt) s
           in snd (config_write_u32 E i (get (config_data s)) s)
         else s)"

definition init_u8 ::
  "env \<Rightarrow> config_id \<Rightarrow> (config_data \<Rightarrow> 8 word) \<Rightarrow> (8 word \<Rightarrow> config_data \<Rightarrow> config_data) \<Rightarrow>
    8 word \<Rightarrow> bmc \<Rightarrow> bmc" where
  "init_u8 E i get put dflt s =
     (let (rc, var, s) = config_read_u8 E i (get (config_data s)) s;
          s = cfg_update (put var) s
      in if rc < 0 then
           let s = cfg_update (put dflt) s
           in snd (config_write_u8 E i (get (config_data s)) s)
         else s)"

text \<open>The first part of \<open>config_init\<close>: is there a store, and does it hold a
  configuration of this version?\<close>

definition config_init_version :: "env \<Rightarrow> bmc \<Rightarrow> bmc" where
  "config_init_version E s =
     (if fs_enabled E s then
        let s = s\<lparr>config_use_fs := True\<rparr>;
            (rc, var, s) = config_read_u8 E CFG_VERSION (version (config_data s)) s;
            s = cfg_update (\<lambda>c. c\<lparr>version := var\<rparr>) s;
            (rc, s) =
              (if rc < 0 then
                 let s = cfg_update (\<lambda>c. c\<lparr>version := CFG_CURRENT_VERSION\<rparr>) s
                 in config_write_u8 E CFG_VERSION (version (config_data s)) s
               else if version (config_data s) \<noteq> CFG_CURRENT_VERSION then
                 let (rc, s) = config_clear E s in
                 if rc = 0 then
                   let s = cfg_update (\<lambda>c. c\<lparr>version := CFG_CURRENT_VERSION\<rparr>) s
                   in config_write_u8 E CFG_VERSION (version (config_data s)) s
                 else (rc, s)
               else (0, s))
        in if rc < 0 then s\<lparr>config_use_fs := False\<rparr> else s
      else s)"

definition config_init :: "env \<Rightarrow> bmc \<Rightarrow> int \<times> bmc" where
  "config_init E s =
     (let s = s\<lparr>config_data := zero_config\<rparr>;
          s = config_init_version E s;
          s = init_str E CFG_BMC_ADMIN_PASSWORD bmc_admin_password
                (\<lambda>v c. c\<lparr>bmc_admin_password := v\<rparr>) (\<lambda>s. CONFIG_DEFAULT_ADMIN_PASSWORD E) s;
          s = init_str E CFG_BMC_HOSTNAME bmc_hostname
                (\<lambda>v c. c\<lparr>bmc_hostname := v\<rparr>) (\<lambda>s. hostname_now E (trace s)) s;
          s = init_u32 E CFG_BMC_DEFAULT_IP4 bmc_default_ip4
                (\<lambda>v c. c\<lparr>bmc_default_ip4 := v\<rparr>) 0 s;
          s = init_u32 E CFG_BMC_DEFAULT_IP4_NM bmc_default_ip4_nm
                (\<lambda>v c. c\<lparr>bmc_default_ip4_nm := v\<rparr>) 0 s;
          s = init_u32 E CFG_BMC_DEFAULT_IP4_GW bmc_default_ip4_gw
                (\<lambda>v c. c\<lparr>bmc_default_ip4_gw := v\<rparr>) 0 s;
          s = init_u8 E CFG_BMC_USE_DHCP4 bmc_use_dhcp4
                (\<lambda>v c. c\<lparr>bmc_use_dhcp4 := v\<rparr>) 1 s;
          s = init_u8 E CFG_BMC_USE_NTP bmc_use_ntp (\<lambda>v c. c\<lparr>bmc_use_ntp := v\<rparr>) 1 s;
          s = init_str E CFG_BMC_NTP_SERVER bmc_ntp_server
                (\<lambda>v c. c\<lparr>bmc_ntp_server := v\<rparr>) (\<lambda>s. ''pool.ntp.org'') s;
          s = init_u8 E CFG_HOST_AUTO_POWERON host_auto_poweron
                (\<lambda>v c. c\<lparr>host_auto_poweron := v\<rparr>) 0 s
      in (0, s))"

end
