(* ===== verification/Config_Persist.thy ===== *)
theory Config_Persist
  imports Config
begin

text \<open>
  What the configuration promises (config.c over fs.c). \<open>field_bytes\<close> is the memory image
  under which a field is stored, \<open>persisted\<close> says that the store agrees with the
  configuration in RAM. The locale \<open>setter\<close> is the contract of the nine setters; every one
  of them is an interpretation. The last part follows a configuration through a reboot.
\<close>

section \<open>The stored image\<close>

fun field_bytes :: "config_id \<Rightarrow> config_data \<Rightarrow> bytes" where
  "field_bytes CFG_VERSION c = [byte_of (version c)]"
| "field_bytes CFG_BMC_ADMIN_PASSWORD c = c_str (bmc_admin_password c)"
| "field_bytes CFG_BMC_HOSTNAME c = c_str (bmc_hostname c)"
| "field_bytes CFG_BMC_DEFAULT_IP4 c = le32 (bmc_default_ip4 c)"
| "field_bytes CFG_BMC_DEFAULT_IP4_NM c = le32 (bmc_default_ip4_nm c)"
| "field_bytes CFG_BMC_DEFAULT_IP4_GW c = le32 (bmc_default_ip4_gw c)"
| "field_bytes CFG_BMC_USE_DHCP4 c = [byte_of (bmc_use_dhcp4 c)]"
| "field_bytes CFG_BMC_USE_NTP c = [byte_of (bmc_use_ntp c)]"
| "field_bytes CFG_BMC_NTP_SERVER c = c_str (bmc_ntp_server c)"
| "field_bytes CFG_HOST_AUTO_POWERON c = [byte_of (host_auto_poweron c)]"

text \<open>The update of one field changes the image of no other.\<close>

lemma other_field_put:
  "j \<noteq> CFG_BMC_ADMIN_PASSWORD \<Longrightarrow> field_bytes j (c\<lparr>bmc_admin_password := w\<rparr>) = field_bytes j c"
  "j \<noteq> CFG_BMC_HOSTNAME \<Longrightarrow> field_bytes j (c\<lparr>bmc_hostname := w\<rparr>) = field_bytes j c"
  "j \<noteq> CFG_BMC_NTP_SERVER \<Longrightarrow> field_bytes j (c\<lparr>bmc_ntp_server := w\<rparr>) = field_bytes j c"
  "j \<noteq> CFG_BMC_DEFAULT_IP4 \<Longrightarrow> field_bytes j (c\<lparr>bmc_default_ip4 := a\<rparr>) = field_bytes j c"
  "j \<noteq> CFG_BMC_DEFAULT_IP4_NM \<Longrightarrow> field_bytes j (c\<lparr>bmc_default_ip4_nm := a\<rparr>) = field_bytes j c"
  "j \<noteq> CFG_BMC_DEFAULT_IP4_GW \<Longrightarrow> field_bytes j (c\<lparr>bmc_default_ip4_gw := a\<rparr>) = field_bytes j c"
  "j \<noteq> CFG_BMC_USE_DHCP4 \<Longrightarrow> field_bytes j (c\<lparr>bmc_use_dhcp4 := v\<rparr>) = field_bytes j c"
  "j \<noteq> CFG_BMC_USE_NTP \<Longrightarrow> field_bytes j (c\<lparr>bmc_use_ntp := v\<rparr>) = field_bytes j c"
  "j \<noteq> CFG_HOST_AUTO_POWERON \<Longrightarrow> field_bytes j (c\<lparr>host_auto_poweron := v\<rparr>) = field_bytes j c"
  "j \<noteq> CFG_VERSION \<Longrightarrow> field_bytes j (c\<lparr>version := v\<rparr>) = field_bytes j c"
  by (cases j; simp)+

text \<open>NVS deletes a key that is written with no bytes, so an empty string is stored as an
  absent key.\<close>

definition nvs_entry :: "bytes \<Rightarrow> bytes option" where
  "nvs_entry b = (if b = [] then None else Some b)"

definition stored :: "env \<Rightarrow> config_id \<Rightarrow> bmc \<Rightarrow> bool" where
  "stored E i s \<longleftrightarrow> nvs_store E (trace s) (cfg_key i) = nvs_entry (field_bytes i (config_data s))"

definition all_config_ids :: "config_id list" where
  "all_config_ids = [CFG_VERSION, CFG_BMC_ADMIN_PASSWORD, CFG_BMC_HOSTNAME, CFG_BMC_DEFAULT_IP4,
     CFG_BMC_DEFAULT_IP4_NM, CFG_BMC_DEFAULT_IP4_GW, CFG_BMC_USE_DHCP4, CFG_BMC_USE_NTP,
     CFG_BMC_NTP_SERVER, CFG_HOST_AUTO_POWERON]"

definition persisted :: "env \<Rightarrow> bmc \<Rightarrow> bool" where
  "persisted E s \<longleftrightarrow> (\<forall>i \<in> set all_config_ids. stored E i s)"

lemma all_config_ids [simp]: "i \<in> set all_config_ids"
  by (cases i) (simp_all add: all_config_ids_def)

lemma persisted_iff: "persisted E s \<longleftrightarrow> (\<forall>i. stored E i s)"
  by (simp add: persisted_def Ball_def)

text \<open>The configuration is backed by a mounted store.\<close>

definition backed :: "env \<Rightarrow> bmc \<Rightarrow> bool" where
  "backed E s \<longleftrightarrow> config_use_fs s \<and> fs_enabled E s"

lemma backed_only_io: "only_io P s t \<Longrightarrow> backed E t = backed E s"
  by (auto simp: backed_def fs_enabled_def elim!: only_ioE)

section \<open>Writing a field\<close>

lemma config_write_raw_store:
  assumes "config_write_raw E i b s = (rc, s')"
  shows "j \<noteq> i \<Longrightarrow> nvs_store E (trace s') j = nvs_store E (trace s) j"
    and "backed E s \<Longrightarrow> 0 \<le> rc \<Longrightarrow> nvs_store E (trace s') i = nvs_entry b"
    and "rc < 0 \<Longrightarrow> nvs_store E (trace s') i = nvs_store E (trace s) i"
    and "\<not> backed E s \<Longrightarrow> rc = - ENODEV \<and> s' = s"
proof -
  have eq: "nvs_store E (trace s') k =
      (if k = i \<and> 0 \<le> rc then nvs_entry b else nvs_store E (trace s) k)" if "backed E s" for k
    using fs_key_write_store [of E i b s rc s' k] assms that
    by (auto simp: config_write_raw_def backed_def nvs_entry_def)
  show nb: "\<not> backed E s \<Longrightarrow> rc = - ENODEV \<and> s' = s"
    using assms by (auto simp: backed_def config_write_raw_def fs_key_write_def split: if_splits)
  show "j \<noteq> i \<Longrightarrow> nvs_store E (trace s') j = nvs_store E (trace s) j"
    and "backed E s \<Longrightarrow> 0 \<le> rc \<Longrightarrow> nvs_store E (trace s') i = nvs_entry b"
    and "rc < 0 \<Longrightarrow> nvs_store E (trace s') i = nvs_store E (trace s) i"
    using eq nb by (cases "backed E s"; simp)+
qed

lemma config_write_raw_fields:
  "config_write_raw E i b s = (rc, s') \<Longrightarrow> config_data s' = config_data s \<and>
     config_use_fs s' = config_use_fs s \<and> fs_is_enabled s' = fs_is_enabled s \<and>
     ntp_started s' = ntp_started s \<and> boot_finished s' = boot_finished s"
  using cfg.wr_io [of any_call i b s s E] by (auto dest: only_io_fields)

section \<open>The contract of a setter\<close>

text \<open>A setter for the field \<open>fld\<close>, whose new configuration is \<open>upd\<close>: it touches no other
  field and no other key; on success the field has its new value and, where the configuration
  is backed, agrees with the store if it did before or was written.\<close>

locale setter =
  fixes E :: env and run :: "bmc \<Rightarrow> int \<times> bmc" and fld :: config_id
    and upd :: "config_data \<Rightarrow> config_data"
  assumes data: "run s = (rc, s') \<Longrightarrow>
      config_data s' = upd (config_data s) \<or> rc \<noteq> 0 \<and> config_data s' = config_data s"
    and flags: "run s = (rc, s') \<Longrightarrow>
      config_use_fs s' = config_use_fs s \<and> fs_is_enabled s' = fs_is_enabled s"
    and other_field: "j \<noteq> fld \<Longrightarrow> field_bytes j (upd c) = field_bytes j c"
    and other_key: "run s = (rc, s') \<Longrightarrow> k \<noteq> cfg_key fld \<Longrightarrow>
      nvs_store E (trace s') k = nvs_store E (trace s) k"
    and saves: "run s = (0, s') \<Longrightarrow> backed E s \<Longrightarrow> stored E fld s \<Longrightarrow> stored E fld s'"
    and upd_wf: "wf_config c \<Longrightarrow> wf_config (upd c)"
begin

lemma wf: "wf_config (config_data s) \<Longrightarrow> wf_config (config_data (snd (run s)))"
  using data [of s "fst (run s)" "snd (run s)"] upd_wf by auto

lemma set_value: "run s = (0, s') \<Longrightarrow> config_data s' = upd (config_data s)"
  using data by blast

lemma other_value: "run s = (rc, s') \<Longrightarrow> j \<noteq> fld \<Longrightarrow>
    field_bytes j (config_data s') = field_bytes j (config_data s)"
  using data [of s rc s'] other_field by auto

lemma keeps_backed: "run s = (rc, s') \<Longrightarrow> backed E s' = backed E s"
  using flags [of s rc s'] by (simp add: backed_def fs_enabled_def)

lemma other_stored: "run s = (rc, s') \<Longrightarrow> j \<noteq> fld \<Longrightarrow> stored E j s' = stored E j s"
  using other_value other_key [of s rc s' "cfg_key j"] by (simp add: stored_def)

lemma keeps_persisted: "run s = (0, s') \<Longrightarrow> backed E s \<Longrightarrow> persisted E s \<Longrightarrow> persisted E s'"
  using saves other_stored unfolding persisted_iff by metis

end

section \<open>The setters meet the contract\<close>

text \<open>Steps that change neither the configuration nor the store.\<close>

definition quiet :: "env \<Rightarrow> bmc \<Rightarrow> bmc \<Rightarrow> bool" where
  "quiet E s t \<longleftrightarrow> config_data t = config_data s \<and> config_use_fs t = config_use_fs s \<and>
     fs_is_enabled t = fs_is_enabled s \<and>
     (\<forall>k. nvs_store E (trace t) k = nvs_store E (trace s) k)"

lemma quiet_only_io: "only_io no_nvs s t \<Longrightarrow> quiet E s t"
  by (simp add: quiet_def only_io_fields nvs_store_no_nvs)

lemma quiet_refl [simp]: "quiet E s s"
  by (simp add: quiet_def)

lemma quiet_trans [trans]: "quiet E s t \<Longrightarrow> quiet E t u \<Longrightarrow> quiet E s u"
  by (simp add: quiet_def)

lemma quiet_ntp:
  "quiet E s (snd (start_ntp E s))" "quiet E s (snd (stop_ntp E s))"
  by (auto simp: quiet_def start_ntp_def stop_ntp_def schedule_ntp_def ext_ignore_eq Let_def)

lemma quiet_backed: "quiet E s t \<Longrightarrow> backed E t = backed E s"
  by (simp add: quiet_def backed_def fs_enabled_def)

lemma quiet_stored: "quiet E s t \<Longrightarrow> stored E i t = stored E i s"
  by (simp add: quiet_def stored_def)

text \<open>The clauses of the contract for one run.\<close>

definition set_ok ::
  "env \<Rightarrow> config_id \<Rightarrow> (config_data \<Rightarrow> config_data) \<Rightarrow> bmc \<Rightarrow> int \<times> bmc \<Rightarrow> bool" where
  "set_ok E fld upd s r \<longleftrightarrow> (case r of (rc, s') \<Rightarrow>
     (config_data s' = upd (config_data s) \<or> rc \<noteq> 0 \<and> config_data s' = config_data s) \<and>
     config_use_fs s' = config_use_fs s \<and> fs_is_enabled s' = fs_is_enabled s \<and>
     (\<forall>k. k \<noteq> cfg_key fld \<longrightarrow> nvs_store E (trace s') k = nvs_store E (trace s) k) \<and>
     (rc = 0 \<longrightarrow> backed E s \<longrightarrow> stored E fld s \<longrightarrow> stored E fld s'))"

lemma set_ok_same: "upd (config_data s) = config_data s \<Longrightarrow> set_ok E fld upd s (0, s)"
  by (simp add: set_ok_def)

lemma set_ok_fail: "rc \<noteq> 0 \<Longrightarrow> quiet E s t \<Longrightarrow> set_ok E fld upd s (rc, t)"
  by (simp add: set_ok_def quiet_def)

lemma set_ok_apply_fail: "rc \<noteq> 0 \<Longrightarrow> quiet E (cfg_update upd s) t \<Longrightarrow> set_ok E fld upd s (rc, t)"
  by (simp add: set_ok_def quiet_def)

lemma set_ok_write:
  assumes q: "quiet E (cfg_update upd s) t"
    and b: "b = field_bytes fld (upd (config_data s))"
  shows "set_ok E fld upd s
    (let (rc, t) = config_write_raw E (cfg_key fld) b t in if rc < 0 then (rc, t) else (0, t))"
proof -
  obtain rc u where w: "config_write_raw E (cfg_key fld) b t = (rc, u)"
    by fastforce
  note store = config_write_raw_store [OF w]
  have "backed E t = backed E s"
    using q by (simp add: quiet_def backed_def fs_enabled_def)
  then show ?thesis
    using q b store(1,2) config_write_raw_fields [OF w] w
    by (auto simp: set_ok_def quiet_def stored_def)
qed

lemma set_ok_after: "set_ok E fld upd s (0, t) \<Longrightarrow> quiet E t u \<Longrightarrow> set_ok E fld upd s (rc, u)"
  by (auto simp: set_ok_def quiet_def stored_def)

lemma setterI:
  assumes "\<And>s. set_ok E fld upd s (run s)"
    and "\<And>j c. j \<noteq> fld \<Longrightarrow> field_bytes j (upd c) = field_bytes j c"
    and "\<And>c. wf_config c \<Longrightarrow> wf_config (upd c)"
  shows "setter E run fld upd"
proof unfold_locales
  fix s rc s'
  assume "run s = (rc, s')"
  with assms(1) [of s] have ok: "set_ok E fld upd s (rc, s')"
    by simp
  then show "config_data s' = upd (config_data s) \<or> rc \<noteq> 0 \<and> config_data s' = config_data s"
    and "config_use_fs s' = config_use_fs s \<and> fs_is_enabled s' = fs_is_enabled s"
    by (auto simp: set_ok_def)
  show "nvs_store E (trace s') k = nvs_store E (trace s) k" if "k \<noteq> cfg_key fld" for k
    using ok that by (auto simp: set_ok_def)
next
  fix s s'
  assume "run s = (0, s')" and "backed E s" and "stored E fld s"
  then show "stored E fld s'"
    using assms(1) [of s] by (simp add: set_ok_def)
qed (use assms in auto)

text \<open>The new configuration of each setter.\<close>

definition with_hostname :: "bytes \<Rightarrow> config_data \<Rightarrow> config_data" where
  "with_hostname h c =
     c\<lparr>bmc_hostname := snd (strlcpy (bmc_hostname c) h (Suc MAX_HOSTNAME_LEN))\<rparr>"

definition with_password :: "bytes \<Rightarrow> config_data \<Rightarrow> config_data" where
  "with_password p c =
     c\<lparr>bmc_admin_password := snd (strlcpy (bmc_admin_password c) p (Suc MAX_PW_LEN))\<rparr>"

definition with_ntp_server :: "bytes \<Rightarrow> config_data \<Rightarrow> config_data" where
  "with_ntp_server n c =
     c\<lparr>bmc_ntp_server := snd (strlcpy (bmc_ntp_server c) n (Suc MAX_NTP_SERVER_LEN))\<rparr>"

definition with_ip4 :: "(ip4 \<Rightarrow> config_data \<Rightarrow> config_data) \<Rightarrow> env \<Rightarrow> bytes option \<Rightarrow>
    config_data \<Rightarrow> config_data" where
  "with_ip4 put E str c = (case ip4_arg E str of Inl rc \<Rightarrow> c | Inr addr \<Rightarrow> put addr c)"

lemmas with_defs = with_hostname_def with_password_def with_ntp_server_def with_ip4_def

lemma with_wf:
  "wf_config c \<Longrightarrow> wf_config (with_hostname h c)"
  "wf_config c \<Longrightarrow> wf_config (with_password p c)"
  "wf_config c \<Longrightarrow> wf_config (with_ntp_server n c)"
  by (simp_all add: wf_config_def with_defs)

text \<open>A run that does nothing else changes only the part of the field it is about.\<close>

lemma other_field_with:
  "j \<noteq> CFG_BMC_HOSTNAME \<Longrightarrow> field_bytes j (with_hostname h c) = field_bytes j c"
  "j \<noteq> CFG_BMC_ADMIN_PASSWORD \<Longrightarrow> field_bytes j (with_password p c) = field_bytes j c"
  "j \<noteq> CFG_BMC_NTP_SERVER \<Longrightarrow> field_bytes j (with_ntp_server n c) = field_bytes j c"
  by (simp_all add: with_defs other_field_put)

lemma ip4_arg_error: "ip4_arg E str = Inl rc \<Longrightarrow> rc \<noteq> 0"
  by (auto simp: ip4_arg_def ip4_stoa_def split: option.splits)

text \<open>The last step of every setter: write the field, return 0 unless that fails.\<close>

abbreviation write_field :: "env \<Rightarrow> config_id \<Rightarrow> config_data \<Rightarrow> bmc \<Rightarrow> int \<times> bmc" where
  "write_field E fld c t \<equiv>
     (let (rc, t) = config_write_raw E (cfg_key fld) (field_bytes fld c) t
      in if rc < 0 then (rc, t) else (0, t))"

lemma hostname_set_ok:
  "set_ok E CFG_BMC_HOSTNAME (with_hostname h) s (config_bmc_hostname_set E h s)"
proof -
  obtain rc t where net: "net_do_set_hostname E h s = (rc, t)"
    by fastforce
  have q: "quiet E s t"
    using quiet_only_io [OF set_hostname.only_io, of E s] net by (metis snd_conv)
  have w: "set_ok E CFG_BMC_HOSTNAME (with_hostname h) s
      (write_field E CFG_BMC_HOSTNAME (with_hostname h (config_data s))
        (cfg_update (with_hostname h) t))"
    by (rule set_ok_write) (use q in \<open>simp_all add: quiet_def\<close>)
  then show ?thesis
    using q net by (cases "rc = 0")
      (auto simp: config_bmc_hostname_set_def config_write_str_def quiet_def with_hostname_def
        intro: set_ok_fail)
qed

lemma password_set_ok:
  "set_ok E CFG_BMC_ADMIN_PASSWORD (with_password p) s (config_bmc_password_set E p s)"
proof -
  have "set_ok E CFG_BMC_ADMIN_PASSWORD (with_password p) s
      (write_field E CFG_BMC_ADMIN_PASSWORD (with_password p (config_data s))
        (cfg_update (with_password p) s))"
    by (rule set_ok_write) simp_all
  then show ?thesis
    by (auto simp: config_bmc_password_set_def config_write_str_def with_password_def
        intro: set_ok_fail)
qed

lemma ntp_server_set_ok:
  "set_ok E CFG_BMC_NTP_SERVER (with_ntp_server n) s (config_bmc_ntp_server_set E n s)"
proof -
  obtain rc t where w: "write_field E CFG_BMC_NTP_SERVER (with_ntp_server n (config_data s))
      (cfg_update (with_ntp_server n) s) = (rc, t)"
    by fastforce
  have ok: "set_ok E CFG_BMC_NTP_SERVER (with_ntp_server n) s (rc, t)"
    unfolding w [symmetric] by (rule set_ok_write) simp_all
  have after: "quiet E t (snd (start_ntp E (snd (stop_ntp E t))))"
    by (rule quiet_trans [OF quiet_ntp(2) quiet_ntp(1)])
  show ?thesis
    using w ok set_ok_after [OF _ after, of CFG_BMC_NTP_SERVER "with_ntp_server n" s]
    by (auto simp: config_bmc_ntp_server_set_def config_write_str_def with_ntp_server_def Let_def
        split: prod.splits if_splits)
qed

lemma dhcp4_set_ok:
  "set_ok E CFG_BMC_USE_DHCP4 (\<lambda>c. c\<lparr>bmc_use_dhcp4 := if use then 1 else 0\<rparr>) s
     (config_bmc_use_dhcp4_set E use s)"
proof -
  let ?upd = "\<lambda>c. c\<lparr>bmc_use_dhcp4 := if use then 1 else 0\<rparr>"
  let ?t = "if use then snd (net_start_dhcp4 E (cfg_update ?upd s))
    else snd (net_stop_dhcp4 E (cfg_update ?upd s))"
  have "quiet E (cfg_update ?upd s) ?t"
    by (auto intro: quiet_only_io start_dhcp.only_io stop_dhcp.only_io)
  from set_ok_write [of E ?upd s ?t, OF this refl, of CFG_BMC_USE_DHCP4] this show ?thesis
    by (cases use) (auto simp: config_bmc_use_dhcp4_set_def config_write_u8_def quiet_def
        intro!: set_ok_same)
qed

lemma ntp_set_ok:
  "set_ok E CFG_BMC_USE_NTP (\<lambda>c. c\<lparr>bmc_use_ntp := if use then 1 else 0\<rparr>) s
     (config_bmc_use_ntp_set E use s)"
proof -
  let ?upd = "\<lambda>c. c\<lparr>bmc_use_ntp := if use then 1 else 0\<rparr>"
  let ?t = "if use then snd (start_ntp E (cfg_update ?upd s))
    else snd (stop_ntp E (cfg_update ?upd s))"
  have "quiet E (cfg_update ?upd s) ?t"
    using quiet_ntp by simp
  from set_ok_write [of E ?upd s ?t, OF this refl, of CFG_BMC_USE_NTP] this show ?thesis
    by (cases use) (auto simp: config_bmc_use_ntp_set_def config_write_u8_def quiet_def
        intro!: set_ok_same)
qed

lemma auto_poweron_set_ok:
  "set_ok E CFG_HOST_AUTO_POWERON (\<lambda>c. c\<lparr>host_auto_poweron := if on then 1 else 0\<rparr>) s
     (config_host_auto_poweron_set E on s)"
proof -
  let ?upd = "\<lambda>c. c\<lparr>host_auto_poweron := if on then 1 else 0\<rparr>"
  from set_ok_write [of E ?upd s "cfg_update ?upd s", OF quiet_refl refl, of CFG_HOST_AUTO_POWERON]
  show ?thesis
    by (cases on) (auto simp: config_host_auto_poweron_set_def config_write_u8_def
        intro!: set_ok_same)
qed

text \<open>The three address setters have one form.\<close>

definition ip4_setter ::
  "env \<Rightarrow> config_id \<Rightarrow> (ip4 \<Rightarrow> config_data \<Rightarrow> config_data) \<Rightarrow> bytes option \<Rightarrow> bmc \<Rightarrow> int \<times> bmc" where
  "ip4_setter E fld put str s =
     (case ip4_arg E str of
        Inl rc \<Rightarrow> (rc, s)
      | Inr addr \<Rightarrow>
          let (rc, t) = net_do_set_default_ip4_from_config E (cfg_update (put addr) s)
          in if rc \<noteq> 0 then (rc, t) else write_field E fld (config_data t) t)"

lemma ip4_setter_eq:
  "config_bmc_default_ip4_set E =
     ip4_setter E CFG_BMC_DEFAULT_IP4 (\<lambda>a c. c\<lparr>bmc_default_ip4 := a\<rparr>)"
  "config_bmc_default_ip4_nm_set E =
     ip4_setter E CFG_BMC_DEFAULT_IP4_NM (\<lambda>a c. c\<lparr>bmc_default_ip4_nm := a\<rparr>)"
  "config_bmc_default_ip4_gw_set E =
     ip4_setter E CFG_BMC_DEFAULT_IP4_GW (\<lambda>a c. c\<lparr>bmc_default_ip4_gw := a\<rparr>)"
  by (auto simp: fun_eq_iff ip4_setter_def config_bmc_default_ip4_set_def
      config_bmc_default_ip4_nm_set_def config_bmc_default_ip4_gw_set_def config_write_u32_def
      split: sum.split prod.split)

lemma ip4_setter_ok: "set_ok E fld (with_ip4 put E str) s (ip4_setter E fld put str s)"
proof (cases "ip4_arg E str")
  case (Inl rc)
  then show ?thesis
    using ip4_arg_error [OF Inl] by (auto simp: ip4_setter_def intro: set_ok_fail)
next
  case (Inr a)
  let ?upd = "with_ip4 put E str"
  obtain rc t where net: "net_do_set_default_ip4_from_config E (cfg_update ?upd s) = (rc, t)"
    by fastforce
  have q: "quiet E (cfg_update ?upd s) t"
    using quiet_only_io [OF set_default_ip4.only_io, of E "cfg_update ?upd s"] net
    by (metis snd_conv)
  have "set_ok E fld ?upd s (write_field E fld (config_data t) t)"
    by (rule set_ok_write) (use q in \<open>simp_all add: quiet_def\<close>)
  then show ?thesis
    using q net Inr by (auto simp: ip4_setter_def with_ip4_def intro: set_ok_apply_fail)
qed

interpretation hostname: setter E "config_bmc_hostname_set E h" CFG_BMC_HOSTNAME "with_hostname h"
  for E h
  by (rule setterI) (simp_all add: hostname_set_ok with_wf other_field_with)

interpretation password: setter E "config_bmc_password_set E p" CFG_BMC_ADMIN_PASSWORD
    "with_password p" for E p
  by (rule setterI) (simp_all add: password_set_ok with_wf other_field_with)

interpretation ntp_server: setter E "config_bmc_ntp_server_set E n" CFG_BMC_NTP_SERVER
    "with_ntp_server n" for E n
  by (rule setterI) (simp_all add: ntp_server_set_ok with_wf other_field_with)

lemma wf_config_flags:
  "wf_config (c\<lparr>bmc_use_dhcp4 := v\<rparr>) = wf_config c"
  "wf_config (c\<lparr>bmc_use_ntp := v\<rparr>) = wf_config c"
  "wf_config (c\<lparr>host_auto_poweron := v\<rparr>) = wf_config c"
  by (simp_all add: wf_config_def)

interpretation dhcp4: setter E "config_bmc_use_dhcp4_set E use" CFG_BMC_USE_DHCP4
    "\<lambda>c. c\<lparr>bmc_use_dhcp4 := if use then 1 else 0\<rparr>" for E use
  by (rule setterI, rule dhcp4_set_ok, rule other_field_put, assumption,
      simp add: wf_config_flags)

interpretation ntp: setter E "config_bmc_use_ntp_set E use" CFG_BMC_USE_NTP
    "\<lambda>c. c\<lparr>bmc_use_ntp := if use then 1 else 0\<rparr>" for E use
  by (rule setterI, rule ntp_set_ok, rule other_field_put, assumption,
      simp add: wf_config_flags)

interpretation auto_poweron: setter E "config_host_auto_poweron_set E on" CFG_HOST_AUTO_POWERON
    "\<lambda>c. c\<lparr>host_auto_poweron := if on then 1 else 0\<rparr>" for E on
  by (rule setterI, rule auto_poweron_set_ok, rule other_field_put, assumption,
      simp add: wf_config_flags)

lemma with_ip4_frame:
  "j \<noteq> CFG_BMC_DEFAULT_IP4 \<Longrightarrow>
     field_bytes j (with_ip4 (\<lambda>a c. c\<lparr>bmc_default_ip4 := a\<rparr>) E str c) = field_bytes j c"
  "j \<noteq> CFG_BMC_DEFAULT_IP4_NM \<Longrightarrow>
     field_bytes j (with_ip4 (\<lambda>a c. c\<lparr>bmc_default_ip4_nm := a\<rparr>) E str c) = field_bytes j c"
  "j \<noteq> CFG_BMC_DEFAULT_IP4_GW \<Longrightarrow>
     field_bytes j (with_ip4 (\<lambda>a c. c\<lparr>bmc_default_ip4_gw := a\<rparr>) E str c) = field_bytes j c"
  by (simp_all add: with_ip4_def other_field_put split: sum.split)

lemma with_ip4_wf:
  "(\<And>a. wf_config (put a c) = wf_config c) \<Longrightarrow> wf_config c \<Longrightarrow> wf_config (with_ip4 put E str c)"
  by (simp add: with_ip4_def split: sum.split)

lemma wf_config_ip4:
  "wf_config (c\<lparr>bmc_default_ip4 := a\<rparr>) = wf_config c"
  "wf_config (c\<lparr>bmc_default_ip4_nm := a\<rparr>) = wf_config c"
  "wf_config (c\<lparr>bmc_default_ip4_gw := a\<rparr>) = wf_config c"
  by (simp_all add: wf_config_def)

interpretation ip4: setter E "config_bmc_default_ip4_set E str" CFG_BMC_DEFAULT_IP4
    "with_ip4 (\<lambda>a c. c\<lparr>bmc_default_ip4 := a\<rparr>) E str" for E str
  unfolding ip4_setter_eq
  by (rule setterI, rule ip4_setter_ok, rule with_ip4_frame, assumption,
      rule with_ip4_wf, rule wf_config_ip4)

interpretation ip4_nm: setter E "config_bmc_default_ip4_nm_set E str" CFG_BMC_DEFAULT_IP4_NM
    "with_ip4 (\<lambda>a c. c\<lparr>bmc_default_ip4_nm := a\<rparr>) E str" for E str
  unfolding ip4_setter_eq
  by (rule setterI, rule ip4_setter_ok, rule with_ip4_frame, assumption,
      rule with_ip4_wf, rule wf_config_ip4)

interpretation ip4_gw: setter E "config_bmc_default_ip4_gw_set E str" CFG_BMC_DEFAULT_IP4_GW
    "with_ip4 (\<lambda>a c. c\<lparr>bmc_default_ip4_gw := a\<rparr>) E str" for E str
  unfolding ip4_setter_eq
  by (rule setterI, rule ip4_setter_ok, rule with_ip4_frame, assumption,
      rule with_ip4_wf, rule wf_config_ip4)

end
