(* ===== verification/Config_Boot.thy ===== *)
theory Config_Boot
  imports Config_Persist
begin

text \<open>
  Loading the configuration at boot (config_init in config.c). Whatever the store answers,
  the result is well formed; what the store holds in the right form is loaded unchanged; what
  it lacks gets its default, which is written back. The locales state what a field of each
  type is, and the ten fields are their interpretations.
\<close>

section \<open>Entries a field can be loaded from\<close>

fun entry_ok :: "config_id \<Rightarrow> bytes \<Rightarrow> bool" where
  "entry_ok CFG_BMC_ADMIN_PASSWORD b = (is_c_string b \<and> length b \<le> MAX_PW_LEN)"
| "entry_ok CFG_BMC_HOSTNAME b = (is_c_string b \<and> length b \<le> MAX_HOSTNAME_LEN)"
| "entry_ok CFG_BMC_NTP_SERVER b = (is_c_string b \<and> length b \<le> MAX_NTP_SERVER_LEN)"
| "entry_ok CFG_BMC_DEFAULT_IP4 b = (length b = 4)"
| "entry_ok CFG_BMC_DEFAULT_IP4_NM b = (length b = 4)"
| "entry_ok CFG_BMC_DEFAULT_IP4_GW b = (length b = 4)"
| "entry_ok _ b = (length b = 1)"

lemma entry_ok_field: "wf_config c \<Longrightarrow> entry_ok i (field_bytes i c)"
  by (cases i) (auto simp: wf_config_def length_c_str_wf)

lemma retry_call_ok: "0 \<le> zret E (trace s) c \<Longrightarrow> retry_call E c k s =
    (zret E (trace s) c, s\<lparr>trace := c # trace s\<rparr>)"
  by (subst retry_call.simps) (auto simp: ext_def)

lemma config_write_raw_writable:
  assumes "nvs_writable E" and "backed E s"
  shows "0 \<le> fst (config_write_raw E i b s)"
proof -
  have "0 \<le> zret E (trace s) (Nvs (NvsWrite i b))"
    using assms(1) by (simp add: nvs_writable_def)
  then show ?thesis
    using assms(2) by (auto simp: config_write_raw_def backed_def fs_key_write_def
        fs_write_again_retry retry_call_ok)
qed

section \<open>What loading one field does\<close>

text \<open>\<open>dflt\<close> gives the image of the default, in the state in which it is asked for.\<close>

definition load_ok :: "env \<Rightarrow> config_id \<Rightarrow> (bmc \<Rightarrow> bytes) \<Rightarrow> bmc \<Rightarrow> bmc \<Rightarrow> bool" where
  "load_ok E i dflt s t \<longleftrightarrow>
     config_use_fs t = config_use_fs s \<and> fs_is_enabled t = fs_is_enabled s \<and>
     wf_config (config_data t) \<and>
     (\<forall>j. j \<noteq> i \<longrightarrow> field_bytes j (config_data t) = field_bytes j (config_data s) \<and>
        nvs_store E (trace t) (cfg_key j) = nvs_store E (trace s) (cfg_key j)) \<and>
     (\<not> backed E s \<longrightarrow> (\<exists>u. field_bytes i (config_data t) = dflt u)) \<and>
     (backed E s \<longrightarrow> nvs_documented E \<longrightarrow>
        (case nvs_store E (trace s) (cfg_key i) of
           None \<Rightarrow> (\<exists>u. field_bytes i (config_data t) = dflt u) \<and> (nvs_writable E \<longrightarrow> stored E i t)
         | Some b \<Rightarrow> entry_ok i b \<longrightarrow> field_bytes i (config_data t) = b \<and>
             nvs_store E (trace t) (cfg_key i) = Some b))"

text \<open>A read of a field, seen from the client.\<close>

lemma config_read_raw_cases:
  assumes "config_read_raw E i n s = (rc, buf, s')"
  shows "length buf \<le> n" and "rc \<le> int n"
    and "quiet E s s'"
    and "\<not> backed E s \<Longrightarrow> rc < 0"
    and "backed E s \<Longrightarrow> nvs_documented E \<Longrightarrow> nvs_store E (trace s) i = None \<Longrightarrow> rc < 0"
    and "backed E s \<Longrightarrow> nvs_documented E \<Longrightarrow> nvs_store E (trace s) i = Some b \<Longrightarrow>
      length b \<le> n \<Longrightarrow> rc = int (length b) \<and> buf = b"
proof -
  show "length buf \<le> n" and "rc \<le> int n"
    using cfg.rd_size [OF assms] by simp_all
  have "only_io any_call s s'"
    using cfg.rd_io [of any_call i n s s E] assms by simp
  then show "quiet E s s'"
    using assms fs_key_read_only_read [of E i n s rc buf s']
    by (auto simp: quiet_def config_read_raw_def dest: only_io_fields split: if_splits)
  show "\<not> backed E s \<Longrightarrow> rc < 0"
    using assms by (auto simp: config_read_raw_def backed_def fs_key_read_def split: if_splits)
  show "backed E s \<Longrightarrow> nvs_documented E \<Longrightarrow> nvs_store E (trace s) i = None \<Longrightarrow> rc < 0"
    and "backed E s \<Longrightarrow> nvs_documented E \<Longrightarrow> nvs_store E (trace s) i = Some b \<Longrightarrow>
      length b \<le> n \<Longrightarrow> rc = int (length b) \<and> buf = b"
    using assms by (auto simp: config_read_raw_def backed_def fs_key_read_stored split: if_splits)
qed

section \<open>Fields\<close>

locale field =
  fixes i :: config_id and get :: "config_data \<Rightarrow> 'v"
    and put :: "'v \<Rightarrow> config_data \<Rightarrow> config_data" and image :: "'v \<Rightarrow> bytes"
  assumes get_put [simp]: "get (put v c) = v"
    and put_put [simp]: "put v (put w c) = put v c"
    and image: "field_bytes i c = image (get c)"
    and other: "j \<noteq> i \<Longrightarrow> field_bytes j (put v c) = field_bytes j c"
begin

lemma load_default:
  assumes q: "quiet E s s1" and wf: "wf_config (put v (config_data s))"
    and d: "image v = dflt u"
    and absent: "\<And>b. backed E s \<Longrightarrow> nvs_documented E \<Longrightarrow>
      nvs_store E (trace s) (cfg_key i) = Some b \<Longrightarrow> \<not> entry_ok i b"
  shows "load_ok E i dflt s
    (snd (config_write_raw E (cfg_key i) (image v) (cfg_update (put v) s1)))"
proof -
  obtain rc t where w: "config_write_raw E (cfg_key i) (image v) (cfg_update (put v) s1) = (rc, t)"
    by fastforce
  note f = config_write_raw_fields [OF w]
  have b: "backed E (cfg_update (put v) s1) = backed E s"
    using q by (simp add: quiet_def backed_def fs_enabled_def)
  have st: "stored E i t" if "nvs_writable E" and "backed E s"
    using config_write_raw_store(2) [OF w] config_write_raw_writable [OF that(1), of
        "cfg_update (put v) s1" "cfg_key i" "image v"] that b w f
    by (simp add: stored_def image)
  have fld: "\<exists>u. field_bytes i (config_data t) = dflt u"
    using f d by (auto simp: image)
  have "config_data s1 = config_data s"
    using q by (simp add: quiet_def)
  then show ?thesis
    unfolding w load_ok_def snd_conv
    using q f wf st fld absent config_write_raw_store(1) [OF w] other
    by (auto simp: quiet_def split: option.split)
qed

lemma load_read:
  assumes q: "quiet E s s1" and wf: "wf_config (put v (config_data s))" and b: "backed E s"
    and present: "nvs_documented E \<Longrightarrow>
      \<exists>b. nvs_store E (trace s) (cfg_key i) = Some b \<and> (entry_ok i b \<longrightarrow> image v = b)"
  shows "load_ok E i dflt s (cfg_update (put v) s1)"
proof -
  have "config_data s1 = config_data s"
    using q by (simp add: quiet_def)
  then show ?thesis
    using assms other by (auto simp: load_ok_def quiet_def image)
qed

end

locale str_field = field i get put c_str
  for i :: config_id and get :: "config_data \<Rightarrow> bytes" and put +
  fixes n :: nat
  assumes wf_get: "wf_config c \<Longrightarrow> wf_cstr n (get c)"
    and wf_put: "wf_config c \<Longrightarrow> wf_cstr n v \<Longrightarrow> wf_config (put v c)"
    and entry: "entry_ok i b \<longleftrightarrow> is_c_string b \<and> length b \<le> n"
begin

text \<open>A read that succeeds found an entry, and leaves the entry's text if it is one.\<close>

lemma read_str_entry:
  assumes "config_read_raw E (cfg_key i) n s = (rc, buf, s1)" and "\<not> rc < 0" and "nvs_documented E"
    and "length var = Suc n"
  shows "\<exists>b. nvs_store E (trace s) (cfg_key i) = Some b \<and>
    (entry_ok i b \<longrightarrow> c_str ((memcpy_into var buf)[nat rc := NUL]) = b)"
proof -
  note read = config_read_raw_cases [OF assms(1)]
  obtain b where b: "nvs_store E (trace s) (cfg_key i) = Some b"
    using read(4,5) assms(2,3) by (cases "nvs_store E (trace s) (cfg_key i)") auto
  have "c_str ((memcpy_into var buf)[nat rc := NUL]) = b" if "entry_ok i b"
  proof -
    have ok: "is_c_string b" "length b \<le> n"
      using that by (simp_all add: entry)
    with read(4) read(6) [OF _ assms(3) b] assms(2) have "rc = int (length b)" "buf = b"
      by auto
    then show ?thesis
      using ok assms(4) by (simp add: c_str_terminate memcpy_into_fits c_str_c_string)
  qed
  with b show ?thesis by simp
qed

lemma init_str_load:
  assumes wf: "wf_config (config_data s)"
  shows "load_ok E i (\<lambda>u. take n (c_str (d u))) s (init_str E i get put d s)"
proof -
  let ?var = "get (config_data s)"
  obtain rc var s1 where r: "config_read_str E i ?var s = (rc, var, s1)"
    by (metis prod_cases3)
  have wfv: "wf_cstr n ?var"
    by (rule wf_get [OF wf])
  from r obtain buf where raw: "config_read_raw E (cfg_key i) n s = (rc, buf, s1)"
    and var: "var = (if rc \<ge> 0 then (memcpy_into ?var buf)[nat rc := NUL] else memcpy_into ?var buf)"
    using wfv unfolding config_read_str_def by (auto simp: wf_cstr_def elim!: cfg.read_str_withE)
  note read = config_read_raw_cases [OF raw]
  have len: "length var = Suc n" and wf_ok: "0 \<le> rc \<Longrightarrow> wf_cstr n var"
    using cfg.read_str_wf [of E "cfg_key i" ?var s rc var s1 n] r wfv
    by (auto simp: config_read_str_def)
  show ?thesis
  proof (cases "rc < 0")
    case True
    have absent: "\<not> entry_ok i b" if "backed E s" "nvs_documented E"
      "nvs_store E (trace s) (cfg_key i) = Some b" for b
      using read(6) [OF that] True by (auto simp: entry)
    let ?v = "snd (strlcpy var (d (cfg_update (put var) s1)) (Suc n))"
    have "load_ok E i (\<lambda>u. take n (c_str (d u))) s
        (snd (config_write_raw E (cfg_key i) (c_str ?v) (cfg_update (put ?v) s1)))"
      by (rule load_default [OF read(3) wf_put [OF wf] _ absent])
        (simp_all add: strlcpy_c_str strlcpy_wf len)
    then show ?thesis
      using True by (simp add: init_str_def r len config_write_str_def Let_def)
  next
    case False
    then show ?thesis
      using load_read [OF read(3) wf_put [OF wf wf_ok], of "\<lambda>u. take n (c_str (d u))"] read(4)
        read_str_entry [OF raw False] var wfv
      by (auto simp: init_str_def r wf_cstr_def)
  qed
qed

end

locale u32_field = field i get put le32
  for i :: config_id and get :: "config_data \<Rightarrow> ip4" and put +
  assumes wf_put: "wf_config (put v c) = wf_config c"
    and entry: "entry_ok i b \<longleftrightarrow> length b = 4"
begin

lemma init_u32_load:
  assumes wf: "wf_config (config_data s)"
  shows "load_ok E i (\<lambda>u. le32 d) s (init_u32 E i get put d s)"
proof -
  obtain rc buf s1 where raw: "config_read_raw E (cfg_key i) 4 s = (rc, buf, s1)"
    by (metis prod_cases3)
  note read = config_read_raw_cases [OF raw]
  let ?v = "load_u32 (get (config_data s)) buf"
  show ?thesis
  proof (cases "rc < 0")
    case True
    have absent: "\<not> entry_ok i b" if "backed E s" "nvs_documented E"
      "nvs_store E (trace s) (cfg_key i) = Some b" for b
      using read(6) [OF that] True by (auto simp: entry)
    have "load_ok E i (\<lambda>u. le32 d) s
        (snd (config_write_raw E (cfg_key i) (le32 d) (cfg_update (put d) s1)))"
      by (rule load_default [OF read(3) _ _ absent]) (simp_all add: wf_put wf)
    then show ?thesis
      using True by (simp add: init_u32_def config_read_u32_def raw config_write_u32_def Let_def)
  next
    case False
    have present: "\<exists>b. nvs_store E (trace s) (cfg_key i) = Some b \<and> (entry_ok i b \<longrightarrow> le32 ?v = b)"
      if doc: "nvs_documented E"
    proof -
      obtain b where b: "nvs_store E (trace s) (cfg_key i) = Some b"
        using read(4,5) False doc by (cases "nvs_store E (trace s) (cfg_key i)") auto
      have "le32 ?v = b" if "length b = 4"
      proof -
        have "buf = b"
          using read(4) read(6) [OF _ doc b] False that by auto
        then show ?thesis
          using that by (simp add: load_u32_def memcpy_into_all le32_of_le32)
      qed
      with b show ?thesis by (simp add: entry)
    qed
    then show ?thesis
      using False load_read [OF read(3), of ?v "\<lambda>u. le32 d"] read(4) wf wf_put
      by (auto simp: init_u32_def config_read_u32_def raw)
  qed
qed

end

locale u8_field = field i get put "\<lambda>v. [byte_of v]"
  for i :: config_id and get :: "config_data \<Rightarrow> 8 word" and put +
  assumes wf_put: "wf_config (put v c) = wf_config c"
    and entry: "entry_ok i b \<longleftrightarrow> length b = 1"
begin

lemma init_u8_load:
  assumes wf: "wf_config (config_data s)"
  shows "load_ok E i (\<lambda>u. [byte_of d]) s (init_u8 E i get put d s)"
proof -
  obtain rc buf s1 where raw: "config_read_raw E (cfg_key i) 1 s = (rc, buf, s1)"
    by (metis prod_cases3)
  note read = config_read_raw_cases [OF raw]
  let ?v = "load_u8 (get (config_data s)) buf"
  show ?thesis
  proof (cases "rc < 0")
    case True
    have absent: "\<not> entry_ok i b" if "backed E s" "nvs_documented E"
      "nvs_store E (trace s) (cfg_key i) = Some b" for b
      using read(6) [OF that] True by (auto simp: entry)
    have "load_ok E i (\<lambda>u. [byte_of d]) s
        (snd (config_write_raw E (cfg_key i) [byte_of d] (cfg_update (put d) s1)))"
      by (rule load_default [OF read(3) _ _ absent]) (simp_all add: wf_put wf)
    then show ?thesis
      using True by (simp add: init_u8_def config_read_u8_def raw [unfolded One_nat_def] config_write_u8_def Let_def)
  next
    case False
    have present: "\<exists>b. nvs_store E (trace s) (cfg_key i) = Some b \<and>
        (entry_ok i b \<longrightarrow> [byte_of ?v] = b)" if doc: "nvs_documented E"
    proof -
      obtain b where b: "nvs_store E (trace s) (cfg_key i) = Some b"
        using read(4,5) False doc by (cases "nvs_store E (trace s) (cfg_key i)") auto
      have "[byte_of ?v] = b" if "length b = 1"
      proof -
        have "buf = b"
          using read(4) read(6) [OF _ doc b] False that by auto
        then show ?thesis
          using that by (auto simp: load_u8_def memcpy_into_all length_Suc_conv)
      qed
      with b show ?thesis by (simp add: entry)
    qed
    then show ?thesis
      using False load_read [OF read(3), of ?v "\<lambda>u. [byte_of d]"] read(4) wf wf_put
      by (auto simp: init_u8_def config_read_u8_def raw [unfolded One_nat_def])
  qed
qed

end

interpretation f_password: str_field CFG_BMC_ADMIN_PASSWORD bmc_admin_password
    "\<lambda>v c. c\<lparr>bmc_admin_password := v\<rparr>" MAX_PW_LEN
  by unfold_locales (auto simp: wf_config_def other_field_put)

interpretation f_hostname: str_field CFG_BMC_HOSTNAME bmc_hostname
    "\<lambda>v c. c\<lparr>bmc_hostname := v\<rparr>" MAX_HOSTNAME_LEN
  by unfold_locales (auto simp: wf_config_def other_field_put)

interpretation f_ntp_server: str_field CFG_BMC_NTP_SERVER bmc_ntp_server
    "\<lambda>v c. c\<lparr>bmc_ntp_server := v\<rparr>" MAX_NTP_SERVER_LEN
  by unfold_locales (auto simp: wf_config_def other_field_put)

interpretation f_ip4: u32_field CFG_BMC_DEFAULT_IP4 bmc_default_ip4
    "\<lambda>v c. c\<lparr>bmc_default_ip4 := v\<rparr>"
  by unfold_locales (auto simp: wf_config_def other_field_put)

interpretation f_ip4_nm: u32_field CFG_BMC_DEFAULT_IP4_NM bmc_default_ip4_nm
    "\<lambda>v c. c\<lparr>bmc_default_ip4_nm := v\<rparr>"
  by unfold_locales (auto simp: wf_config_def other_field_put)

interpretation f_ip4_gw: u32_field CFG_BMC_DEFAULT_IP4_GW bmc_default_ip4_gw
    "\<lambda>v c. c\<lparr>bmc_default_ip4_gw := v\<rparr>"
  by unfold_locales (auto simp: wf_config_def other_field_put)

interpretation f_dhcp4: u8_field CFG_BMC_USE_DHCP4 bmc_use_dhcp4
    "\<lambda>v c. c\<lparr>bmc_use_dhcp4 := v\<rparr>"
  by unfold_locales (auto simp: wf_config_def other_field_put)

interpretation f_ntp: u8_field CFG_BMC_USE_NTP bmc_use_ntp
    "\<lambda>v c. c\<lparr>bmc_use_ntp := v\<rparr>"
  by unfold_locales (auto simp: wf_config_def other_field_put)

interpretation f_auto_poweron: u8_field CFG_HOST_AUTO_POWERON host_auto_poweron
    "\<lambda>v c. c\<lparr>host_auto_poweron := v\<rparr>"
  by unfold_locales (auto simp: wf_config_def other_field_put)

interpretation f_version: u8_field CFG_VERSION version
    "\<lambda>v c. c\<lparr>version := v\<rparr>"
  by unfold_locales (auto simp: wf_config_def other_field_put)

section \<open>All fields\<close>

fun default_bytes :: "env \<Rightarrow> config_id \<Rightarrow> bmc \<Rightarrow> bytes" where
  "default_bytes E CFG_VERSION u = [byte_of CFG_CURRENT_VERSION]"
| "default_bytes E CFG_BMC_ADMIN_PASSWORD u = take MAX_PW_LEN (c_str (CONFIG_DEFAULT_ADMIN_PASSWORD E))"
| "default_bytes E CFG_BMC_HOSTNAME u = take MAX_HOSTNAME_LEN (c_str (hostname_now E (trace u)))"
| "default_bytes E CFG_BMC_DEFAULT_IP4 u = le32 0"
| "default_bytes E CFG_BMC_DEFAULT_IP4_NM u = le32 0"
| "default_bytes E CFG_BMC_DEFAULT_IP4_GW u = le32 0"
| "default_bytes E CFG_BMC_USE_DHCP4 u = [byte_of 1]"
| "default_bytes E CFG_BMC_USE_NTP u = [byte_of 1]"
| "default_bytes E CFG_BMC_NTP_SERVER u = take MAX_NTP_SERVER_LEN (c_str ''pool.ntp.org'')"
| "default_bytes E CFG_HOST_AUTO_POWERON u = [byte_of 0]"

text \<open>What the load of the fields \<open>S\<close> makes of the state \<open>s0\<close>.\<close>

definition outcome :: "env \<Rightarrow> bmc \<Rightarrow> config_id \<Rightarrow> bmc \<Rightarrow> bool" where
  "outcome E s0 i t \<longleftrightarrow>
     (\<not> backed E s0 \<longrightarrow> (\<exists>u. field_bytes i (config_data t) = default_bytes E i u)) \<and>
     (backed E s0 \<longrightarrow> nvs_documented E \<longrightarrow>
        (case nvs_store E (trace s0) (cfg_key i) of
           None \<Rightarrow> (\<exists>u. field_bytes i (config_data t) = default_bytes E i u) \<and>
             (nvs_writable E \<longrightarrow> stored E i t)
         | Some b \<Rightarrow> entry_ok i b \<longrightarrow> field_bytes i (config_data t) = b \<and>
             nvs_store E (trace t) (cfg_key i) = Some b))"

definition loaded :: "env \<Rightarrow> bmc \<Rightarrow> config_id set \<Rightarrow> bmc \<Rightarrow> bool" where
  "loaded E s0 S t \<longleftrightarrow> wf_config (config_data t) \<and> backed E t = backed E s0 \<and>
     fs_is_enabled t = fs_is_enabled s0 \<and> config_use_fs t = config_use_fs s0 \<and>
     (\<forall>j. if j \<in> S then outcome E s0 j t
          else field_bytes j (config_data t) = field_bytes j (config_data s0) \<and>
            nvs_store E (trace t) (cfg_key j) = nvs_store E (trace s0) (cfg_key j))"

lemma loaded_step:
  assumes "loaded E s0 S t" and "load_ok E i (default_bytes E i) t t'" and "i \<notin> S"
  shows "loaded E s0 (insert i S) t'"
proof -
  have b: "backed E t' = backed E t"
    using assms(2) by (simp add: load_ok_def backed_def fs_enabled_def)
  have same: "nvs_store E (trace t) (cfg_key i) = nvs_store E (trace s0) (cfg_key i)"
    using assms(1,3) by (simp add: loaded_def)
  have out: "outcome E s0 i t'"
    using assms(1,2) unfolding outcome_def load_ok_def same by (simp add: loaded_def)
  have keep: "outcome E s0 j t'" if "j \<in> S" for j
  proof -
    have "outcome E s0 j t" and "j \<noteq> i"
      using assms(1,3) that by (auto simp: loaded_def)
    moreover have "field_bytes j (config_data t') = field_bytes j (config_data t)"
      "nvs_store E (trace t') (cfg_key j) = nvs_store E (trace t) (cfg_key j)"
      using assms(2) \<open>j \<noteq> i\<close> by (simp_all add: load_ok_def)
    ultimately show ?thesis
      by (auto simp: outcome_def stored_def split: option.splits)
  qed
  show ?thesis
    unfolding loaded_def
  proof (intro conjI allI)
    fix j
    show "if j \<in> insert i S then outcome E s0 j t'
      else field_bytes j (config_data t') = field_bytes j (config_data s0) \<and>
        nvs_store E (trace t') (cfg_key j) = nvs_store E (trace s0) (cfg_key j)"
      using out keep assms(1,2) by (simp add: loaded_def load_ok_def)
  qed (use assms(1,2) b in \<open>simp_all add: loaded_def load_ok_def\<close>)
qed

lemma loaded_refl: "wf_config (config_data s) \<Longrightarrow> loaded E s {} s"
  by (simp add: loaded_def)

lemma loaded_in: "loaded E s0 S t \<Longrightarrow> i \<in> S \<Longrightarrow> outcome E s0 i t"
  by (simp add: loaded_def)

lemma loaded_out:
  assumes "loaded E s0 S t" and "i \<notin> S"
  shows "field_bytes i (config_data t) = field_bytes i (config_data s0) \<and>
    nvs_store E (trace t) (cfg_key i) = nvs_store E (trace s0) (cfg_key i)"
  using assms by (simp add: loaded_def)

lemma loaded_wf: "loaded E s0 S t \<Longrightarrow> wf_config (config_data t)"
  by (simp add: loaded_def)

text \<open>The nine loads of \<open>config_init\<close>, in the order of the code.\<close>

lemma config_init_loaded:
  assumes wf: "wf_config (config_data (config_init_version E (s\<lparr>config_data := zero_config\<rparr>)))"
  shows "fst (config_init E s) = 0"
    and "loaded E (config_init_version E (s\<lparr>config_data := zero_config\<rparr>)) (UNIV - {CFG_VERSION})
      (snd (config_init E s))"
proof -
  let ?s0 = "config_init_version E (s\<lparr>config_data := zero_config\<rparr>)"
  have all: "UNIV - {CFG_VERSION} = {CFG_HOST_AUTO_POWERON, CFG_BMC_NTP_SERVER, CFG_BMC_USE_NTP,
      CFG_BMC_USE_DHCP4, CFG_BMC_DEFAULT_IP4_GW, CFG_BMC_DEFAULT_IP4_NM, CFG_BMC_DEFAULT_IP4,
      CFG_BMC_HOSTNAME, CFG_BMC_ADMIN_PASSWORD}"
    using config_id.exhaust by auto
  show "fst (config_init E s) = 0"
    by (simp add: config_init_def Let_def)
  have step: "loaded E ?s0 (insert i S) t'"
    if "loaded E ?s0 S t" and "wf_config (config_data t) \<Longrightarrow> load_ok E i d t t'" and "i \<notin> S"
      and "d = default_bytes E i" for i S t t' d
    using loaded_step [OF that(1) _ that(3)] that(2,4) loaded_wf [OF that(1)] by simp
  show "loaded E ?s0 (UNIV - {CFG_VERSION}) (snd (config_init E s))"
    unfolding all config_init_def Let_def snd_conv
    by (rule step [OF _ f_auto_poweron.init_u8_load], rule step [OF _ f_ntp_server.init_str_load],
        rule step [OF _ f_ntp.init_u8_load], rule step [OF _ f_dhcp4.init_u8_load],
        rule step [OF _ f_ip4_gw.init_u32_load], rule step [OF _ f_ip4_nm.init_u32_load],
        rule step [OF _ f_ip4.init_u32_load], rule step [OF _ f_hostname.init_str_load],
        rule step [OF _ f_password.init_str_load], rule loaded_refl [OF wf])
      (simp_all add: fun_eq_iff)
qed

section \<open>The version key\<close>

lemma config_clear_fields:
  "config_clear E s = (rc, s') \<Longrightarrow> config_data s' = config_data s \<and>
     config_use_fs s' = config_use_fs s \<and> fs_is_enabled s' = fs_is_enabled s"
  using cfg.clr_io [of any_call s s E] by (auto dest: only_io_fields)

lemma config_clear_writable:
  assumes "nvs_writable E" and "fs_enabled E s"
  shows "config_clear E s = (0, s\<lparr>trace := Nvs NvsClear # trace s\<rparr>)"
    and "nvs_store E (Nvs NvsClear # trace s) k = None"
  using assms by (auto simp: nvs_writable_def config_clear_def fs_clear_def
      fs_clear_again_retry retry_call_ok fs_enabled_def)

text \<open>Writing the current version.\<close>

definition write_version :: "env \<Rightarrow> bmc \<Rightarrow> int \<times> bmc" where
  "write_version E s =
     config_write_raw E (cfg_key CFG_VERSION) [byte_of CFG_CURRENT_VERSION]
       (cfg_update (\<lambda>c. c\<lparr>version := CFG_CURRENT_VERSION\<rparr>) s)"

lemma config_init_version_eq:
  assumes "fs_enabled E s"
    and "config_read_raw E (cfg_key CFG_VERSION) 1 (s\<lparr>config_use_fs := True\<rparr>) = (rc, buf, s1)"
    and "v = load_u8 (version (config_data s)) buf"
    and "s2 = cfg_update (\<lambda>c. c\<lparr>version := v\<rparr>) s1"
  shows "rc < 0 \<Longrightarrow> config_init_version E s =
      (let (rc, t) = write_version E s2 in if rc < 0 then t\<lparr>config_use_fs := False\<rparr> else t)"
    and "\<not> rc < 0 \<Longrightarrow> v \<noteq> CFG_CURRENT_VERSION \<Longrightarrow> config_init_version E s =
      (let (rc, t) = config_clear E s2;
           (rc, t) = (if rc = 0 then write_version E t else (rc, t))
       in if rc < 0 then t\<lparr>config_use_fs := False\<rparr> else t)"
    and "\<not> rc < 0 \<Longrightarrow> v = CFG_CURRENT_VERSION \<Longrightarrow> config_init_version E s = s2"
  using assms by (auto simp: config_init_version_def config_read_u8_def config_write_u8_def
      write_version_def Let_def split: prod.split)

lemma write_version_fields:
  "write_version E s = (rc, t) \<Longrightarrow>
     config_data t = (config_data s)\<lparr>version := CFG_CURRENT_VERSION\<rparr> \<and>
     config_use_fs t = config_use_fs s \<and> fs_is_enabled t = fs_is_enabled s"
  unfolding write_version_def by (drule config_write_raw_fields) simp

text \<open>Nothing but the version field, the use flag and the store changes.\<close>

lemma config_init_version_frame:
  "(\<exists>v. config_data (config_init_version E s) = (config_data s)\<lparr>version := v\<rparr>) \<and>
     fs_is_enabled (config_init_version E s) = fs_is_enabled s"
proof (cases "fs_enabled E s")
  case True
  obtain rc buf s1 where
    r: "config_read_raw E (cfg_key CFG_VERSION) 1 (s\<lparr>config_use_fs := True\<rparr>) = (rc, buf, s1)"
    by (metis prod_cases3)
  define v where "v = load_u8 (version (config_data s)) buf"
  define s2 where "s2 = cfg_update (\<lambda>c. c\<lparr>version := v\<rparr>) s1"
  note eq = config_init_version_eq [OF True r v_def s2_def]
  have q: "config_data s2 = (config_data s)\<lparr>version := v\<rparr> \<and> fs_is_enabled s2 = fs_is_enabled s"
    using config_read_raw_cases(3) [OF r] by (simp add: s2_def quiet_def)
  obtain rc2 t2 where w: "write_version E s2 = (rc2, t2)"
    by fastforce
  obtain rc3 t3 where c: "config_clear E s2 = (rc3, t3)"
    by fastforce
  obtain rc4 t4 where w4: "write_version E t3 = (rc4, t4)"
    by fastforce
  consider "rc < 0" | "\<not> rc < 0" "v \<noteq> CFG_CURRENT_VERSION" | "\<not> rc < 0" "v = CFG_CURRENT_VERSION"
    by blast
  then show ?thesis
  proof cases
    case 1
    then show ?thesis
      using eq(1) w q write_version_fields [OF w] by auto
  next
    case 2
    then show ?thesis
      using eq(2) c w4 q write_version_fields [OF w4] config_clear_fields [OF c] by auto
  next
    case 3
    then show ?thesis
      using eq(3) q by auto
  qed
qed (auto simp: config_init_version_def intro: exI [of _ "version (config_data s)"])

text \<open>Whatever the store answers, the load ends with a configuration that is well formed.\<close>

lemma config_init_version_wf:
  "wf_config (config_data (config_init_version E (s\<lparr>config_data := zero_config\<rparr>)))"
  using config_init_version_frame [of E "s\<lparr>config_data := zero_config\<rparr>"]
  by (auto simp: wf_config_def zero_config_def)

lemma config_init_wf: "wf_config (config_data (snd (config_init E s)))"
  by (rule loaded_wf [OF config_init_loaded(2) [OF config_init_version_wf]])

text \<open>The three cases of a store that answers as documented.\<close>

lemma write_version_writable:
  assumes "nvs_writable E" and "backed E s" and "write_version E s = (rc, t)"
  shows "0 \<le> rc" and "backed E t" and "stored E CFG_VERSION t"
    and "k \<noteq> cfg_key CFG_VERSION \<Longrightarrow> nvs_store E (trace t) k = nvs_store E (trace s) k"
proof -
  let ?s = "cfg_update (\<lambda>c. c\<lparr>version := CFG_CURRENT_VERSION\<rparr>) s"
  have b: "backed E ?s"
    using assms(2) by (simp add: backed_def fs_enabled_def)
  have w: "config_write_raw E (cfg_key CFG_VERSION) [byte_of CFG_CURRENT_VERSION] ?s = (rc, t)"
    using assms(3) by (simp add: write_version_def)
  show rc: "0 \<le> rc"
    using config_write_raw_writable [OF assms(1) b, of "cfg_key CFG_VERSION"
        "[byte_of CFG_CURRENT_VERSION]"] w by simp
  show "backed E t"
    using assms(2) write_version_fields [OF assms(3)] by (simp add: backed_def fs_enabled_def)
  show "stored E CFG_VERSION t"
    using config_write_raw_store(2) [OF w b rc] write_version_fields [OF assms(3)]
    by (simp add: stored_def)
  show "nvs_store E (trace t) k = nvs_store E (trace s) k" if "k \<noteq> cfg_key CFG_VERSION"
    using config_write_raw_store(1) [OF w that] by simp
qed

lemma written_version:
  assumes "nvs_writable E" and "backed E s"
  obtains rc t where "write_version E s = (rc, t)" and "\<not> rc < 0" and "backed E t"
    and "stored E CFG_VERSION t" and "version (config_data t) = CFG_CURRENT_VERSION"
    and "\<And>k. k \<noteq> cfg_key CFG_VERSION \<Longrightarrow> nvs_store E (trace t) k = nvs_store E (trace s) k"
proof -
  obtain rc t where w: "write_version E s = (rc, t)"
    by fastforce
  note ww = write_version_writable [OF assms w]
  show thesis
    using w ww(1) write_version_fields [OF w] by (intro that [OF w _ ww(2,3) _ ww(4)]) simp_all
qed

text \<open>The state after the read of the version: which branch is taken depends on the stored byte.\<close>

lemma config_init_version_read:
  assumes fs: "fs_enabled E s" and doc: "nvs_documented E"
  obtains s2 where "backed E s2" and "fs_enabled E s2"
    and "\<And>k. nvs_store E (trace s2) k = nvs_store E (trace s) k"
    and "nvs_store E (trace s) (cfg_key CFG_VERSION) = None \<Longrightarrow> config_init_version E s =
      (let (rc, t) = write_version E s2 in if rc < 0 then t\<lparr>config_use_fs := False\<rparr> else t)"
    and "\<And>b. nvs_store E (trace s) (cfg_key CFG_VERSION) = Some [b] \<Longrightarrow>
      b \<noteq> byte_of CFG_CURRENT_VERSION \<Longrightarrow> config_init_version E s =
      (let (rc, t) = config_clear E s2;
           (rc, t) = (if rc = 0 then write_version E t else (rc, t))
       in if rc < 0 then t\<lparr>config_use_fs := False\<rparr> else t)"
    and "nvs_store E (trace s) (cfg_key CFG_VERSION) = Some [byte_of CFG_CURRENT_VERSION] \<Longrightarrow>
      config_init_version E s = s2 \<and> version (config_data s2) = CFG_CURRENT_VERSION"
proof -
  obtain rc buf s1 where
    r: "config_read_raw E (cfg_key CFG_VERSION) 1 (s\<lparr>config_use_fs := True\<rparr>) = (rc, buf, s1)"
    by (metis prod_cases3)
  define v where "v = load_u8 (version (config_data s)) buf"
  define s2 where "s2 = cfg_update (\<lambda>c. c\<lparr>version := v\<rparr>) s1"
  note eq = config_init_version_eq [OF fs r v_def s2_def]
  note read = config_read_raw_cases [OF r]
  have b: "backed E (s\<lparr>config_use_fs := True\<rparr>)"
    using fs by (simp add: backed_def fs_enabled_def)
  have got: "rc = 1 \<and> v = word_of_byte c \<and> (c \<noteq> byte_of CFG_CURRENT_VERSION \<longrightarrow> v \<noteq> CFG_CURRENT_VERSION)"
    if "nvs_store E (trace s) (cfg_key CFG_VERSION) = Some [c]" for c
    using read(6) [OF b doc, of "[c]"] that byte_of_word [of c]
    by (auto simp del: byte_of_word simp: v_def load_u8_def memcpy_into_all)
  show thesis
  proof (rule that [of s2])
    show "backed E s2" "fs_enabled E s2" "\<And>k. nvs_store E (trace s2) k = nvs_store E (trace s) k"
      using read(3) fs by (simp_all add: s2_def quiet_def backed_def fs_enabled_def)
  qed (use eq read(5) [OF b doc] got in \<open>auto simp: s2_def\<close>)
qed

lemma config_init_version_documented:
  assumes fs: "fs_enabled E s" and doc: "nvs_documented E"
  defines "t \<equiv> config_init_version E s"
    and "entry \<equiv> nvs_store E (trace s) (cfg_key CFG_VERSION)"
  shows "entry = Some [byte_of CFG_CURRENT_VERSION] \<Longrightarrow>
      backed E t \<and> version (config_data t) = CFG_CURRENT_VERSION \<and>
      (\<forall>k. nvs_store E (trace t) k = nvs_store E (trace s) k)"
    and "entry = None \<Longrightarrow> nvs_writable E \<Longrightarrow> backed E t \<and> stored E CFG_VERSION t \<and>
      version (config_data t) = CFG_CURRENT_VERSION \<and>
      (\<forall>k. k \<noteq> cfg_key CFG_VERSION \<longrightarrow> nvs_store E (trace t) k = nvs_store E (trace s) k)"
    and "entry = Some [b] \<Longrightarrow> b \<noteq> byte_of CFG_CURRENT_VERSION \<Longrightarrow> nvs_writable E \<Longrightarrow>
      backed E t \<and> stored E CFG_VERSION t \<and>
      version (config_data t) = CFG_CURRENT_VERSION \<and>
      (\<forall>k. k \<noteq> cfg_key CFG_VERSION \<longrightarrow> nvs_store E (trace t) k = None)"
proof -
  obtain s2 where q: "backed E s2" "fs_enabled E s2"
      "\<And>k. nvs_store E (trace s2) k = nvs_store E (trace s) k"
    and none: "entry = None \<Longrightarrow> t =
      (let (rc, t) = write_version E s2 in if rc < 0 then t\<lparr>config_use_fs := False\<rparr> else t)"
    and old: "\<And>b. entry = Some [b] \<Longrightarrow> b \<noteq> byte_of CFG_CURRENT_VERSION \<Longrightarrow> t =
      (let (rc, t) = config_clear E s2;
           (rc, t) = (if rc = 0 then write_version E t else (rc, t))
       in if rc < 0 then t\<lparr>config_use_fs := False\<rparr> else t)"
    and current: "entry = Some [byte_of CFG_CURRENT_VERSION] \<Longrightarrow>
      t = s2 \<and> version (config_data s2) = CFG_CURRENT_VERSION"
    by (fact config_init_version_read [OF fs doc, folded t_def entry_def])
  show "backed E t \<and> version (config_data t) = CFG_CURRENT_VERSION \<and>
      (\<forall>k. nvs_store E (trace t) k = nvs_store E (trace s) k)"
    if "entry = Some [byte_of CFG_CURRENT_VERSION]"
    using current [OF that] q by simp
  show "backed E t \<and> stored E CFG_VERSION t \<and> version (config_data t) = CFG_CURRENT_VERSION \<and>
      (\<forall>k. k \<noteq> cfg_key CFG_VERSION \<longrightarrow> nvs_store E (trace t) k = nvs_store E (trace s) k)"
    if e: "entry = None" and wr: "nvs_writable E"
    by (rule written_version [OF wr q(1)]) (use none [OF e] q(3) in simp)
  show "backed E t \<and> stored E CFG_VERSION t \<and> version (config_data t) = CFG_CURRENT_VERSION \<and>
      (\<forall>k. k \<noteq> cfg_key CFG_VERSION \<longrightarrow> nvs_store E (trace t) k = None)"
    if e: "entry = Some [b]" and ne: "b \<noteq> byte_of CFG_CURRENT_VERSION" and wr: "nvs_writable E"
  proof -
    let ?s3 = "s2\<lparr>trace := Nvs NvsClear # trace s2\<rparr>"
    have "backed E ?s3"
      using q by (simp add: backed_def fs_enabled_def)
    then show ?thesis
      by (rule written_version [OF wr]) (use old [OF e ne] config_clear_writable [OF wr q(2)] in simp)
  qed
qed

end
