(* ===== verification/Ideal_Env.thy ===== *)
theory Ideal_Env
  imports Fs
begin

text \<open>
  A concrete environment: a board on which every call succeeds and whose key-value store
  behaves as NVS documents. The theorems about storage hold for every environment that meets
  their hypotheses; this one shows that the hypotheses can be met together.
\<close>

fun nvs_mem :: "call list \<Rightarrow> 16 word \<Rightarrow> bytes option" where
  "nvs_mem [] i = None"
| "nvs_mem (c # h) i =
     (case c of
        Nvs (NvsWrite j b) \<Rightarrow> (if j = i then (if b = [] then None else Some b) else nvs_mem h i)
      | Nvs NvsClear \<Rightarrow> None
      | _ \<Rightarrow> nvs_mem h i)"

definition ideal_ret :: "call list \<Rightarrow> call \<Rightarrow> int" where
  "ideal_ret h c =
     (case c of
        Nvs (NvsRead i n) \<Rightarrow> (case nvs_mem h i of None \<Rightarrow> - ENOENT | Some b \<Rightarrow> int (length b))
      | Nvs (NvsWrite i b) \<Rightarrow> int (length b)
      | Nvs FlashReady \<Rightarrow> 1
      | Net (NetIfAddrAdd i a) \<Rightarrow> 1
      | Net (NetIfSetNetmask i a m) \<Rightarrow> 1
      | Gpio (GpioReady p) \<Rightarrow> 1
      | Time RtcReady \<Rightarrow> 1
      | Uart UartReady \<Rightarrow> 1
      | Sock (SockSend fd b) \<Rightarrow> int (length b)
      | Http (WsSendMsg fd b w) \<Rightarrow> int (length b)
      | _ \<Rightarrow> 0)"

definition ideal_dat :: "call list \<Rightarrow> call \<Rightarrow> bytes" where
  "ideal_dat h c =
     (case c of
        Nvs (NvsRead i n) \<Rightarrow> (case nvs_mem h i of None \<Rightarrow> [] | Some b \<Rightarrow> take n b)
      | Nvs FlashPageInfo \<Rightarrow> le32 4096
      | _ \<Rightarrow> [])"

definition ideal_env :: env where
  "ideal_env = \<lparr>CONFIG_PERSISTENT_STORAGE = True, CONFIG_APP_NTP = True, CONFIG_RTC = True,
     CONFIG_APP_DNS_RESOLVE = False, CONFIG_POWEROFF = False,
     CONFIG_DEFAULT_ADMIN_PASSWORD = ''admin'', CONFIG_NET_HOSTNAME = ''wallabmc'',
     CONFIG_DNS_SERVER1 = ''8.8.8.8'', STORAGE_PARTITION_SIZE = 65536,
     NET_IF_MAX_IPV4_ADDR = 1, POWER_GPIOS = 2, HAS_GPIO_RESET = True, HAS_STATUS_LED = True,
     HAS_RESET_BUTTON = True, HAS_DIE_TEMP = True, HAS_UARTMUXSEL = False,
     CONFIG_APP_SENSORS = True, CONFIG_APP_BMC_UUID = False, CONFIG_WALLABMC_UUID_NS = [],
     product = \<lparr>SYSTEM_PRODUCT_NAME = ''Board'', SYSTEM_MANUFACTURER = ''Maker'',
       SYSTEM_MODEL = ''Model'', SYSTEM_PROCESSOR_MODEL = ''CPU'', SYSTEM_PROCESSOR_COUNT = 1,
       SYSTEM_MEMORY_GIB = 8, PROJECT_GIT_SHA = ''0'', BANNER_VERSION = ''4''\<rparr>,
     http_options = \<lparr>CONFIG_APP_HTTPS = False, CONFIG_APP_HTTPS_PUBLIC_KEY = False,
       CONFIG_APP_HTTPS_PSK = False, CONFIG_SHELL_BACKEND_WEBSOCKET = True\<rparr>,
     CONFIG_APP_CONSOLE_LOGGER = True, CONFIG_APP_CONSOLE_LOG_SIZE = 2048,
     CONFIG_CONSOLE_BRIDGE = True, CONFIG_APP_WEB_TERMINAL_HOST_SERIAL = True, CONFIG_JTAG = True,
     zret = ideal_ret, zdat = ideal_dat, errno = (\<lambda>h. 0), default_iface = (\<lambda>h. Some 1), ifaces = (\<lambda>h. [1]),
     has_ipv4 = (\<lambda>h i. True),
     unicast = (\<lambda>h i n. \<lparr>is_used = False, addr_type = NET_ADDR_ANY, addr_preferred = False,
        slot_addr = 0, slot_netmask = 0\<rparr>),
     inet_pton = (\<lambda>str. if str = ''10.0.0.1'' then Some 16777226 else None),
     inet_ntop = (\<lambda>a. Some ''10.0.0.1''),
     hostname_now = (\<lambda>h. ''wallabmc''), no_return = (\<lambda>h c. c = Kernel (SysReboot SYS_REBOOT_WARM)),
     clock_now = (\<lambda>h. (0, 0)),
     rtc_now = (\<lambda>h. (\<lparr>tm_sec = 0, tm_min = 0, tm_hour = 0, tm_mday = 1, tm_mon = 0,
        tm_year = 126, tm_wday = 4, tm_yday = 0\<rparr>, 0)),
     sntp_time = (\<lambda>h. (0, 0)), timeutil_timegm = (\<lambda>t. 1767225600), 
     base64_decode = (\<lambda>n b. if length b \<le> n then Inr b else Inl (- 12)),
     uuid_from_string = (\<lambda>b. Inr b), uuid_generate_v5 = (\<lambda>a b. Inr b),
     uuid_to_string = (\<lambda>b. Inr b), die_temp = (\<lambda>h. (40, 0)), ipv4_gw = (\<lambda>h i. 0),
     uninit_ptr = (\<lambda>h. None), after_scope = (\<lambda>b. b),
     json_pieces = (\<lambda>j. ([''{}''], 0)), json_obj_parse = (\<lambda>d b. Inr []),
     scanf_overflow = (\<lambda>v. 0), iface_name = (\<lambda>i. ''eth0''), iface_index = (\<lambda>i. 1),
     dhcpv4_lease_time = (\<lambda>h i. 3600)\<rparr>"

lemma nvs_store_ideal: "nvs_store ideal_env h i = nvs_mem h i"
  by (induction h) (auto simp: ideal_env_def ideal_ret_def split: call.split nvs_call.split)

lemma ideal_documented: "nvs_documented ideal_env"
  unfolding nvs_documented_def nvs_store_ideal
  by (simp add: ideal_env_def ideal_ret_def ideal_dat_def)

lemma ideal_writable: "nvs_writable ideal_env"
  by (simp add: nvs_writable_def ideal_env_def ideal_ret_def)

end
