(* ===== verification/Config_Steps.thy ===== *)
theory Config_Steps
  imports Config_Boot Ideal_Env
begin

text \<open>
  The configuration over time: any sequence of calls to the setters (from Redfish or the
  shell), the reboot of main.c, and the load at the next boot. The step relation gives one
  call with its result; what holds of every reachable configuration is proved by rule
  induction from the contract of the setters.
\<close>

section \<open>Calls of the setters\<close>

inductive config_call :: "env \<Rightarrow> bmc \<Rightarrow> int \<Rightarrow> bmc \<Rightarrow> bool" for E where
  call_hostname: "config_bmc_hostname_set E x s = (rc, s') \<Longrightarrow> config_call E s rc s'"
| call_ip4: "config_bmc_default_ip4_set E y s = (rc, s') \<Longrightarrow> config_call E s rc s'"
| call_ip4_nm: "config_bmc_default_ip4_nm_set E y s = (rc, s') \<Longrightarrow> config_call E s rc s'"
| call_ip4_gw: "config_bmc_default_ip4_gw_set E y s = (rc, s') \<Longrightarrow> config_call E s rc s'"
| call_dhcp4: "config_bmc_use_dhcp4_set E b s = (rc, s') \<Longrightarrow> config_call E s rc s'"
| call_ntp: "config_bmc_use_ntp_set E b s = (rc, s') \<Longrightarrow> config_call E s rc s'"
| call_ntp_server: "config_bmc_ntp_server_set E x s = (rc, s') \<Longrightarrow> config_call E s rc s'"
| call_password: "config_bmc_password_set E x s = (rc, s') \<Longrightarrow> config_call E s rc s'"
| call_auto_poweron: "config_host_auto_poweron_set E b s = (rc, s') \<Longrightarrow> config_call E s rc s'"

text \<open>Any number of calls, whatever they returned, and any number of successful calls.\<close>

inductive config_calls :: "env \<Rightarrow> bmc \<Rightarrow> bmc \<Rightarrow> bool" for E where
  calls_none: "config_calls E s s"
| calls_more: "config_calls E s t \<Longrightarrow> config_call E t rc u \<Longrightarrow> config_calls E s u"

inductive config_updates :: "env \<Rightarrow> bmc \<Rightarrow> bmc \<Rightarrow> bool" for E where
  updates_none: "config_updates E s s"
| updates_more: "config_updates E s t \<Longrightarrow> config_call E t 0 u \<Longrightarrow> config_updates E s u"

lemma config_call_wf:
  "config_call E s rc s' \<Longrightarrow> wf_config (config_data s) \<Longrightarrow> wf_config (config_data s')"
  by (induction rule: config_call.induct)
    (metis snd_conv hostname.wf ip4.wf ip4_nm.wf ip4_gw.wf dhcp4.wf ntp.wf ntp_server.wf
      password.wf auto_poweron.wf)+

lemma config_call_persisted:
  "config_call E s rc s' \<Longrightarrow> rc = 0 \<Longrightarrow> backed E s \<Longrightarrow> persisted E s \<Longrightarrow>
     backed E s' \<and> persisted E s'"
  by (induction rule: config_call.induct)
    (metis hostname.keeps_persisted ip4.keeps_persisted ip4_nm.keeps_persisted
      ip4_gw.keeps_persisted dhcp4.keeps_persisted ntp.keeps_persisted
      ntp_server.keeps_persisted password.keeps_persisted auto_poweron.keeps_persisted
      hostname.keeps_backed ip4.keeps_backed ip4_nm.keeps_backed ip4_gw.keeps_backed
      dhcp4.keeps_backed ntp.keeps_backed ntp_server.keeps_backed password.keeps_backed
      auto_poweron.keeps_backed)+

lemma config_call_version:
  "config_call E s rc s' \<Longrightarrow>
     field_bytes CFG_VERSION (config_data s') = field_bytes CFG_VERSION (config_data s)"
  by (induction rule: config_call.induct)
    (metis config_id.distinct(1,3,5,7,9,11,13,15,17) hostname.other_value ip4.other_value
      ip4_nm.other_value ip4_gw.other_value dhcp4.other_value ntp.other_value
      ntp_server.other_value password.other_value auto_poweron.other_value)+

lemma config_updates_invariant:
  assumes "config_updates E s t"
  shows "backed E s \<Longrightarrow> persisted E s \<Longrightarrow> wf_config (config_data s) \<Longrightarrow>
    backed E t \<and> persisted E t \<and> wf_config (config_data t) \<and>
    field_bytes CFG_VERSION (config_data t) = field_bytes CFG_VERSION (config_data s)"
  using assms
  by (induction rule: config_updates.induct)
    (auto dest: config_call_persisted config_call_wf config_call_version)

section \<open>Reboot and load\<close>

lemma reboot_store:
  "nvs_store E (trace (bmc_reboot E s)) k = nvs_store E (trace s) k"
proof -
  have "only_io no_nvs (snd (fs_exit E s)) (bmc_reboot E s)"
    by (rule bmc_reboot_only_io) simp_all
  moreover have "trace (snd (fs_exit E s)) = trace s"
    by (simp add: fs_exit_def umount_fs_def)
  ultimately show ?thesis
    using nvs_store_no_nvs by metis
qed

lemma fs_init_mounts:
  assumes "fs_init E s = (0, t)" and "CONFIG_PERSISTENT_STORAGE E"
  shows "fs_enabled E t" and "nvs_store E (trace t) k = nvs_store E (trace s) k"
  using assms
  by (auto simp: fs_init_def mount_fs_def ext_def ext_dat_def fs_enabled_def Let_def
      split: if_splits)

text \<open>A store with a current version and well-formed entries is loaded as it is.\<close>

lemma config_init_restores:
  assumes doc: "nvs_documented E" and fs: "fs_enabled E s"
    and entries: "\<And>i. nvs_store E (trace s) (cfg_key i) = Some (field_bytes i c)"
    and wf: "wf_config c" and ver: "version c = CFG_CURRENT_VERSION"
  shows "field_bytes i (config_data (snd (config_init E s))) = field_bytes i c"
    and "nvs_store E (trace (snd (config_init E s))) (cfg_key i) = Some (field_bytes i c)"
    and "backed E (snd (config_init E s))"
proof -
  let ?z = "s\<lparr>config_data := zero_config\<rparr>"
  let ?v = "config_init_version E ?z"
  have "fs_enabled E ?z" and "nvs_store E (trace ?z) (cfg_key CFG_VERSION) = Some [byte_of CFG_CURRENT_VERSION]"
    using fs entries [of CFG_VERSION] ver by (simp_all add: fs_enabled_def)
  from config_init_version_documented(1) [OF this(1) doc this(2)]
  have v: "backed E ?v" "version (config_data ?v) = CFG_CURRENT_VERSION"
    "\<And>k. nvs_store E (trace ?v) k = nvs_store E (trace s) k"
    by auto
  note l = config_init_loaded(2) [OF config_init_version_wf [of E s]]
  have "field_bytes i (config_data (snd (config_init E s))) = field_bytes i c \<and>
      nvs_store E (trace (snd (config_init E s))) (cfg_key i) = Some (field_bytes i c)"
    if "i \<noteq> CFG_VERSION"
  proof -
    have "outcome E ?v i (snd (config_init E s))"
      using loaded_in [OF l] that by simp
    then show ?thesis
      unfolding outcome_def v(3) entries using v(1) doc entry_ok_field [OF wf] by simp
  qed
  moreover have "field_bytes CFG_VERSION (config_data (snd (config_init E s))) =
      field_bytes CFG_VERSION (config_data ?v) \<and>
      nvs_store E (trace (snd (config_init E s))) (cfg_key CFG_VERSION) =
      nvs_store E (trace ?v) (cfg_key CFG_VERSION)"
    by (rule loaded_out [OF l]) simp
  then have "field_bytes CFG_VERSION (config_data (snd (config_init E s))) = field_bytes CFG_VERSION c \<and>
      nvs_store E (trace (snd (config_init E s))) (cfg_key CFG_VERSION) =
        Some (field_bytes CFG_VERSION c)"
    unfolding v(3) entries using v(2) ver by simp
  ultimately show "field_bytes i (config_data (snd (config_init E s))) = field_bytes i c"
    and "nvs_store E (trace (snd (config_init E s))) (cfg_key i) = Some (field_bytes i c)"
    by blast+
  show "backed E (snd (config_init E s))"
    using l v(1) by (simp add: loaded_def)
qed

text \<open>Where every entry the store holds is well formed, the load leaves configuration and
  store in agreement: what could be read is kept, the rest has its default, and an unknown
  version empties the store first.\<close>

definition entries_ok :: "env \<Rightarrow> bmc \<Rightarrow> bool" where
  "entries_ok E s \<longleftrightarrow> (\<forall>i \<in> set all_config_ids.
     case nvs_store E (trace s) (cfg_key i) of None \<Rightarrow> True | Some b \<Rightarrow> entry_ok i b)"

text \<open>The entry a field is loaded from.\<close>

definition kept_entry :: "env \<Rightarrow> bmc \<Rightarrow> config_id \<Rightarrow> bytes option" where
  "kept_entry E s i =
     (let v = nvs_store E (trace s) (cfg_key CFG_VERSION)
      in if v = None \<or> v = Some [byte_of CFG_CURRENT_VERSION]
         then nvs_store E (trace s) (cfg_key i) else None)"

lemma config_init_version_store:
  assumes doc: "nvs_documented E" and wr: "nvs_writable E" and fs: "fs_enabled E s"
    and ok: "entries_ok E s"
  defines "v \<equiv> config_init_version E s"
  shows "backed E v" and "stored E CFG_VERSION v" and "version (config_data v) = CFG_CURRENT_VERSION"
    and "i \<noteq> CFG_VERSION \<Longrightarrow> nvs_store E (trace v) (cfg_key i) = kept_entry E s i"
proof -
  let ?e = "nvs_store E (trace s) (cfg_key CFG_VERSION)"
  have form: "?e = None \<or> (\<exists>b. ?e = Some [b])"
  proof (cases ?e)
    case (Some b)
    then have "length b = 1"
      using ok unfolding entries_ok_def Ball_def
      by (auto dest!: spec [of _ CFG_VERSION] split: option.splits)
    then show ?thesis
      using Some by (auto simp: length_Suc_conv)
  qed simp
  note res = config_init_version_documented [OF fs doc, folded v_def]
  consider "?e = Some [byte_of CFG_CURRENT_VERSION]" | "?e = None"
    | b where "?e = Some [b]" "b \<noteq> byte_of CFG_CURRENT_VERSION"
    using form by metis
  then have "backed E v \<and> stored E CFG_VERSION v \<and>
      version (config_data v) = CFG_CURRENT_VERSION \<and>
      (i \<noteq> CFG_VERSION \<longrightarrow> nvs_store E (trace v) (cfg_key i) = kept_entry E s i)"
  proof cases
    case 1
    with res(1) show ?thesis
      by (simp add: stored_def nvs_entry_def kept_entry_def)
  next
    case 2
    then have "cfg_key i \<noteq> cfg_key CFG_VERSION \<Longrightarrow>
        nvs_store E (trace v) (cfg_key i) = nvs_store E (trace s) (cfg_key i)"
      using res(2) wr by blast
    with 2 res(2) wr show ?thesis
      unfolding cfg_key_eq_iff by (simp add: kept_entry_def)
  next
    case (3 b)
    then have "cfg_key i \<noteq> cfg_key CFG_VERSION \<Longrightarrow> nvs_store E (trace v) (cfg_key i) = None"
      using res(3) wr by blast
    with 3 res(3) wr show ?thesis
      unfolding cfg_key_eq_iff by (simp add: kept_entry_def)
  qed
  then show "backed E v" and "stored E CFG_VERSION v"
    and "version (config_data v) = CFG_CURRENT_VERSION"
    and "i \<noteq> CFG_VERSION \<Longrightarrow> nvs_store E (trace v) (cfg_key i) = kept_entry E s i"
    by blast+
qed

lemma config_init_agrees:
  assumes doc: "nvs_documented E" and wr: "nvs_writable E" and fs: "fs_enabled E s"
    and ok: "entries_ok E s"
  defines "t \<equiv> snd (config_init E s)"
  shows "backed E t" and "wf_config (config_data t)" and "stored E i t"
    and "version (config_data t) = CFG_CURRENT_VERSION"
    and "i \<noteq> CFG_VERSION \<Longrightarrow>
      (case kept_entry E s i of Some b \<Rightarrow> field_bytes i (config_data t) = b
       | None \<Rightarrow> \<exists>u. field_bytes i (config_data t) = default_bytes E i u)"
proof -
  let ?z = "s\<lparr>config_data := zero_config\<rparr>"
  let ?v = "config_init_version E ?z"
  have z: "fs_enabled E ?z" "entries_ok E ?z" "\<And>i. kept_entry E ?z i = kept_entry E s i"
    using fs ok by (simp_all add: fs_enabled_def entries_ok_def kept_entry_def Let_def)
  note v = config_init_version_store [OF doc wr z(1,2)]
  note l = config_init_loaded(2) [OF config_init_version_wf [of E s], folded t_def]
  show "backed E t" and "wf_config (config_data t)"
    using l v(1) by (simp_all add: loaded_def)
  have ver: "field_bytes CFG_VERSION (config_data t) = field_bytes CFG_VERSION (config_data ?v) \<and>
      nvs_store E (trace t) (cfg_key CFG_VERSION) = nvs_store E (trace ?v) (cfg_key CFG_VERSION)"
    by (rule loaded_out [OF l]) simp
  then show "version (config_data t) = CFG_CURRENT_VERSION"
    using v(3) by simp (metis word_of_byte_of)
  have out: "outcome E ?v i t" if "i \<noteq> CFG_VERSION"
    using loaded_in [OF l] that by simp
  have kept: "entry_ok i b" if "kept_entry E s i = Some b" for b
    using ok that unfolding entries_ok_def Ball_def
    by (auto simp: kept_entry_def Let_def dest!: spec [of _ i] split: if_splits option.splits)
  have res: "(case kept_entry E s i of
        Some b \<Rightarrow> field_bytes i (config_data t) = b \<and> nvs_store E (trace t) (cfg_key i) = Some b
      | None \<Rightarrow> (\<exists>u. field_bytes i (config_data t) = default_bytes E i u) \<and> stored E i t)"
    if i: "i \<noteq> CFG_VERSION"
    using out [OF i] v(1) doc wr kept
    unfolding outcome_def v(4) [OF i] z(3) by (auto split: option.split)
  then show "i \<noteq> CFG_VERSION \<Longrightarrow>
      (case kept_entry E s i of Some b \<Rightarrow> field_bytes i (config_data t) = b
       | None \<Rightarrow> \<exists>u. field_bytes i (config_data t) = default_bytes E i u)"
    by (auto split: option.splits)
  show "stored E i t"
  proof (cases "i = CFG_VERSION")
    case True
    then show ?thesis
      using ver v(2) by (simp add: stored_def)
  next
    case False
    then show ?thesis
      using res nvs_store_nonempty [of E "trace t" "cfg_key i"]
      by (auto simp: stored_def nvs_entry_def split: option.splits)
  qed
qed

section \<open>Facts the properties and their witnesses share\<close>

text \<open>Two configurations the other modules cannot tell apart.\<close>

definition same_settings :: "bmc \<Rightarrow> bmc \<Rightarrow> bool" where
  "same_settings s t \<longleftrightarrow>
     config_bmc_hostname t = config_bmc_hostname s \<and>
     config_bmc_admin_password t = config_bmc_admin_password s \<and>
     config_bmc_default_ip4 t = config_bmc_default_ip4 s \<and>
     config_bmc_default_ip4_nm t = config_bmc_default_ip4_nm s \<and>
     config_bmc_default_ip4_gw t = config_bmc_default_ip4_gw s \<and>
     config_bmc_use_dhcp4 t = config_bmc_use_dhcp4 s \<and>
     config_bmc_use_ntp t = config_bmc_use_ntp s \<and>
     config_bmc_ntp_server t = config_bmc_ntp_server s \<and>
     config_host_auto_poweron t = config_host_auto_poweron s"

lemma byte_of_inject: "byte_of v = byte_of w \<longleftrightarrow> v = w"
  by (metis word_of_byte_of)

lemma le32_inject: "le32 v = le32 w \<longleftrightarrow> v = w"
  by (metis of_le32_le32)

lemma same_settingsI:
  assumes "\<And>i. field_bytes i (config_data t) = field_bytes i (config_data s)"
  shows "same_settings s t"
  using assms [of CFG_BMC_ADMIN_PASSWORD] assms [of CFG_BMC_HOSTNAME]
    assms [of CFG_BMC_DEFAULT_IP4] assms [of CFG_BMC_DEFAULT_IP4_NM]
    assms [of CFG_BMC_DEFAULT_IP4_GW] assms [of CFG_BMC_USE_DHCP4] assms [of CFG_BMC_USE_NTP]
    assms [of CFG_BMC_NTP_SERVER] assms [of CFG_HOST_AUTO_POWERON]
  by (simp add: same_settings_def getters byte_of_inject le32_inject)

text \<open>The three strings are not empty, so that NVS has an entry for each field.\<close>

definition strings_set :: "bmc \<Rightarrow> bool" where
  "strings_set s \<longleftrightarrow> config_bmc_hostname s \<noteq> [] \<and> config_bmc_admin_password s \<noteq> [] \<and>
     config_bmc_ntp_server s \<noteq> []"

lemma persisted_entries:
  assumes "persisted E s" and "strings_set s"
  shows "nvs_store E (trace s) (cfg_key i) = Some (field_bytes i (config_data s))"
proof -
  have "field_bytes i (config_data s) \<noteq> []"
    using assms(2) length_le32
    by (cases i) (auto simp: strings_set_def getters dest: arg_cong [of _ "[]" length])
  then show ?thesis
    using assms(1) by (simp add: persisted_iff stored_def nvs_entry_def)
qed

lemma password_set_succeeds:
  assumes "nvs_writable E" and "backed E s" and "length (c_str p) \<le> MAX_PW_LEN"
  shows "fst (config_bmc_password_set E p s) = 0"
proof -
  have "0 \<le> fst (config_write_raw E i b (cfg_update f s))" for i b f
    by (rule config_write_raw_writable [OF assms(1)])
      (use assms(2) in \<open>simp add: backed_def fs_enabled_def\<close>)
  then show ?thesis
    using assms(3) by (auto simp: config_bmc_password_set_def config_write_str_def Let_def
        split: prod.split) (metis fst_conv not_le)
qed

text \<open>The first boot of a board with an empty store.\<close>

definition first_boot :: bmc where
  "first_boot = snd (config_init ideal_env (snd (fs_init ideal_env (reset_state []))))"

lemma mount_ideal: "fs_enabled ideal_env (snd (fs_init ideal_env (reset_state h)))"
  "fst (fs_init ideal_env (reset_state h)) = 0"
  "nvs_store ideal_env (trace (snd (fs_init ideal_env (reset_state h)))) k = nvs_mem h k"
  unfolding nvs_store_ideal
  by (simp_all add: fs_init_def mount_fs_def ext_def ext_dat_def fs_enabled_def ideal_env_def
      ideal_ret_def ideal_dat_def reset_state_def)

lemma entries_ok_empty: "entries_ok ideal_env (snd (fs_init ideal_env (reset_state [])))"
  by (simp add: entries_ok_def mount_ideal)

lemmas first_boot_agrees = config_init_agrees [OF ideal_documented ideal_writable
    mount_ideal(1) [of "[]"] entries_ok_empty, folded first_boot_def]

lemma first_boot_defaults:
  "i \<noteq> CFG_VERSION \<Longrightarrow> \<exists>u. field_bytes i (config_data first_boot) = default_bytes ideal_env i u"
  using first_boot_agrees(5) [of i] by (simp add: kept_entry_def mount_ideal)

lemma first_boot_strings: "strings_set first_boot"
  using first_boot_defaults [of CFG_BMC_HOSTNAME] first_boot_defaults [of CFG_BMC_ADMIN_PASSWORD]
    first_boot_defaults [of CFG_BMC_NTP_SERVER]
  by (simp add: strings_set_def getters ideal_env_def c_str_def MAX_HOSTNAME_LEN_def
      MAX_PW_LEN_def MAX_NTP_SERVER_LEN_def)

section \<open>Properties\<close>

text \<open>C1: The configuration survives a reboot. Start from a configuration that agrees with
  its store, make any number of successful changes through the setters, reboot with
  \<open>bmc_reboot\<close>, mount the store and load the configuration: every getter answers as before
  the reboot, and configuration and store agree again. It needs a store that behaves as NVS
  documents and the three strings to be non-empty, because NVS keeps no entry for an empty
  one.\<close>

theorem config_survives_reboot:
  assumes "nvs_documented E" and "CONFIG_PERSISTENT_STORAGE E"
    and "backed E s0" and "persisted E s0" and "wf_config (config_data s0)"
    and "version (config_data s0) = CFG_CURRENT_VERSION"
    and "config_updates E s0 s" and "strings_set s"
    and "fs_init E (reset_state (trace (bmc_reboot E s))) = (0, t)"
  shows "same_settings s (snd (config_init E t)) \<and> persisted E (snd (config_init E t))"
proof -
  have inv: "persisted E s" "wf_config (config_data s)"
    "field_bytes CFG_VERSION (config_data s) = field_bytes CFG_VERSION (config_data s0)"
    using config_updates_invariant [OF assms(7,3,4,5)] by simp_all
  then have ver: "version (config_data s) = CFG_CURRENT_VERSION"
    using assms(6) by (simp add: byte_of_inject)
  have "nvs_store E (trace t) (cfg_key i) = Some (field_bytes i (config_data s))" for i
    using fs_init_mounts(2) [OF assms(9,2)] reboot_store persisted_entries [OF inv(1) assms(8)]
    by (simp add: reset_state_def)
  note load = config_init_restores [OF assms(1) fs_init_mounts(1) [OF assms(9,2)] this inv(2) ver]
  have "stored E i (snd (config_init E t))" for i
    using load(1,2) persisted_entries [OF inv(1) assms(8), of i] nvs_store_nonempty
    by (simp add: stored_def nvs_entry_def) metis
  then show ?thesis
    using same_settingsI load(1) by (simp add: persisted_iff)
qed

lemma config_survives_reboot_witness:
  "let s = snd (config_bmc_password_set ideal_env ''secret'' first_boot);
       t = snd (fs_init ideal_env (reset_state (trace (bmc_reboot ideal_env s))))
   in config_bmc_admin_password (snd (config_init ideal_env t)) = ''secret''"
proof -
  define s where "s = snd (config_bmc_password_set ideal_env ''secret'' first_boot)"
  define t where "t = snd (fs_init ideal_env (reset_state (trace (bmc_reboot ideal_env s))))"
  have short: "length (c_str ''secret'') \<le> MAX_PW_LEN"
    by (simp add: c_str_def MAX_PW_LEN_def)
  have run: "config_bmc_password_set ideal_env ''secret'' first_boot = (0, s)"
    using password_set_succeeds [OF ideal_writable first_boot_agrees(1) short]
    by (simp add: s_def prod_eq_iff)
  have steps: "config_updates ideal_env first_boot s"
    by (rule updates_more [OF updates_none call_password [OF run]])
  have data: "config_data s = with_password ''secret'' (config_data first_boot)"
    by (rule password.set_value [OF run])
  have "wf_cstr MAX_PW_LEN (bmc_admin_password (config_data first_boot))"
    using first_boot_agrees(2) by (simp add: wf_config_def)
  then have pw: "config_bmc_admin_password s = ''secret''"
    by (simp add: getters data with_password_def strlcpy_c_str wf_cstr_def)
      (simp add: c_str_def MAX_PW_LEN_def)
  have strs: "strings_set s"
    using first_boot_strings pw by (simp add: strings_set_def getters data with_password_def)
  have "same_settings s (snd (config_init ideal_env t)) \<and>
      persisted ideal_env (snd (config_init ideal_env t))"
  proof (rule config_survives_reboot [OF ideal_documented _ first_boot_agrees(1) _
        first_boot_agrees(2,4) steps strs])
    show "CONFIG_PERSISTENT_STORAGE ideal_env"
      by (simp add: ideal_env_def)
    show "persisted ideal_env first_boot"
      using first_boot_agrees(3) by (simp add: persisted_iff)
    show "fs_init ideal_env (reset_state (trace (bmc_reboot ideal_env s))) = (0, t)"
      using mount_ideal(2) by (simp add: t_def prod_eq_iff)
  qed
  then show ?thesis
    using pw by (simp add: same_settings_def s_def t_def Let_def)
qed

text \<open>C13: Whatever the flash answers, the configuration is well formed after the load at
  boot, and it stays so through any number of calls of the setters with any arguments and
  any results: the three strings fill arrays of their declared size and are terminated.\<close>

theorem config_always_wf:
  assumes "config_calls E (snd (config_init E s0)) s"
  shows "wf_config (config_data s)"
  using assms
proof (induction "snd (config_init E s0)" s rule: config_calls.induct)
  case calls_none
  show ?case
    by (rule config_init_wf)
qed (blast dest: config_call_wf)

lemma config_always_wf_witness:
  "wf_config (config_data (snd (config_bmc_hostname_set ideal_env ''a-name-of-thirty-characters-ok''
     (snd (config_init ideal_env (reset_state []))))))"
  by (rule config_always_wf [of ideal_env "reset_state []"],
      rule calls_more [OF calls_none call_hostname], rule prod.collapse [symmetric])


text \<open>An old version in the store: the entry of the password does not survive.\<close>

definition old_store :: "call list" where
  "old_store = [Nvs (NvsWrite 2 ''topsecret''), Nvs (NvsWrite 1 [byte_of 2])]"


text \<open>C39: An empty password is not kept: the setter accepts it, but its entry is deleted, so
  after a reboot the password is the default one again.\<close>

theorem empty_password_reverts:
  assumes "nvs_documented E" and "nvs_writable E" and "CONFIG_PERSISTENT_STORAGE E"
    and "backed E s" and "persisted E s" and "wf_config (config_data s)"
    and "version (config_data s) = CFG_CURRENT_VERSION"
    and "config_bmc_password_set E [] s = (rc, s1)"
    and "fs_init E (reset_state (trace (bmc_reboot E s1))) = (0, t)"
  shows "rc = 0 \<and> config_bmc_admin_password s1 = [] \<and>
    config_bmc_admin_password (snd (config_init E t)) =
      take MAX_PW_LEN (c_str (CONFIG_DEFAULT_ADMIN_PASSWORD E))"
proof -
  have rc: "rc = 0"
    using password_set_succeeds [OF assms(2,4), of "[]"] assms(8) by (simp add: c_str_def)
  note run = assms(8) [unfolded rc]
  have data: "config_data s1 = with_password [] (config_data s)"
    by (rule password.set_value [OF run])
  have pers: "persisted E s1"
    by (rule password.keeps_persisted [OF run assms(4,5)])
  have ver: "version (config_data s1) = CFG_CURRENT_VERSION"
    using assms(7) by (simp add: data with_password_def)
  have wf1: "wf_config (config_data s1)"
    using with_wf(2) assms(6) by (simp add: data)
  have empty: "config_bmc_admin_password s1 = []"
    using assms(6) by (simp add: getters data with_password_def wf_config_def wf_cstr_def
        strlcpy_c_str) (simp add: c_str_def)
  have store: "nvs_store E (trace t) (cfg_key i) = nvs_entry (field_bytes i (config_data s1))" for i
    using fs_init_mounts(2) [OF assms(9,3)] reboot_store pers
    by (simp add: reset_state_def persisted_iff stored_def)
  have "entries_ok E t"
    unfolding entries_ok_def store using entry_ok_field [OF wf1] by (auto simp: nvs_entry_def)
  note init = config_init_agrees(5) [OF assms(1,2) fs_init_mounts(1) [OF assms(9,3)] this,
      of CFG_BMC_ADMIN_PASSWORD]
  have "kept_entry E t CFG_BMC_ADMIN_PASSWORD = None"
    unfolding kept_entry_def store using empty by (simp add: nvs_entry_def getters)
  then show ?thesis
    using init rc empty by (simp add: getters)
qed

lemma empty_password_reverts_witness:
  "let s = snd (config_bmc_password_set ideal_env [] first_boot);
       t = snd (fs_init ideal_env (reset_state (trace (bmc_reboot ideal_env s))))
   in config_bmc_admin_password (snd (config_init ideal_env t)) = ''admin''"
proof -
  have p: "persisted ideal_env first_boot" "CONFIG_PERSISTENT_STORAGE ideal_env"
    using first_boot_agrees(3) by (simp_all add: persisted_iff ideal_env_def)
  have m: "fs_init ideal_env (reset_state h) = (0, snd (fs_init ideal_env (reset_state h)))" for h
    using mount_ideal(2) by (simp add: prod_eq_iff)
  from empty_password_reverts [OF ideal_documented ideal_writable p(2) first_boot_agrees(1) p(1)
      first_boot_agrees(2,4) prod.collapse [symmetric] m]
  show ?thesis
    by (simp add: Let_def ideal_env_def c_str_def MAX_PW_LEN_def)
qed



end
