(* ===== verification/Config_Shell.thy ===== *)
theory Config_Shell
  imports Config_Steps
begin

text \<open>
  The shell commands of config.c. Each refuses to run before the boot has finished; the
  commands for the flags and \<open>clear_and_reboot\<close> differ from the Redfish path in what they
  report. Zephyr's shell splits the line and checks the number of arguments, so that
  \<open>argv ! 1\<close> exists in the commands that use it. A command that does not return has no
  status.
\<close>

type_synonym shell_cmd = "env \<Rightarrow> bytes list \<Rightarrow> bmc \<Rightarrow> int option \<times> bmc"

section \<open>Commands that report the setter's error\<close>

definition cmd_config_bmc_hostname :: shell_cmd where
  "cmd_config_bmc_hostname E argv s =
     (if \<not> is_boot_finished s then (Some (- EAGAIN), s)
      else
        let (rc, s) = config_bmc_hostname_set E (argv ! 1) s in
        if rc \<noteq> 0 then (Some rc, s) else (Some 0, s))"

definition cmd_config_bmc_default_ip4 :: shell_cmd where
  "cmd_config_bmc_default_ip4 E argv s =
     (if \<not> is_boot_finished s then (Some (- EAGAIN), s)
      else
        let (rc, s) = config_bmc_default_ip4_set E (Some (argv ! 1)) s in
        if rc \<noteq> 0 then (Some rc, s) else (Some 0, s))"

definition cmd_config_bmc_default_ip4_nm :: shell_cmd where
  "cmd_config_bmc_default_ip4_nm E argv s =
     (if \<not> is_boot_finished s then (Some (- EAGAIN), s)
      else
        let (rc, s) = config_bmc_default_ip4_nm_set E (Some (argv ! 1)) s in
        if rc \<noteq> 0 then (Some rc, s) else (Some 0, s))"

definition cmd_config_bmc_default_ip4_gw :: shell_cmd where
  "cmd_config_bmc_default_ip4_gw E argv s =
     (if \<not> is_boot_finished s then (Some (- EAGAIN), s)
      else
        let (rc, s) = config_bmc_default_ip4_gw_set E (Some (argv ! 1)) s in
        if rc \<noteq> 0 then (Some rc, s) else (Some 0, s))"

definition cmd_config_bmc_ntp_server :: shell_cmd where
  "cmd_config_bmc_ntp_server E argv s =
     (if \<not> is_boot_finished s then (Some (- EAGAIN), s)
      else
        let (rc, s) = config_bmc_ntp_server_set E (argv ! 1) s in
        if rc \<noteq> 0 then (Some rc, s) else (Some 0, s))"

definition cmd_config_bmc_password :: shell_cmd where
  "cmd_config_bmc_password E argv s =
     (if \<not> is_boot_finished s then (Some (- EAGAIN), s)
      else
        let (rc, s) = config_bmc_password_set E (argv ! 1) s in
        if rc \<noteq> 0 then (Some rc, s) else (Some 0, s))"

section \<open>Commands that ignore the setter's result\<close>

definition cmd_config_bmc_dhcp4 :: shell_cmd where
  "cmd_config_bmc_dhcp4 E argv s =
     (if \<not> is_boot_finished s then (Some (- EAGAIN), s)
      else if c_str (argv ! 1) = ''enable'' then (Some 0, snd (config_bmc_use_dhcp4_set E True s))
      else if c_str (argv ! 1) = ''disable'' then (Some 0, snd (config_bmc_use_dhcp4_set E False s))
      else (Some (- EINVAL), s))"

definition cmd_config_bmc_ntp :: shell_cmd where
  "cmd_config_bmc_ntp E argv s =
     (if \<not> is_boot_finished s then (Some (- EAGAIN), s)
      else if c_str (argv ! 1) = ''enable'' then (Some 0, snd (config_bmc_use_ntp_set E True s))
      else if c_str (argv ! 1) = ''disable'' then (Some 0, snd (config_bmc_use_ntp_set E False s))
      else (Some (- EINVAL), s))"

definition cmd_config_host_auto_poweron :: shell_cmd where
  "cmd_config_host_auto_poweron E argv s =
     (if \<not> is_boot_finished s then (Some (- EAGAIN), s)
      else if c_str (argv ! 1) = ''enable''
        then (Some 0, snd (config_host_auto_poweron_set E True s))
      else if c_str (argv ! 1) = ''disable''
        then (Some 0, snd (config_host_auto_poweron_set E False s))
      else (Some (- EINVAL), s))"

section \<open>Showing and clearing\<close>

definition ip4_atos :: "env \<Rightarrow> ip4 \<Rightarrow> bytes option" where
  "ip4_atos E a = inet_ntop E a"

definition cmd_config_show :: "env \<Rightarrow> bmc \<Rightarrow> bytes list" where
  "cmd_config_show E s =
     (let c = config_data s in
      [''--- Configuration ---'',
       ''BMC hostname: '' @ c_str (bmc_hostname c),
       ''BMC default IPv4 address: '' @ show_str (ip4_atos E (bmc_default_ip4 c)),
       ''BMC default IPv4 subnet mask: '' @ show_str (ip4_atos E (bmc_default_ip4_nm c)),
       ''BMC default IPv4 gateway: '' @ show_str (ip4_atos E (bmc_default_ip4_gw c)),
       ''BMC use DHCPv4: '' @ dec_nat (unat (bmc_use_dhcp4 c)),
       ''BMC use NTP: '' @ dec_nat (unat (bmc_use_ntp c)),
       ''BMC NTP server: '' @ c_str (bmc_ntp_server c),
       ''Host auto poweron: '' @ dec_nat (unat (host_auto_poweron c)),
       ''---------------------''])"

definition cmd_config_clear :: shell_cmd where
  "cmd_config_clear E argv s =
     (if \<not> is_boot_finished s then (Some (- EAGAIN), s)
      else
        let (rc, s) = config_clear E s in
        if rc \<noteq> 0 then (Some rc, s) else (None, bmc_reboot E s))"

text \<open>The sub-commands of \<open>config bmc\<close> and \<open>config host\<close>.\<close>

definition sub_config_bmc_cmds :: "(bytes \<times> shell_cmd) list" where
  "sub_config_bmc_cmds =
     [(''password'', cmd_config_bmc_password),
      (''hostname'', cmd_config_bmc_hostname),
      (''ipv4_address'', cmd_config_bmc_default_ip4),
      (''ipv4_subnet_mask'', cmd_config_bmc_default_ip4_nm),
      (''ipv4_gateway'', cmd_config_bmc_default_ip4_gw),
      (''dhcpv4'', cmd_config_bmc_dhcp4),
      (''ntp'', cmd_config_bmc_ntp),
      (''ntp_server'', cmd_config_bmc_ntp_server)]"

definition sub_config_host_cmds :: "(bytes \<times> shell_cmd) list" where
  "sub_config_host_cmds = [(''auto_poweron'', cmd_config_host_auto_poweron)]"

lemmas cmd_defs = cmd_config_bmc_hostname_def cmd_config_bmc_default_ip4_def
  cmd_config_bmc_default_ip4_nm_def cmd_config_bmc_default_ip4_gw_def
  cmd_config_bmc_ntp_server_def cmd_config_bmc_password_def cmd_config_bmc_dhcp4_def
  cmd_config_bmc_ntp_def cmd_config_host_auto_poweron_def cmd_config_clear_def

section \<open>Properties\<close>

text \<open>Every command that changes the configuration is refused with EAGAIN before the boot
  has finished, and then changes nothing and makes no call. Once the boot has finished, each
  of the settings commands changes the configuration by calling setters only.\<close>

lemma config_commands_guarded:
  assumes "cmd \<in> snd ` set (sub_config_bmc_cmds @ sub_config_host_cmds)"
  shows "if boot_finished s then config_calls E s (snd (cmd E argv s))
    else cmd E argv s = (Some (- EAGAIN), s)"
proof (cases "boot_finished s")
  case True
  have one: "config_call E s rc s' \<Longrightarrow> config_calls E s s'" for rc s'
    by (rule calls_more [OF calls_none])
  have "\<exists>rc. config_call E s rc (snd (cmd E argv s)) \<or> snd (cmd E argv s) = s"
    using assms True
    by (auto simp: sub_config_bmc_cmds_def sub_config_host_cmds_def cmd_defs is_boot_finished_def
        split: prod.split) (metis prod.collapse config_call.intros)+
  then show ?thesis
    using True one calls_none by auto
next
  case False
  then show ?thesis
    using assms by (auto simp: sub_config_bmc_cmds_def sub_config_host_cmds_def cmd_defs
        is_boot_finished_def)
qed

lemma config_commands_guarded_witness:
  "cmd_config_bmc_password ideal_env [''password'', ''secret''] (reset_state []) =
     (Some (- EAGAIN), reset_state [])"
  using config_commands_guarded [of cmd_config_bmc_password "reset_state []" ideal_env
      "[''password'', ''secret'']"]
  by (simp add: sub_config_bmc_cmds_def reset_state_def)

end
