(* ===== verification/Host_Power.thy ===== *)
theory Host_Power
  imports Config_Store Ideal_Env
begin

text \<open>
  Host power (power.c): the power lines, the reset line, the power state the firmware
  reports, the shell commands, and the status LED with its blinking thread. The thread
  blinks for ever; the model gives the state after any number of rounds.
\<close>

section \<open>Power lines\<close>

definition power_get_state :: "bmc \<Rightarrow> bool" where
  "power_get_state s = system_power_state s"

text \<open>The loop over \<open>power_gpios\<close>, which stops at the first line that cannot be set.\<close>

fun set_power_gpios :: "env \<Rightarrow> int \<Rightarrow> nat list \<Rightarrow> bmc \<Rightarrow> int \<times> bmc" where
  "set_power_gpios E v [] s = (0, s)"
| "set_power_gpios E v (i # is) s =
     (let (ret, s) = ext E (Gpio (GpioSet (PowerGpio i) v)) s in
      if ret < 0 then (- 1, s) else set_power_gpios E v is s)"

definition power_on :: "env \<Rightarrow> bmc \<Rightarrow> int \<times> bmc" where
  "power_on E s =
     (let (ret, s) = set_power_gpios E 1 [0..<POWER_GPIOS E] s in
      if ret < 0 then (ret, s) else (0, s\<lparr>system_power_state := True\<rparr>))"

definition power_off :: "env \<Rightarrow> bmc \<Rightarrow> int \<times> bmc" where
  "power_off E s =
     (let (ret, s) = set_power_gpios E 0 [0..<POWER_GPIOS E] s in
      if ret < 0 then (ret, s) else (0, s\<lparr>system_power_state := False\<rparr>))"

definition power_set_state :: "env \<Rightarrow> bool \<Rightarrow> bmc \<Rightarrow> bmc" where
  "power_set_state E on s = (if on then snd (power_on E s) else snd (power_off E s))"

fun configure_power_gpios :: "env \<Rightarrow> nat list \<Rightarrow> bmc \<Rightarrow> int \<times> bmc" where
  "configure_power_gpios E [] s = (0, s)"
| "configure_power_gpios E (i # is) s =
     (let (ready, s) = ext E (Gpio (GpioReady (PowerGpio i))) s in
      if ready = 0 then (- 1, s)
      else
        let (ret, s) = ext E (Gpio (GpioConfigure (PowerGpio i) GPIO_OUTPUT_INACTIVE)) s in
        if ret < 0 then (- 1, s) else configure_power_gpios E is s)"

definition power_init :: "env \<Rightarrow> bmc \<Rightarrow> int \<times> bmc" where
  "power_init E s =
     (let (ret, s) = configure_power_gpios E [0..<POWER_GPIOS E] s in
      if ret < 0 then (ret, s)
      else if config_host_auto_poweron s then power_on E s
      else (0, s))"

definition cmd_power_on :: "env \<Rightarrow> bmc \<Rightarrow> int \<times> bmc" where
  "cmd_power_on E s = power_on E s"

definition cmd_power_off :: "env \<Rightarrow> bmc \<Rightarrow> int \<times> bmc" where
  "cmd_power_off E s = power_off E s"

section \<open>Reset line\<close>

definition reset_init :: "env \<Rightarrow> bmc \<Rightarrow> int \<times> bmc" where
  "reset_init E s =
     (if \<not> HAS_GPIO_RESET E then (0, s)
      else
        let (ready, s) = ext E (Gpio (GpioReady GpioReset)) s in
        if ready = 0 then (- 1, s)
        else
          let (ret, s) = ext E (Gpio (GpioConfigure GpioReset GPIO_OUTPUT_ACTIVE)) s in
          if ret < 0 then (- 1, s)
          else
            let (ret, s) = ext E (Gpio (GpioSet GpioReset 0)) s in
            if ret < 0 then (- 1, s) else (0, s))"

definition power_reset :: "env \<Rightarrow> bmc \<Rightarrow> int \<times> bmc" where
  "power_reset E s =
     (if \<not> HAS_GPIO_RESET E then (- 1, s)
      else
        let (ret, s) = ext E (Gpio (GpioSet GpioReset 1)) s in
        if ret < 0 then (- 1, s)
        else
          let s = ext_ignore E (Kernel (KMsleep 1000)) s;
              (ret, s) = ext E (Gpio (GpioSet GpioReset 0)) s
          in if ret < 0 then (- 1, s) else (0, s))"

definition cmd_reset :: "env \<Rightarrow> bmc \<Rightarrow> int \<times> bmc" where
  "cmd_reset E s = power_reset E s"

section \<open>Status LED\<close>

definition LED_BLINK_PERIOD_DOT :: nat where "LED_BLINK_PERIOD_DOT = 250"
definition LED_BLINK_PERIOD_DASH :: nat where "LED_BLINK_PERIOD_DASH = 3 * LED_BLINK_PERIOD_DOT"
definition LED_BLINK_PERIOD_PAUSE :: nat where "LED_BLINK_PERIOD_PAUSE = LED_BLINK_PERIOD_DOT"
definition LED_BLINK_PERIOD_LETTER :: nat where
  "LED_BLINK_PERIOD_LETTER = 3 * LED_BLINK_PERIOD_DOT"
definition LED_BLINK_PERIOD_WORD :: nat where "LED_BLINK_PERIOD_WORD = 7 * LED_BLINK_PERIOD_DOT"

definition led_dash :: "env \<Rightarrow> bmc \<Rightarrow> bmc" where
  "led_dash E s =
     (let s = ext_ignore E (Gpio (GpioSet StatusLed 1)) s;
          s = ext_ignore E (Kernel (KMsleep LED_BLINK_PERIOD_DASH)) s;
          s = ext_ignore E (Gpio (GpioSet StatusLed 0)) s
      in ext_ignore E (Kernel (KMsleep LED_BLINK_PERIOD_PAUSE)) s)"

definition led_dot :: "env \<Rightarrow> bmc \<Rightarrow> bmc" where
  "led_dot E s =
     (let s = ext_ignore E (Gpio (GpioSet StatusLed 1)) s;
          s = ext_ignore E (Kernel (KMsleep LED_BLINK_PERIOD_DOT)) s;
          s = ext_ignore E (Gpio (GpioSet StatusLed 0)) s
      in ext_ignore E (Kernel (KMsleep LED_BLINK_PERIOD_PAUSE)) s)"

text \<open>One round of the loop: O, K, pause.\<close>

definition led_blink_round :: "env \<Rightarrow> bmc \<Rightarrow> bmc" where
  "led_blink_round E s =
     (let s = led_dash E (led_dash E (led_dash E s));
          s = ext_ignore E (Kernel (KMsleep LED_BLINK_PERIOD_LETTER)) s;
          s = led_dash E (led_dot E (led_dash E s))
      in ext_ignore E (Kernel (KMsleep LED_BLINK_PERIOD_WORD)) s)"

definition led_blink_thread :: "env \<Rightarrow> nat \<Rightarrow> bmc \<Rightarrow> bmc" where
  "led_blink_thread E rounds s =
     (let (ready, s) = ext E (Gpio (GpioReady StatusLed)) s in
      if ready = 0 then s else (led_blink_round E ^^ rounds) s)"

definition status_led_init :: "env \<Rightarrow> bmc \<Rightarrow> int \<times> bmc" where
  "status_led_init E s =
     (if \<not> HAS_STATUS_LED E then (0, s)
      else
        let (ready, s) = ext E (Gpio (GpioReady StatusLed)) s in
        if ready \<noteq> 0 then
          let (ret, s) = ext E (Gpio (GpioConfigure StatusLed GPIO_OUTPUT_INACTIVE)) s in
          if ret < 0 then (- 1, s)
          else (let s = ext_ignore E (Kernel (ThreadCreate ''led_blink'')) s in (0, s))
        else (- 1, s))"

section \<open>What the loops do\<close>

abbreviation power_line :: "int \<Rightarrow> nat \<Rightarrow> call" where
  "power_line v i \<equiv> Gpio (GpioSet (PowerGpio i) v)"

lemma set_power_gpios_runs:
  "set_power_gpios E v is s = (rc, s') \<Longrightarrow>
   \<exists>k \<le> length is.
     s' = s\<lparr>trace := rev (map (power_line v) (take k is)) @ trace s\<rparr> \<and>
     (rc = 0 \<and> k = length is \<or>
      rc = - 1 \<and> 0 < k \<and>
        zret E (tl (trace s')) (power_line v (is ! (k - 1))) < 0)"
proof (induction "is" arbitrary: s)
  case Nil
  then show ?case
    by simp
next
  case (Cons i "is")
  let ?c = "Gpio (GpioSet (PowerGpio i) v)"
  let ?s1 = "s\<lparr>trace := ?c # trace s\<rparr>"
  show ?case
  proof (cases "zret E (trace s) ?c < 0")
    case True
    then show ?thesis
      using Cons.prems by (intro exI [of _ 1]) (auto simp: ext_def)
  next
    case False
    then have run: "set_power_gpios E v is ?s1 = (rc, s')"
      using Cons.prems by (simp add: ext_def)
    from Cons.IH [OF this] obtain k where k: "k \<le> length is"
      "s' = ?s1\<lparr>trace := rev (map (power_line v) (take k is)) @ trace ?s1\<rparr>"
      "rc = 0 \<and> k = length is \<or> rc = - 1 \<and> 0 < k \<and>
        zret E (tl (trace s')) (power_line v (is ! (k - 1))) < 0"
      by blast
    then show ?thesis
      by (intro exI [of _ "Suc k"]) (auto simp: nth_Cons')
  qed
qed

lemma set_power_gpios_io [io_intro]:
  "\<forall>c. P (Gpio c) \<Longrightarrow> only_io P s t \<Longrightarrow> only_io P s (snd (set_power_gpios E v is t))"
proof (induction "is" arbitrary: t)
  case (Cons i "is")
  note ih = Cons.IH [OF Cons.prems(1)]
  show ?case
    using Cons.prems by (auto intro!: io_intro ih)
qed simp

lemma configure_power_gpios_io [io_intro]:
  "\<forall>c. P (Gpio c) \<Longrightarrow> only_io P s t \<Longrightarrow> only_io P s (snd (configure_power_gpios E is t))"
proof (induction "is" arbitrary: t)
  case (Cons i "is")
  note ih = Cons.IH [OF Cons.prems(1)]
  show ?case
    using Cons.prems by (auto simp: Let_def intro!: io_intro ih)
qed simp

lemma reset_io [io_intro]:
  "\<forall>c. P (Gpio c) \<Longrightarrow> \<forall>c. P (Kernel c) \<Longrightarrow> only_io P s t \<Longrightarrow> only_io P s (snd (power_reset E t))"
  "\<forall>c. P (Gpio c) \<Longrightarrow> only_io P s t \<Longrightarrow> only_io P s (snd (reset_init E t))"
  "\<forall>c. P (Gpio c) \<Longrightarrow> \<forall>c. P (Kernel c) \<Longrightarrow> only_io P s t \<Longrightarrow> only_io P s (snd (status_led_init E t))"
  by (auto simp: power_reset_def reset_init_def status_led_init_def Let_def intro!: io_intro)

interpretation power_reset: io_op no_nvs "\<lambda>s. snd (power_reset E s)" for E
  by unfold_locales (auto intro!: io_intro)

section \<open>Properties\<close>

text \<open>C22: Switching the host on or off sets the power lines one after the other and stops at
  the first that cannot be set. The reported power state changes exactly when all lines were
  set; when one fails the call returns -1 and the reported state is the old one, although
  the lines before the failing one have been switched. Nothing else happens.\<close>

theorem power_switch_effect:
  assumes "(if on then power_on E s else power_off E s) = (rc, s')"
  shows "\<exists>k \<le> POWER_GPIOS E.
    trace s' = rev (map (power_line (if on then 1 else 0)) [0..<k]) @ trace s \<and>
    (rc = 0 \<and> k = POWER_GPIOS E \<and> s' = s\<lparr>trace := trace s', system_power_state := on\<rparr> \<or>
     rc = - 1 \<and> 0 < k \<and>
       zret E (tl (trace s')) (power_line (if on then 1 else 0) (k - 1)) < 0 \<and>
       s' = s\<lparr>trace := trace s'\<rparr>)"
proof -
  let ?v = "if on then 1 else 0"
  obtain r t where run: "set_power_gpios E ?v [0..<POWER_GPIOS E] s = (r, t)"
    by fastforce
  have eq: "r < 0 \<Longrightarrow> rc = r \<and> s' = t" "\<not> r < 0 \<Longrightarrow> rc = 0 \<and> s' = t\<lparr>system_power_state := on\<rparr>"
    using assms run by (cases on; auto simp: power_on_def power_off_def)+
  from set_power_gpios_runs [OF run] obtain k where k: "k \<le> length [0..<POWER_GPIOS E] \<and>
      t = s\<lparr>trace := rev (map (power_line ?v) (take k [0..<POWER_GPIOS E])) @ trace s\<rparr> \<and>
      (r = 0 \<and> k = length [0..<POWER_GPIOS E] \<or>
       r = - 1 \<and> 0 < k \<and> zret E (tl (trace t)) (power_line ?v ([0..<POWER_GPIOS E] ! (k - 1))) < 0)"
    by (rule exE)
  then have up: "take k [0..<POWER_GPIOS E] = [0..<k]"
    by (simp add: take_upt)
  show ?thesis
  proof (cases "r < 0")
    case True
    then have r: "r = - 1 \<and> 0 < k \<and>
        zret E (tl (trace t)) (power_line ?v ([0..<POWER_GPIOS E] ! (k - 1))) < 0"
      using k by (cases "r = 0") (simp, blast)
    have "0 < k" and "k \<le> POWER_GPIOS E"
      using r k by simp_all
    then have "[0..<POWER_GPIOS E] ! (k - 1) = k - 1"
      by simp
    with r eq(1) [OF True] have "rc = - 1" "s' = t" "0 < k"
      "zret E (tl (trace t)) (power_line ?v (k - 1)) < 0"
      by auto
    moreover have "t = s\<lparr>trace := rev (map (power_line ?v) [0..<k]) @ trace s\<rparr>" and "k \<le> POWER_GPIOS E"
      using k up by simp_all
    ultimately show ?thesis
      by (intro exI [of _ k]) simp
  next
    case False
    then have "rc = 0" "s' = t\<lparr>system_power_state := on\<rparr>" "k = POWER_GPIOS E"
      using k eq by auto
    with k up show ?thesis
      by (intro exI [of _ k]) simp
  qed
qed

lemma power_switch_effect_witness:
  "trace (snd (power_on ideal_env (reset_state []))) =
     [Gpio (GpioSet (PowerGpio 1) 1), Gpio (GpioSet (PowerGpio 0) 1)]"
proof -
  have run: "(if True then power_on ideal_env (reset_state []) else power_off ideal_env (reset_state []))
      = (fst (power_on ideal_env (reset_state [])), snd (power_on ideal_env (reset_state [])))"
    by simp
  have n: "POWER_GPIOS ideal_env = 2"
    by (simp add: ideal_env_def)
  have "fst (power_on ideal_env (reset_state [])) = 0"
    by (simp add: power_on_def n numeral_2_eq_2 ext_def ideal_env_def ideal_ret_def)
  then show ?thesis
    using power_switch_effect [OF run] n by (auto simp: numeral_2_eq_2 reset_state_def)
qed

text \<open>A reset pulses the reset line: on success the line was asserted, held for one second
  and released, and nothing else happened. Where it fails, either the line was never asserted
  or its release failed, which leaves it asserted; the power state stays in every case.\<close>

lemma power_reset_pulse:
  assumes "power_reset E s = (rc, s')"
  shows "system_power_state s' = system_power_state s \<and>
    (rc = 0 \<and> trace s' = [Gpio (GpioSet GpioReset 0), Kernel (KMsleep 1000),
        Gpio (GpioSet GpioReset 1)] @ trace s \<or>
     rc = - 1 \<and> (\<not> HAS_GPIO_RESET E \<and> s' = s \<or>
       HAS_GPIO_RESET E \<and> zret E (tl (trace s')) (hd (trace s')) < 0 \<and>
       (hd (trace s') = Gpio (GpioSet GpioReset 1) \<or> hd (trace s') = Gpio (GpioSet GpioReset 0))))"
  using assms by (auto simp: power_reset_def ext_def ext_ignore_eq Let_def split: if_splits)

lemma power_reset_pulse_witness:
  "length (trace (snd (power_reset ideal_env (reset_state [])))) = 3"
proof -
  have run: "power_reset ideal_env (reset_state []) =
      (0, snd (power_reset ideal_env (reset_state [])))"
    by (simp add: power_reset_def ext_def ext_ignore_eq Let_def ideal_env_def ideal_ret_def)
  show ?thesis
    using power_reset_pulse [OF run] by (simp add: reset_state_def)
qed

end
