(* ===== verification/Button.thy ===== *)
theory Button
  imports Config_Shell
begin

text \<open>
  The reset button (button.c): an edge interrupt schedules a debounce work item, which
  schedules the reset when the button is pressed and cancels it when it is released; the
  reset clears the configuration and reboots if the button is still held. What the work
  queue does with a scheduled item is Zephyr's; the step relation \<open>button_step\<close> states it.
\<close>

section \<open>Handlers\<close>

definition RESET_HOLD_TIME_MS :: nat where "RESET_HOLD_TIME_MS = 1000"
definition DEBOUNCE_TIME_MS :: nat where "DEBOUNCE_TIME_MS = 1"

definition reset_work_fn :: "env \<Rightarrow> bmc \<Rightarrow> bmc" where
  "reset_work_fn E s =
     (let (val, s) = ext E (Gpio (GpioGet Button)) s in
      if val \<noteq> 1 then s
      else
        let (rc, s) = config_clear E s in
        if rc \<noteq> 0 then s else bmc_reboot E s)"

definition button_work_fn :: "env \<Rightarrow> bmc \<Rightarrow> bmc" where
  "button_work_fn E s =
     (let (val, s) = ext E (Gpio (GpioGet Button)) s in
      if val = 1 then ext_ignore E (Kernel (WorkSchedule ResetWork RESET_HOLD_TIME_MS)) s
      else if val = 0 then ext_ignore E (Kernel (WorkCancel ResetWork)) s
      else s)"

definition button_pressed :: "env \<Rightarrow> bmc \<Rightarrow> bmc" where
  "button_pressed E s = ext_ignore E (Kernel (WorkSchedule ButtonWork DEBOUNCE_TIME_MS)) s"

definition button_init :: "env \<Rightarrow> bmc \<Rightarrow> int \<times> bmc" where
  "button_init E s =
     (if \<not> HAS_RESET_BUTTON E then (0, s)
      else
        let (ready, s) = ext E (Gpio (GpioReady Button)) s in
        if ready = 0 then (- ENOSYS, s)
        else
          let (ret, s) = ext E (Gpio (GpioConfigure Button GPIO_INPUT)) s in
          if ret \<noteq> 0 then (ret, s)
          else
            let (ret, s) = ext E (Gpio (GpioInterruptEdgeBoth Button)) s in
            if ret \<noteq> 0 then (ret, s)
            else (let s = ext_ignore E (Gpio (GpioAddCallback Button)) s in (0, s)))"

section \<open>The button over time\<close>

text \<open>Time in milliseconds, the due times of the two delayable work items, the level of the
  pin, the firmware, and the levels the debounce handler has seen, with their times (latest
  first). \<open>k_work_schedule\<close> on an item that is already pending does nothing.\<close>

record button_sys =
  now :: nat
  button_due :: "nat option"
  reset_due :: "nat option"
  pressed :: bool
  samples :: "(nat \<times> bool) list"
  fw :: bmc
  rebooted :: bool

text \<open>What one call of a handler means to the work queue.\<close>

fun queue_call :: "call \<Rightarrow> button_sys \<Rightarrow> button_sys" where
  "queue_call (Kernel (WorkSchedule ButtonWork d)) b =
     (case button_due b of None \<Rightarrow> b\<lparr>button_due := Some (now b + d)\<rparr> | Some t \<Rightarrow> b)"
| "queue_call (Kernel (WorkSchedule ResetWork d)) b =
     (case reset_due b of None \<Rightarrow> b\<lparr>reset_due := Some (now b + d)\<rparr> | Some t \<Rightarrow> b)"
| "queue_call (Kernel (WorkCancel ResetWork)) b = b\<lparr>reset_due := None\<rparr>"
| "queue_call (Kernel (SysReboot r)) b = b\<lparr>rebooted := True\<rparr>"
| "queue_call c b = b"

definition run_handler :: "(bmc \<Rightarrow> bmc) \<Rightarrow> button_sys \<Rightarrow> button_sys" where
  "run_handler f b =
     foldr queue_call (new_calls (fw b) (f (fw b))) (b\<lparr>fw := f (fw b)\<rparr>)"

text \<open>The driver reports the level of the pin.\<close>

definition reads_pin :: "env \<Rightarrow> button_sys \<Rightarrow> bool" where
  "reads_pin E b \<longleftrightarrow>
     zret E (trace (fw b)) (Gpio (GpioGet Button)) = (if pressed b then 1 else 0)"

definition before_due :: "nat \<Rightarrow> nat option \<Rightarrow> bool" where
  "before_due t due = (case due of None \<Rightarrow> True | Some d \<Rightarrow> t < d)"

text \<open>Time passes while no item is due; the pin changes its level, which raises the
  interrupt; an item runs when it is due.\<close>

inductive button_step :: "env \<Rightarrow> button_sys \<Rightarrow> button_sys \<Rightarrow> bool" for E where
  tick: "before_due (now b) (button_due b) \<Longrightarrow> before_due (now b) (reset_due b) \<Longrightarrow>
    \<not> rebooted b \<Longrightarrow> button_step E b (b\<lparr>now := Suc (now b)\<rparr>)"
| edge: "\<not> rebooted b \<Longrightarrow>
    button_step E b (run_handler (button_pressed E) (b\<lparr>pressed := \<not> pressed b\<rparr>))"
| debounced: "button_due b = Some (now b) \<Longrightarrow> \<not> rebooted b \<Longrightarrow> reads_pin E b \<Longrightarrow>
    button_step E b (run_handler (button_work_fn E)
      (b\<lparr>button_due := None, samples := (now b, pressed b) # samples b\<rparr>))"
| held: "reset_due b = Some (now b) \<Longrightarrow> \<not> rebooted b \<Longrightarrow> reads_pin E b \<Longrightarrow>
    button_step E b (run_handler (reset_work_fn E) (b\<lparr>reset_due := None\<rparr>))"

inductive button_reach :: "env \<Rightarrow> button_sys \<Rightarrow> button_sys \<Rightarrow> bool" for E where
  reach_refl: "button_reach E b b"
| reach_step: "button_reach E b c \<Longrightarrow> button_step E c d \<Longrightarrow> button_reach E b d"

section \<open>What the handlers do to the queue\<close>

text \<open>A handler whose calls, apart from a restart, do not concern the queue.\<close>

definition no_queue :: "call \<Rightarrow> bool" where
  "no_queue c \<longleftrightarrow> (\<forall>w d. c \<noteq> Kernel (WorkSchedule w d)) \<and> (\<forall>w. c \<noteq> Kernel (WorkCancel w))"

lemma queue_calls_none:
  assumes "\<forall>c \<in> set cs. no_queue c"
  shows "\<exists>r. foldr queue_call cs b = b\<lparr>rebooted := r\<rparr>"
  using assms
proof (induction cs)
  case Nil
  show ?case
    by (simp add: exI [of _ "rebooted b"])
next
  case (Cons c cs)
  then obtain r where "foldr queue_call cs b = b\<lparr>rebooted := r\<rparr>"
    by auto
  moreover have "queue_call c x = x \<or> queue_call c x = x\<lparr>rebooted := True\<rparr>" for x
    using Cons.prems by (cases "(c, x)" rule: queue_call.cases) (auto simp: no_queue_def)
  ultimately show ?case
    by (metis (no_types, lifting) button_sys.update_convs(7) button_sys.surjective foldr_Cons o_apply)
qed

lemma reset_work_calls:
  "\<exists>cs. trace (reset_work_fn E s) = cs @ trace s \<and> (\<forall>c \<in> set cs. no_queue c) \<and>
     (zret E (trace s) (Gpio (GpioGet Button)) \<noteq> 1 \<longrightarrow> cs = [Gpio (GpioGet Button)])"
proof -
  let ?s1 = "s\<lparr>trace := Gpio (GpioGet Button) # trace s\<rparr>"
  obtain rc s2 where c: "config_clear E ?s1 = (rc, s2)"
    by fastforce
  have "only_io no_queue ?s1 s2"
    using cfg.clr_io [of no_queue ?s1 ?s1 E] c by (simp add: no_queue_def)
  moreover have "only_io no_queue (snd (fs_exit E s2)) (bmc_reboot E s2)"
    by (rule bmc_reboot_only_io) (simp_all add: no_queue_def)
  moreover have "trace (snd (fs_exit E s2)) = trace s2"
    by (simp add: fs_exit_def umount_fs_def)
  ultimately show ?thesis
    using c by (fastforce simp: reset_work_fn_def ext_def no_queue_def elim!: only_ioE)
qed

text \<open>The effect of the three handlers on the whole system.\<close>

lemma run_pressed:
  "run_handler (button_pressed E) b =
     b\<lparr>fw := button_pressed E (fw b),
       button_due := (case button_due b of None \<Rightarrow> Some (now b + DEBOUNCE_TIME_MS) | Some t \<Rightarrow> Some t)\<rparr>"
  by (auto simp: run_handler_def new_calls_def button_pressed_def ext_ignore_eq split: option.split)

lemma run_button_work:
  "reads_pin E b \<Longrightarrow> run_handler (button_work_fn E) b =
     b\<lparr>fw := button_work_fn E (fw b),
       reset_due := (if \<not> pressed b then None else
         case reset_due b of None \<Rightarrow> Some (now b + RESET_HOLD_TIME_MS) | Some t \<Rightarrow> Some t)\<rparr>"
  by (auto simp: run_handler_def new_calls_def button_work_fn_def reads_pin_def ext_def
      ext_ignore_eq split: option.split)

lemma run_reset_work:
  "reads_pin E b \<Longrightarrow> \<exists>r. run_handler (reset_work_fn E) b =
     b\<lparr>fw := reset_work_fn E (fw b), rebooted := r\<rparr> \<and> (\<not> pressed b \<longrightarrow> r = rebooted b)"
proof -
  assume pin: "reads_pin E b"
  obtain cs where cs: "trace (reset_work_fn E (fw b)) = cs @ trace (fw b)"
    "\<forall>c \<in> set cs. no_queue c"
    "zret E (trace (fw b)) (Gpio (GpioGet Button)) \<noteq> 1 \<longrightarrow> cs = [Gpio (GpioGet Button)]"
    using reset_work_calls [of E "fw b"] by blast
  obtain r where r: "foldr queue_call cs (b\<lparr>fw := reset_work_fn E (fw b)\<rparr>) =
      b\<lparr>fw := reset_work_fn E (fw b), rebooted := r\<rparr>"
    using queue_calls_none [OF cs(2), of "b\<lparr>fw := reset_work_fn E (fw b)\<rparr>"] by auto
  show ?thesis
  proof (cases "pressed b")
    case True
    then show ?thesis
      using r by (auto simp: run_handler_def new_calls_eq [OF cs(1)])
  next
    case False
    then have "cs = [Gpio (GpioGet Button)]"
      using pin cs(3) by (simp add: reads_pin_def)
    then show ?thesis
      using False by (intro exI [of _ "rebooted b"]) (simp add: run_handler_def new_calls_eq [OF cs(1)])
  qed
qed

section \<open>The hold time\<close>

text \<open>The debounce handler has seen the button pressed at time \<open>t\<close> and not released since.\<close>

definition pressed_since :: "button_sys \<Rightarrow> nat \<Rightarrow> bool" where
  "pressed_since b t \<longleftrightarrow>
     (t, True) \<in> set (samples b) \<and> (\<forall>(t', v) \<in> set (samples b). t \<le> t' \<longrightarrow> v)"

definition button_inv :: "button_sys \<Rightarrow> bool" where
  "button_inv b \<longleftrightarrow>
     (\<forall>(t, v) \<in> set (samples b). t \<le> now b \<and> (\<forall>d. button_due b = Some d \<longrightarrow> t < d)) \<and>
     (\<forall>d. button_due b = Some d \<longrightarrow> now b \<le> d) \<and>
     (\<forall>d. reset_due b = Some d \<longrightarrow>
        now b \<le> d \<and> (\<exists>t. d = t + RESET_HOLD_TIME_MS \<and> pressed_since b t)) \<and>
     (rebooted b \<longrightarrow> pressed b \<and> (\<exists>t. now b = t + RESET_HOLD_TIME_MS \<and> pressed_since b t))"

lemma button_step_inv: "button_step E b c \<Longrightarrow> button_inv b \<Longrightarrow> button_inv c"
proof (induction rule: button_step.induct)
  case (tick b)
  then show ?case
    by (auto simp: button_inv_def before_due_def pressed_since_def)
next
  case (edge b)
  then show ?case
    unfolding run_pressed
    by (auto simp: button_inv_def pressed_since_def DEBOUNCE_TIME_MS_def split: option.split)
next
  case (debounced b)
  let ?b = "b\<lparr>button_due := None, samples := (now b, pressed b) # samples b\<rparr>"
  have pin: "reads_pin E ?b"
    using debounced by (simp add: reads_pin_def)
  have old: "t < now b" if "(t, v) \<in> set (samples b)" for t v
    using debounced that by (fastforce simp: button_inv_def)
  have since: "pressed_since ?b t" if "pressed_since b t" and "pressed b" for t
    using that by (auto simp: pressed_since_def)
  have fresh: "pressed_since ?b (now b)" if "pressed b"
    using that old by (fastforce simp: pressed_since_def)
  show ?case
    unfolding run_button_work [OF pin] using debounced old since fresh
    by (auto simp: button_inv_def pressed_since_def split: option.splits)
next
  case (held b)
  let ?b = "b\<lparr>reset_due := None\<rparr>"
  have pin: "reads_pin E ?b"
    using held by (simp add: reads_pin_def)
  from run_reset_work [OF this] obtain r where r: "run_handler (reset_work_fn E) ?b =
      ?b\<lparr>fw := reset_work_fn E (fw ?b), rebooted := r\<rparr>" "\<not> pressed b \<longrightarrow> r = rebooted b"
    by auto
  then show ?case
    using held by (auto simp: button_inv_def pressed_since_def)
qed

definition button_initial :: "button_sys \<Rightarrow> bool" where
  "button_initial b \<longleftrightarrow> button_due b = None \<and> reset_due b = None \<and> samples b = [] \<and> \<not> rebooted b"

lemma button_reach_inv: "button_reach E b c \<Longrightarrow> button_inv b \<Longrightarrow> button_inv c"
  by (induction rule: button_reach.induct) (auto dest: button_step_inv)

text \<open>A concrete run: press, debounce, hold for a second.\<close>

lemma reach_ticks:
  assumes "button_reach E a b" and "\<forall>d. button_due b = Some d \<longrightarrow> now b + n \<le> d"
    and "\<forall>d. reset_due b = Some d \<longrightarrow> now b + n \<le> d" and "\<not> rebooted b"
  shows "button_reach E a (b\<lparr>now := now b + n\<rparr>)"
  using assms(2,3)
proof (induction n)
  case 0
  then show ?case
    using assms(1) by simp
next
  case (Suc n)
  let ?c = "b\<lparr>now := now b + n\<rparr>"
  have "button_reach E a ?c"
    by (rule Suc.IH) (use Suc.prems in auto)
  moreover have "button_step E ?c (?c\<lparr>now := Suc (now ?c)\<rparr>)"
    using Suc.prems assms(4) by (intro tick) (auto simp: before_due_def split: option.split)
  ultimately show ?case
    using reach_step by fastforce
qed

definition held_env :: env where
  "held_env = ideal_env\<lparr>zret := \<lambda>h c. if c = Gpio (GpioGet Button) then 1 else ideal_ret h c\<rparr>"

definition idle_button :: button_sys where
  "idle_button = \<lparr>now = 0, button_due = None, reset_due = None, pressed = False, samples = [],
     fw = (reset_state [])\<lparr>fs_is_enabled := True\<rparr>, rebooted = False\<rparr>"

lemma held_clear: "config_clear held_env s = (if fs_is_enabled s
    then (0, s\<lparr>trace := Nvs NvsClear # trace s\<rparr>) else (- ENODEV, s))"
  by (simp add: config_clear_def fs_clear_def fs_enabled_def fs_clear_again_retry
      retry_call_ok held_env_def ideal_env_def ideal_ret_def)

section \<open>Properties\<close>

text \<open>C16: The button clears the configuration and restarts the BMC only after it was held. In
  every run from a state with no work scheduled, whenever the BMC restarts, the debounce
  handler had seen the button pressed exactly one hold time before, it has not seen it
  released since, and the button is pressed at that moment.\<close>

theorem button_reset_needs_hold:
  assumes "button_initial b0" and "button_reach E b0 b" and "rebooted b"
  shows "pressed b \<and> (\<exists>t. now b = t + RESET_HOLD_TIME_MS \<and> pressed_since b t)"
proof -
  have "button_inv b0"
    using assms(1) by (simp add: button_initial_def button_inv_def)
  then show ?thesis
    using button_reach_inv [OF assms(2)] assms(3) by (simp add: button_inv_def)
qed

lemma button_reset_needs_hold_witness:
  "\<exists>b. button_reach held_env idle_button b \<and> rebooted b \<and> now b = 1 + RESET_HOLD_TIME_MS \<and>
     (\<exists>t. now b = t + RESET_HOLD_TIME_MS \<and> pressed_since b t)"
proof -
  let ?E = held_env
  define b1 where "b1 = run_handler (button_pressed ?E) (idle_button\<lparr>pressed := True\<rparr>)"
  define b2 where "b2 = b1\<lparr>now := now b1 + 1\<rparr>"
  define b3 where "b3 = run_handler (button_work_fn ?E)
    (b2\<lparr>button_due := None, samples := (now b2, pressed b2) # samples b2\<rparr>)"
  define b4 where "b4 = b3\<lparr>now := now b3 + 1000\<rparr>"
  define b5 where "b5 = run_handler (reset_work_fn ?E) (b4\<lparr>reset_due := None\<rparr>)"
  have pin: "reads_pin ?E b" if "pressed b" for b
    using that by (simp add: reads_pin_def held_env_def)
  have b2: "b2 = idle_button\<lparr>pressed := True, now := 1, button_due := Some 1,
      fw := button_pressed ?E (fw idle_button)\<rparr>"
    by (simp add: b2_def b1_def run_pressed idle_button_def DEBOUNCE_TIME_MS_def)
  have b3: "b3 = b2\<lparr>button_due := None, samples := [(1, True)], reset_due := Some 1001,
      fw := button_work_fn ?E (fw b2)\<rparr>"
    using pin [of "b2\<lparr>button_due := None, samples := (now b2, pressed b2) # samples b2\<rparr>"]
    by (simp add: b3_def run_button_work b2 idle_button_def RESET_HOLD_TIME_MS_def)
  have "button_reach ?E idle_button b1"
    using reach_step [OF reach_refl edge, of idle_button ?E] by (simp add: b1_def idle_button_def)
  then have "button_reach ?E idle_button b2"
    unfolding b2_def by (rule reach_ticks)
      (simp_all add: b1_def run_pressed idle_button_def DEBOUNCE_TIME_MS_def)
  then have "button_reach ?E idle_button b3"
    unfolding b3_def by (rule reach_step) (rule debounced, simp_all add: b2 pin idle_button_def)
  then have "button_reach ?E idle_button b4"
    unfolding b4_def by (rule reach_ticks) (simp_all add: b3 b2 idle_button_def)
  then have reach: "button_reach ?E idle_button b5"
    unfolding b5_def by (rule reach_step) (rule held, simp_all add: b4_def b3 b2 pin idle_button_def)
  have fs: "fs_is_enabled (fw b4)"
    by (simp add: b4_def b3 b2 idle_button_def button_work_fn_def button_pressed_def ext_def
        ext_ignore_eq held_env_def)
  have "trace (reset_work_fn ?E (fw b4)) = [Kernel (SysReboot SYS_REBOOT_WARM),
      Kernel (KMsleep 100), Kernel LogPanic, Nvs NvsClear, Gpio (GpioGet Button)] @ trace (fw b4)"
    using fs by (simp add: reset_work_fn_def held_clear bmc_reboot_def fs_exit_def umount_fs_def
        ext_def ext_ignore_eq) (simp add: held_env_def ideal_env_def ext_ignore_eq)
  from new_calls_eq [OF this] have "rebooted b5" and now5: "now b5 = 1001"
    by (simp_all add: b5_def run_handler_def b4_def b3 b2 idle_button_def)
  with reach show ?thesis
    using button_reset_needs_hold [of idle_button ?E b5]
    by (intro exI [of _ b5]) (simp add: button_initial_def idle_button_def RESET_HOLD_TIME_MS_def)
qed



end
