(* ===== verification/Sensors_Vpd.thy ===== *)
theory Sensors_Vpd
  imports Config_Shell
begin

text \<open>
  The die temperature (sensors.c) and the vital product data (vpd.c): the UUID of the BMC is
  derived from the device identifier, or a constant where \<open>CONFIG_APP_BMC_UUID\<close> is not set.
  The UUID functions and the sensor driver are Zephyr's.
\<close>

section \<open>Sensors\<close>

text \<open>The value is meaningful only where the result is 0.\<close>

definition read_die_temperature :: "env \<Rightarrow> bmc \<Rightarrow> int \<times> (int \<times> int) \<times> bmc" where
  "read_die_temperature E s =
     (if \<not> (CONFIG_APP_SENSORS E \<and> HAS_DIE_TEMP E) then (- ENODEV, (0, 0), s)
      else
        let (ready, s) = ext E (Sensor SensorReady) s in
        if ready = 0 then (- EIO, (0, 0), s)
        else
          let (rc, s) = ext E (Sensor SensorFetch) s in
          if rc \<noteq> 0 then (rc, (0, 0), s)
          else
            let val = die_temp E (trace s); (rc, s) = ext E (Sensor SensorGet) s in
            if rc \<noteq> 0 then (rc, (0, 0), s) else (0, val, s))"

text \<open>The text after the sensor's name.\<close>

definition cmd_show_sensors :: "env \<Rightarrow> bmc \<Rightarrow> int \<times> bytes \<times> bmc" where
  "cmd_show_sensors E s =
     (if \<not> is_boot_finished s then (- EAGAIN, [], s)
      else
        let (rc, val, s) = read_die_temperature E s in
        if rc \<noteq> 0 then (rc, [], s)
        else (0, dec_int (fst val) @ ''.'' @ dec_int (sgn (snd val) * (\<bar>snd val\<bar> div 100000)), s))"

section \<open>Vital product data\<close>

definition default_uuid :: bytes where
  "default_uuid = ''58893887-8974-2487-2389-389233423423''"

definition get_bmc_uuid_string :: "env \<Rightarrow> bmc \<Rightarrow> int \<times> bytes" where
  "get_bmc_uuid_string E s = (0, if CONFIG_APP_BMC_UUID E then bmc_uuid_str s else default_uuid)"

definition vpd_init :: "env \<Rightarrow> bmc \<Rightarrow> int \<times> bmc" where
  "vpd_init E s =
     (if \<not> CONFIG_APP_BMC_UUID E then (0, s)
      else
        case uuid_from_string E (CONFIG_WALLABMC_UUID_NS E) of
          Inl ret \<Rightarrow> (- EINVAL, s)
        | Inr uuid_v5_ns \<Rightarrow>
            let (len, mcu_uid, s) = ext_dat E (Sensor (HwinfoDeviceId 16)) s in
            if len < 0 then (- ENODEV, s)
            else
              case uuid_generate_v5 E uuid_v5_ns (take (nat len) mcu_uid) of
                Inl ret \<Rightarrow> (- EINVAL, s)
              | Inr bmc_uuid \<Rightarrow>
                  case uuid_to_string E bmc_uuid of
                    Inl ret \<Rightarrow> (- EINVAL, s)
                  | Inr str \<Rightarrow> (0, s\<lparr>bmc_uuid_str := str\<rparr>))"

definition cmd_vpd_show :: "env \<Rightarrow> bmc \<Rightarrow> int \<times> bytes list" where
  "cmd_vpd_show E s =
     (let (ret, uuid) = get_bmc_uuid_string E s in
      if ret < 0 then (ret, [])
      else (0, [''BMC UUID: '' @ uuid, ''BMC version: '' @ PROJECT_GIT_SHA (product E),
        ''BMC Zephyr version: '' @ BANNER_VERSION (product E)]))"

lemma read_die_temperature_io [io_intro]:
  "\<forall>c. P (Sensor c) \<Longrightarrow> only_io P s t \<Longrightarrow> only_io P s (snd (snd (read_die_temperature E t)))"
  by (auto simp: read_die_temperature_def Let_def intro!: io_intro)

interpretation die_temperature: io_op no_nvs "\<lambda>s. snd (snd (read_die_temperature E s))" for E
  by unfold_locales (auto intro!: io_intro)

end
