(* ===== verification/Http_Auth.thy ===== *)
theory Http_Auth
  imports Config_Steps
begin

text \<open>
  Authentication and the web server's start (http.c, and validate_auth of redfish.c). Redfish
  requests carry HTTP basic authentication; a websocket sends its credentials as its first
  message. The shell's websocket callback is wrapped by one that authenticates first. The
  base64 decoder, the websockets, TLS and the server itself are Zephyr's.
\<close>

section \<open>Requests\<close>

datatype http_method = HTTP_GET | HTTP_PATCH | HTTP_POST | HTTP_PUT | HTTP_DELETE | HTTP_OTHER

text \<open>The captured headers: name and value.\<close>

record http_client =
  client_method :: http_method
  client_headers :: "(bytes \<times> bytes) list"

definition CREDENTIALS_MAX_LEN :: nat where "CREDENTIALS_MAX_LEN = 64"

text \<open>\<open>snprintf\<close> into an array of \<open>n\<close> bytes: at most \<open>n - 1\<close> characters and the NUL.\<close>

definition snprintf :: "nat \<Rightarrow> bytes \<Rightarrow> bytes" where
  "snprintf n str = take (n - 1) str"

section \<open>Basic authentication (redfish.c)\<close>

text \<open>The loop over the captured headers: the value of the first one with either name.\<close>

fun find_auth_header :: "(bytes \<times> bytes) list \<Rightarrow> bytes option" where
  "find_auth_header [] = None"
| "find_auth_header ((name, v) # hs) =
     (if name = ''authorization'' \<or> name = ''Authorization'' then Some v else find_auth_header hs)"

definition validate_auth :: "env \<Rightarrow> http_client \<Rightarrow> bmc \<Rightarrow> int" where
  "validate_auth E client s =
     (case find_auth_header (client_headers client) of
        None \<Rightarrow> - 1
      | Some auth_header \<Rightarrow>
          let prefix = ''Basic '' in
          if take (length prefix) auth_header \<noteq> prefix then - 1
          else
            let b64_token = drop (length prefix) auth_header in
            case base64_decode E (CREDENTIALS_MAX_LEN - 1) b64_token of
              Inl ret \<Rightarrow> ret
            | Inr decoded \<Rightarrow>
                let expected = snprintf CREDENTIALS_MAX_LEN
                      (''admin'' @ '':'' @ config_bmc_admin_password s)
                in if c_str (decoded @ [NUL]) = expected then 0 else - 1)"

section \<open>Websocket authentication (http.c)\<close>

definition ws_validate_auth :: "env \<Rightarrow> int \<Rightarrow> bmc \<Rightarrow> int \<times> bmc" where
  "ws_validate_auth E ws_socket s =
     (let auth_prefix = ''Auth:'';
          size = length auth_prefix + 1 + CREDENTIALS_MAX_LEN;
          (rc, rx_buf, s) = ext_dat E (Http (WsRecvMsg ws_socket (size - 1) 3000)) s in
      if rc \<le> 0 then (- EIO, ext_ignore E (Http (WsDisconnect ws_socket)) s)
      else
        let rx_buf = take (nat rc) rx_buf @ [NUL] in
        if take (length auth_prefix) rx_buf \<noteq> auth_prefix
        then (- EINVAL, ext_ignore E (Http (WsDisconnect ws_socket)) s)
        else
          let auth = drop (length auth_prefix) rx_buf;
              expected = snprintf CREDENTIALS_MAX_LEN
                (''admin'' @ ''_'' @ config_bmc_admin_password s)
          in if c_str auth \<noteq> expected
             then (- EPERM, ext_ignore E (Http (WsDisconnect ws_socket)) s)
             else (0, s))"

abbreviation shell_ws_update :: "(shell_ws \<Rightarrow> shell_ws) \<Rightarrow> bmc \<Rightarrow> bmc" where
  "shell_ws_update f s \<equiv> s\<lparr>daemons := (daemons s)\<lparr>shell_ws := f (shell_ws (daemons s))\<rparr>\<rparr>"

text \<open>The call through a saved callback; through an unset pointer, or one that was saved from
  the wrapper itself, the behaviour is not defined.\<close>

definition call_shell_cb :: "env \<Rightarrow> ws_cb \<Rightarrow> int \<Rightarrow> bmc \<Rightarrow> (int \<times> bmc) option" where
  "call_shell_cb E cb ws_socket s =
     (case cb of
        ShellCb service \<Rightarrow> Some (ext E (Http (ShellWsCb service ws_socket)) s)
      | NoCb \<Rightarrow> None
      | AuthCb service \<Rightarrow> None)"

definition shell_http_ws_auth_cb :: "env \<Rightarrow> int \<Rightarrow> bmc \<Rightarrow> (int \<times> bmc) option" where
  "shell_http_ws_auth_cb E ws_socket s =
     (let (rc, s) = ws_validate_auth E ws_socket s in
      if rc < 0 then Some (rc, s)
      else call_shell_cb E (shell_http_ws_cb (shell_ws (daemons s))) ws_socket s)"

definition shell_https_ws_auth_cb :: "env \<Rightarrow> int \<Rightarrow> bmc \<Rightarrow> (int \<times> bmc) option" where
  "shell_https_ws_auth_cb E ws_socket s =
     (let (rc, s) = ws_validate_auth E ws_socket s in
      if rc < 0 then Some (rc, s)
      else call_shell_cb E (shell_https_ws_cb (shell_ws (daemons s))) ws_socket s)"

section \<open>Starting the server\<close>

definition config_bmc_https_psk :: bytes where
  "config_bmc_https_psk = [CHR 0x01, CHR 0x02, CHR 0x03, CHR 0x04, CHR 0x05, CHR 0x06, CHR 0x07,
     CHR 0x08]"

text \<open>The first and the second half of \<open>setup_tls\<close>.\<close>

definition setup_tls_cert :: "env \<Rightarrow> bmc \<Rightarrow> int \<times> bmc" where
  "setup_tls_cert E s =
     (let (err, s) = ext E (Http (TlsCredentialAdd HTTP_SERVER_CERTIFICATE_TAG ServerCertificate)) s
      in if err < 0 then (err, s)
         else ext E (Http (TlsCredentialAdd HTTP_SERVER_CERTIFICATE_TAG ServerPrivateKey)) s)"

definition setup_tls_psk :: "env \<Rightarrow> bmc \<Rightarrow> int \<times> bmc" where
  "setup_tls_psk E s =
     (let (err, s) = ext E (Http (TlsCredentialAdd PSK_TAG (Psk config_bmc_https_psk))) s in
      if err < 0 then (err, s)
      else ext E (Http (TlsCredentialAdd PSK_TAG (PskId ''WallaBMC''))) s)"

definition setup_tls :: "env \<Rightarrow> bmc \<Rightarrow> int \<times> bmc" where
  "setup_tls E s =
     (if \<not> CONFIG_APP_HTTPS (http_options E) then (0, s)
      else
        let (err, s) = (if CONFIG_APP_HTTPS_PUBLIC_KEY (http_options E)
                        then setup_tls_cert E s else (0, s)) in
        if err < 0 then (err, s)
        else if CONFIG_APP_HTTPS_PSK (http_options E) then setup_tls_psk E s
        else (err, s))"

text \<open>The credentials the HTTPS service asks for.\<close>

definition sec_tag_list_verify_none :: "env \<Rightarrow> tls_tag list" where
  "sec_tag_list_verify_none E =
     (if CONFIG_APP_HTTPS_PUBLIC_KEY (http_options E) then [HTTP_SERVER_CERTIFICATE_TAG] else []) @
     (if CONFIG_APP_HTTPS_PSK (http_options E) then [PSK_TAG] else [])"

definition app_http_server_init :: "env \<Rightarrow> bmc \<Rightarrow> int \<times> bmc" where
  "app_http_server_init E s =
     (let (err, s) = setup_tls E s in
      if err \<noteq> 0 then (err, s)
      else if \<not> CONFIG_SHELL_BACKEND_WEBSOCKET (http_options E) then ext E (Http HttpServerStart) s
      else
        let s = shell_ws_update (\<lambda>w. w\<lparr>shell_http_ws_cb := ws_detail_cb w HttpService\<rparr>) s;
            s = shell_ws_update (\<lambda>w. w\<lparr>ws_detail_cb :=
                  (ws_detail_cb w)(HttpService := AuthCb HttpService)\<rparr>) s;
            (err, s) = ext E (Http (ShellWebsocketEnable HttpService)) s
        in if err \<noteq> 0 then (err, s)
           else if \<not> CONFIG_APP_HTTPS (http_options E) then ext E (Http HttpServerStart) s
           else
             let s = shell_ws_update (\<lambda>w. w\<lparr>shell_https_ws_cb := ws_detail_cb w HttpsService\<rparr>) s;
                 s = shell_ws_update (\<lambda>w. w\<lparr>ws_detail_cb :=
                       (ws_detail_cb w)(HttpsService := AuthCb HttpsService)\<rparr>) s;
                 (err, s) = ext E (Http (ShellWebsocketEnable HttpsService)) s
             in if err \<noteq> 0 then (err, s) else ext E (Http HttpServerStart) s)"

section \<open>Lemmas\<close>

lemma expected_fits:
  assumes "wf_config (config_data s)" and "length pre \<le> 6"
  shows "snprintf CREDENTIALS_MAX_LEN (pre @ config_bmc_admin_password s) =
    pre @ config_bmc_admin_password s"
proof -
  have "length (config_bmc_admin_password s) \<le> MAX_PW_LEN"
    using assms(1) length_c_str_wf by (auto simp: getters wf_config_def)
  then show ?thesis
    using assms(2) by (simp add: snprintf_def CREDENTIALS_MAX_LEN_def MAX_PW_LEN_def)
qed

lemma ws_validate_auth_io [io_intro]:
  "\<forall>c. P (Http c) \<Longrightarrow> only_io P s t \<Longrightarrow> only_io P s (snd (ws_validate_auth E fd t))"
  by (auto simp: ws_validate_auth_def Let_def intro!: io_intro split: prod.split)
    (auto simp: ext_dat_def ext_ignore_eq intro!: only_io_push)

text \<open>What Zephyr documents of its decoder: errors are negative, and the result fits the
  buffer.\<close>

definition base64_documented :: "env \<Rightarrow> bool" where
  "base64_documented E \<longleftrightarrow> (\<forall>n b. case base64_decode E n b of
     Inl ret \<Rightarrow> ret < 0 | Inr d \<Rightarrow> length d \<le> n)"

lemma c_str_prefix: "is_c_string pre \<Longrightarrow> c_str (pre @ x) = pre @ c_str x"
  by (induction pre) (auto simp: c_str_def is_c_string_def)

lemma c_str_split:
  assumes "is_c_string pre"
  shows "(take (length pre) (rx @ [NUL]) = pre \<and> c_str (drop (length pre) (rx @ [NUL])) = x) \<longleftrightarrow>
    c_str rx = pre @ x"
proof -
  have "c_str rx = c_str (rx @ [NUL])"
    by (simp add: c_str_append_NUL)
  moreover have "c_str (rx @ [NUL]) = pre @ x \<longleftrightarrow>
      take (length pre) (rx @ [NUL]) = pre \<and> c_str (drop (length pre) (rx @ [NUL])) = x"
  proof
    assume eq: "c_str (rx @ [NUL]) = pre @ x"
    have "rx @ [NUL] = c_str (rx @ [NUL]) @ dropWhile (\<lambda>c. c \<noteq> NUL) (rx @ [NUL])"
      by (simp only: c_str_def takeWhile_dropWhile_id)
    then have "rx @ [NUL] = pre @ x @ dropWhile (\<lambda>c. c \<noteq> NUL) (rx @ [NUL])"
      unfolding eq by simp
    then obtain r where r: "rx @ [NUL] = pre @ r"
      by blast
    then show "take (length pre) (rx @ [NUL]) = pre \<and> c_str (drop (length pre) (rx @ [NUL])) = x"
      using eq c_str_prefix [OF assms, of r] by simp
  next
    assume "take (length pre) (rx @ [NUL]) = pre \<and> c_str (drop (length pre) (rx @ [NUL])) = x"
    then show "c_str (rx @ [NUL]) = pre @ x"
      using c_str_prefix [OF assms, of "drop (length pre) (rx @ [NUL])"]
      by (metis append_take_drop_id)
  qed
  ultimately show ?thesis
    by simp
qed

section \<open>Properties\<close>

text \<open>C18: Basic authentication accepts exactly the admin's credentials. A request passes if
  and only if its first authorization header is the word Basic, a blank and a token that
  decodes, as a C string, to admin, a colon and the configured password; every other request
  gets a negative result.\<close>

theorem validate_auth_exact:
  assumes "wf_config (config_data s)" and "base64_documented E"
  shows "(validate_auth E client s = 0 \<longleftrightarrow>
      (\<exists>token decoded. find_auth_header (client_headers client) = Some (''Basic '' @ token) \<and>
        base64_decode E (CREDENTIALS_MAX_LEN - 1) token = Inr decoded \<and>
        c_str decoded = ''admin:'' @ config_bmc_admin_password s)) \<and>
    validate_auth E client s \<le> 0"
proof -
  have fits: "snprintf CREDENTIALS_MAX_LEN (''admin'' @ '':'' @ config_bmc_admin_password s) =
      ''admin:'' @ config_bmc_admin_password s"
    using expected_fits [OF assms(1), of "''admin:''"] by simp
  have neg: "base64_decode E n b = Inl r \<Longrightarrow> r < 0" for n b r
    using assms(2) unfolding base64_documented_def by (metis sum.simps(5))
  show ?thesis
  proof (cases "find_auth_header (client_headers client)")
    case None
    then show ?thesis
      by (simp add: validate_auth_def)
  next
    case (Some v)
    show ?thesis
    proof (cases "take (length ''Basic '') v = ''Basic ''")
      case False
      then have "\<not> (\<exists>tok. v = ''Basic '' @ tok)"
        by auto
      then show ?thesis
        using Some False by (simp add: validate_auth_def)
    next
      case True
      define tok where "tok = drop (length ''Basic '') v"
      have v: "v = ''Basic '' @ tok"
        using append_take_drop_id [of "length ''Basic ''" v, symmetric] unfolding True tok_def .
      show ?thesis
      proof (cases "base64_decode E (CREDENTIALS_MAX_LEN - 1) tok")
        case (Inl r)
        then show ?thesis
          using Some v neg [OF Inl] by (simp add: validate_auth_def)
      next
        case (Inr d)
        then show ?thesis
          using Some v fits by (simp add: validate_auth_def c_str_append_NUL)
      qed
    qed
  qed
qed

lemma ideal_base64: "base64_documented ideal_env"
  by (simp add: base64_documented_def ideal_env_def)

lemma validate_auth_exact_witness:
  "validate_auth ideal_env \<lparr>client_method = HTTP_GET,
     client_headers = [(''host'', ''bmc''), (''Authorization'', ''Basic admin:'')]\<rparr> (reset_state []) = 0"
proof -
  have wf: "wf_config (config_data (reset_state []))"
    by (simp add: reset_state_def)
  show ?thesis
    by (subst validate_auth_exact [OF wf ideal_base64, THEN conjunct1])
      (simp add: ideal_env_def CREDENTIALS_MAX_LEN_def getters reset_state_def zero_config_def
        c_str_def zeros_def)
qed

text \<open>C19: A websocket is accepted exactly when its first message is, as a C string, the text
  Auth:admin_ followed by the configured password. Otherwise the result is negative and the
  socket has been disconnected. Nothing else happens, and no other message is read.\<close>

theorem ws_validate_auth_exact:
  assumes "wf_config (config_data s)" and "ws_validate_auth E fd s = (rc, s')"
  shows "let recv = Http (WsRecvMsg fd 69 3000); n = zret E (trace s) recv;
             msg = take (nat n) (zdat E (trace s) recv)
         in if 0 < n \<and> c_str msg = ''Auth:admin_'' @ config_bmc_admin_password s
            then rc = 0 \<and> s' = s\<lparr>trace := recv # trace s\<rparr>
            else rc < 0 \<and> s' = s\<lparr>trace := Http (WsDisconnect fd) # recv # trace s\<rparr>"
proof -
  let ?recv = "Http (WsRecvMsg fd 69 3000)"
  let ?rx = "take (nat (zret E (trace s) ?recv)) (zdat E (trace s) ?recv)"
  have fits: "snprintf CREDENTIALS_MAX_LEN (''admin'' @ ''_'' @ config_bmc_admin_password u) =
      ''admin_'' @ config_bmc_admin_password s" if "config_data u = config_data s" for u
    using expected_fits [of s "''admin_''"] assms(1) that by (simp add: getters)
  have size: "length ''Auth:'' + 1 + CREDENTIALS_MAX_LEN - 1 = 69"
    by (simp add: CREDENTIALS_MAX_LEN_def)
  have split: "(take (length ''Auth:'') (?rx @ [NUL]) = ''Auth:'' \<and>
      c_str (drop (length ''Auth:'') (?rx @ [NUL])) = ''admin_'' @ config_bmc_admin_password s) \<longleftrightarrow>
      c_str ?rx = ''Auth:admin_'' @ config_bmc_admin_password s"
    using c_str_split [of "''Auth:''" ?rx "''admin_'' @ config_bmc_admin_password s"]
    by (simp add: is_c_string_def)
  show ?thesis
    using assms(2) fits unfolding ws_validate_auth_def Let_def size split [symmetric]
    by (auto simp: ext_dat_def ext_ignore_eq split: if_splits)
qed

lemma ws_validate_auth_exact_witness:
  "fst (ws_validate_auth ideal_env 7 (reset_state [])) < 0"
proof -
  have wf: "wf_config (config_data (reset_state []))"
    by (simp add: reset_state_def)
  have "zret ideal_env (trace (reset_state [])) (Http (WsRecvMsg 7 69 3000)) = 0"
    by (simp add: ideal_env_def ideal_ret_def)
  then show ?thesis
    using ws_validate_auth_exact [OF wf prod.collapse [symmetric], of 7 ideal_env] by (simp add: Let_def)
qed

text \<open>Nothing of the TLS setup is kept in variables of the firmware.\<close>

text \<open>What a tag of the HTTPS service stands for; a set-up that succeeds registers it, once and in order.\<close>

fun tag_credentials :: "tls_tag \<Rightarrow> tls_credential list" where
  "tag_credentials HTTP_SERVER_CERTIFICATE_TAG = [ServerCertificate, ServerPrivateKey]"
| "tag_credentials PSK_TAG = [Psk config_bmc_https_psk, PskId ''WallaBMC'']"

lemma setup_tls_registers:
  assumes "CONFIG_APP_HTTPS (http_options E)" and "setup_tls E s = (err, s')" and "\<not> err < 0"
  shows "trace s' = rev [Http (TlsCredentialAdd tag c). tag \<leftarrow> sec_tag_list_verify_none E,
      c \<leftarrow> tag_credentials tag] @ trace s"
  using assms by (auto simp: setup_tls_def setup_tls_cert_def setup_tls_psk_def
      sec_tag_list_verify_none_def ext_def Let_def split: if_splits)

lemma setup_tls_io: "only_io any_call s (snd (setup_tls E s))"
  by (auto simp: setup_tls_def setup_tls_cert_def setup_tls_psk_def Let_def intro!: io_intro)

lemma shell_ws_started:
  assumes "daemons s0 = zero_daemons" and "CONFIG_SHELL_BACKEND_WEBSOCKET (http_options E)"
    and "app_http_server_init E s0 = (0, s1)"
  shows "shell_ws (daemons s1) = \<lparr>ws_detail_cb = (if CONFIG_APP_HTTPS (http_options E)
        then ShellCb(HttpService := AuthCb HttpService, HttpsService := AuthCb HttpsService)
        else ShellCb(HttpService := AuthCb HttpService)),
      shell_http_ws_cb = ShellCb HttpService,
      shell_https_ws_cb = (if CONFIG_APP_HTTPS (http_options E) then ShellCb HttpsService else NoCb)\<rparr>"
proof -
  have d: "daemons (snd (setup_tls E s0)) = zero_daemons"
    using only_io_fields(10) [OF setup_tls_io] assms(1) by simp
  obtain err u where "setup_tls E s0 = (err, u)"
    by fastforce
  then show ?thesis
    using assms(2,3) d
    by (auto simp: app_http_server_init_def ext_def zero_daemons_def Let_def fun_eq_iff split: if_splits)
qed

text \<open>C20: The shell is reachable only with credentials. When the web server has started with
  the shell's websocket configured, the websocket resource of every enabled service goes
  through the authenticating callback; and from then on that callback always has a defined
  result, and calls the shell's own callback if and only if the authentication succeeded.\<close>

theorem shell_websocket_guarded:
  assumes "daemons s0 = zero_daemons" and "CONFIG_SHELL_BACKEND_WEBSOCKET (http_options E)"
    and "app_http_server_init E s0 = (0, s1)" and "daemons s = daemons s1"
  shows "ws_detail_cb (shell_ws (daemons s)) HttpService = AuthCb HttpService \<and>
    (CONFIG_APP_HTTPS (http_options E) \<longrightarrow>
       ws_detail_cb (shell_ws (daemons s)) HttpsService = AuthCb HttpsService) \<and>
    (let (rc, t) = ws_validate_auth E fd s in
     shell_http_ws_auth_cb E fd s =
       Some (if rc < 0 then (rc, t) else ext E (Http (ShellWsCb HttpService fd)) t) \<and>
     (CONFIG_APP_HTTPS (http_options E) \<longrightarrow> shell_https_ws_auth_cb E fd s =
       Some (if rc < 0 then (rc, t) else ext E (Http (ShellWsCb HttpsService fd)) t)))"
proof -
  note w = shell_ws_started [OF assms(1-3)]
  have keep: "daemons t = daemons s" if "ws_validate_auth E fd s = (rc, t)" for rc t
    using ws_validate_auth_io [of any_call s s E fd] that by (auto dest: only_io_fields(10))
  show ?thesis
    using w assms(4) keep
    by (auto simp: shell_http_ws_auth_cb_def shell_https_ws_auth_cb_def call_shell_cb_def
        split: prod.split)
qed

lemma shell_websocket_guarded_witness:
  "shell_http_ws_auth_cb ideal_env 7 (snd (app_http_server_init ideal_env (reset_state []))) \<noteq> None"
proof -
  let ?s = "snd (app_http_server_init ideal_env (reset_state []))"
  have "app_http_server_init ideal_env (reset_state []) = (0, ?s)"
    by (simp add: app_http_server_init_def setup_tls_def ext_def ideal_env_def ideal_ret_def)
  from shell_websocket_guarded [OF _ _ this refl, of 7] show ?thesis
    by (auto simp: reset_state_def ideal_env_def split: prod.splits)
qed

end
