(* ===== verification/Redfish_Core.thy ===== *)
theory Redfish_Core
  imports Http_Auth
begin

text \<open>
  The request engine of the Redfish service (redfish.c): the buffer of a resource, the
  response headers, and \<open>redfish_handler\<close>, which authenticates, accumulates the body of a
  request, calls the handler of the method and reports the result. Zephyr serialises the
  requests of one resource, so that the buffer belongs to one transaction at a time. A result
  of \<open>None\<close> stands for undefined behaviour: a NULL pointer is used.
\<close>

section \<open>Requests and responses\<close>

datatype transaction_status =
    HTTP_SERVER_TRANSACTION_ABORTED
  | HTTP_SERVER_TRANSACTION_COMPLETE
  | HTTP_SERVER_REQUEST_DATA_MORE
  | HTTP_SERVER_REQUEST_DATA_FINAL

abbreviation (input) HTTP_200_OK :: int where "HTTP_200_OK \<equiv> 200"
abbreviation (input) HTTP_204_NO_CONTENT :: int where "HTTP_204_NO_CONTENT \<equiv> 204"
abbreviation (input) HTTP_400_BAD_REQUEST :: int where "HTTP_400_BAD_REQUEST \<equiv> 400"
abbreviation (input) HTTP_401_UNAUTHORIZED :: int where "HTTP_401_UNAUTHORIZED \<equiv> 401"
abbreviation (input) HTTP_405_METHOD_NOT_ALLOWED :: int where "HTTP_405_METHOD_NOT_ALLOWED \<equiv> 405"
abbreviation (input) HTTP_500_INTERNAL_SERVER_ERROR :: int where
  "HTTP_500_INTERNAL_SERVER_ERROR \<equiv> 500"

record response =
  rsp_status :: int
  rsp_headers :: "(bytes \<times> bytes) list"
  rsp_body :: bytes
  rsp_final :: bool

text \<open>The response context as Zephyr hands it over.\<close>

definition fresh_response :: response where
  "fresh_response = \<lparr>rsp_status = 0, rsp_headers = [], rsp_body = [], rsp_final = False\<rparr>"

section \<open>Headers\<close>

definition validate_and_set_headers ::
  "http_client \<Rightarrow> http_method set \<Rightarrow> response \<Rightarrow> int \<times> response" where
  "validate_and_set_headers client supported_methods ctx =
     (if client_method client \<notin> supported_methods then
        let ctx = ctx\<lparr>rsp_status := HTTP_405_METHOD_NOT_ALLOWED\<rparr>;
            ctx = (if supported_methods = {HTTP_GET}
                   then ctx\<lparr>rsp_headers := [(''allow'', ''GET'')]\<rparr>
                   else if supported_methods = {HTTP_POST}
                   then ctx\<lparr>rsp_headers := [(''allow'', ''POST'')]\<rparr>
                   else if supported_methods = {HTTP_GET, HTTP_PATCH}
                   then ctx\<lparr>rsp_headers := [(''allow'', ''GET, PATCH'')]\<rparr>
                   else ctx)
        in (- 1, ctx\<lparr>rsp_final := True, rsp_body := []\<rparr>)
      else if client_method client = HTTP_GET then
        (0, ctx\<lparr>rsp_headers :=
          [(''content-type'', ''application/json''), (''cache-control'', ''no-cache'')]\<rparr>)
      else (0, ctx))"

definition set_unauth_response :: "http_client \<Rightarrow> response \<Rightarrow> response" where
  "set_unauth_response client ctx =
     (let webui = (\<exists>(name, v) \<in> set (client_headers client). name = ''x-auth-code'' \<and> v = ''webui'');
          ctx = ctx\<lparr>rsp_status := HTTP_401_UNAUTHORIZED, rsp_final := True\<rparr>;
          ctx = (if \<not> webui
                 then ctx\<lparr>rsp_headers := [(''www-authenticate'',
                   ''Basic realm='' @ [CHR 0x22] @ ''BMC'' @ [CHR 0x22])]\<rparr>
                 else ctx)
      in ctx\<lparr>rsp_body := []\<rparr>)"

section \<open>The buffer of a resource\<close>

record user_data =
  started :: bool
  ud_size :: nat
  data_len :: nat
  data_buffer :: "bytes option"       \<comment> \<open>None is the NULL pointer\<close>

definition no_user_data :: user_data where
  "no_user_data = \<lparr>started = False, ud_size = 0, data_len = 0, data_buffer = None\<rparr>"

definition USER_DATA_BUFFER_GET_SIZE :: nat where "USER_DATA_BUFFER_GET_SIZE = 1024"
definition USER_DATA_BUFFER_POST_SIZE :: nat where "USER_DATA_BUFFER_POST_SIZE = 512"

text \<open>\<open>k_heap_alloc\<close> waits until the heap has room; the block it returns has any contents.\<close>

definition alloc_user_data :: "env \<Rightarrow> user_data \<Rightarrow> nat \<Rightarrow> bmc \<Rightarrow> user_data \<times> bmc" where
  "alloc_user_data E ud n s =
     (let ud = ud\<lparr>started := True, ud_size := n\<rparr>;
          (rc, block, s) = ext_dat E (Http (HeapAlloc n)) s
      in (ud\<lparr>data_buffer := Some (take n (block @ zeros n))\<rparr>, s))"

definition free_user_data :: "env \<Rightarrow> user_data \<Rightarrow> bmc \<Rightarrow> user_data \<times> bmc" where
  "free_user_data E ud s =
     (if \<not> started ud then (ud, s)
      else
        let ud = ud\<lparr>started := False, ud_size := 0, data_len := 0\<rparr>;
            s = ext_ignore E (Http HeapFree) s
        in (ud\<lparr>data_buffer := None\<rparr>, s))"

definition memcpy_at :: "bytes \<Rightarrow> nat \<Rightarrow> bytes \<Rightarrow> bytes" where
  "memcpy_at buf off src = take off buf @ src @ drop (off + length src) buf"

definition append_user_data :: "user_data \<Rightarrow> bytes \<Rightarrow> bool \<times> user_data" where
  "append_user_data ud src =
     (if data_len ud + length src > ud_size ud then (False, ud)
      else
        let ud = ud\<lparr>data_buffer := map_option (\<lambda>b. memcpy_at b (data_len ud) src) (data_buffer ud)\<rparr>
        in (True, ud\<lparr>data_len := data_len ud + length src\<rparr>))"

definition user_data_json_append :: "bytes \<Rightarrow> user_data \<Rightarrow> int \<times> user_data" where
  "user_data_json_append bs ud =
     (let (ok, ud) = append_user_data ud bs in if \<not> ok then (- ENOSPC, ud) else (0, ud))"

text \<open>What the buffer holds.\<close>

definition payload :: "user_data \<Rightarrow> bytes" where
  "payload ud = (case data_buffer ud of None \<Rightarrow> [] | Some b \<Rightarrow> take (data_len ud) b)"

section \<open>Encoding\<close>

text \<open>Zephyr's \<open>json_obj_encode\<close> hands its text piece by piece to the callback and stops at
  the first error.\<close>

fun append_pieces :: "bytes list \<Rightarrow> int \<Rightarrow> user_data \<Rightarrow> int \<times> user_data" where
  "append_pieces [] ret ud = (ret, ud)"
| "append_pieces (p # ps) ret ud =
     (let (r, ud) = user_data_json_append p ud in
      if r \<noteq> 0 then (r, ud) else append_pieces ps ret ud)"

definition json_obj_encode :: "env \<Rightarrow> json \<Rightarrow> user_data \<Rightarrow> int \<times> user_data" where
  "json_obj_encode E j ud = append_pieces (fst (json_pieces E j)) (snd (json_pieces E j)) ud"

text \<open>The end of every GET handler.\<close>

definition encode_reply :: "env \<Rightarrow> json \<Rightarrow> user_data \<Rightarrow> int \<times> user_data" where
  "encode_reply E j ud =
     (let (ret, ud) = json_obj_encode E j ud in
      if ret < 0 then (HTTP_500_INTERNAL_SERVER_ERROR, ud) else (0, ud))"

section \<open>The handler of a resource\<close>

text \<open>A method handler gets the buffer and returns 0 or a status.\<close>

type_synonym method_fn = "env \<Rightarrow> user_data \<Rightarrow> bmc \<Rightarrow> (int \<times> user_data \<times> bmc) option"

definition allow_methods :: "'a option \<Rightarrow> 'a option \<Rightarrow> 'a option \<Rightarrow> http_method set" where
  "allow_methods get_fn patch_fn post_fn =
     (if get_fn \<noteq> None then {HTTP_GET} else {}) \<union> (if patch_fn \<noteq> None then {HTTP_PATCH} else {}) \<union>
     (if post_fn \<noteq> None then {HTTP_POST} else {})"

definition call_method :: "env \<Rightarrow> method_fn option \<Rightarrow> user_data \<Rightarrow> bmc \<Rightarrow>
    (int \<times> user_data \<times> bmc) option" where
  "call_method E fn ud s = (case fn of None \<Rightarrow> None | Some f \<Rightarrow> f E ud s)"

text \<open>The start of the branch for PATCH and POST: get a buffer, append the chunk.\<close>

definition accept_chunk :: "env \<Rightarrow> bytes option \<Rightarrow> user_data \<Rightarrow> bmc \<Rightarrow> bool \<times> user_data \<times> bmc" where
  "accept_chunk E request ud s =
     (let (ud, s) = (if \<not> started ud then alloc_user_data E ud USER_DATA_BUFFER_POST_SIZE s
                     else (ud, s));
          (ok, ud) = (case request of
             Some chunk \<Rightarrow> if length chunk > 0 then append_user_data ud chunk else (True, ud)
           | None \<Rightarrow> (True, ud))
      in (ok, ud, s))"

text \<open>The branch for PATCH and POST.\<close>

definition handle_body ::
  "env \<Rightarrow> http_client \<Rightarrow> transaction_status \<Rightarrow> bytes option \<Rightarrow> method_fn option \<Rightarrow>
    method_fn option \<Rightarrow> response \<Rightarrow> user_data \<Rightarrow> bmc \<Rightarrow> (response \<times> user_data \<times> bmc) option" where
  "handle_body E client status request patch_fn post_fn rsp ud s =
     (let (ok, ud, s) = accept_chunk E request ud s in
      if \<not> ok then
        let (ud, s) = free_user_data E ud s
        in Some (rsp\<lparr>rsp_status := HTTP_400_BAD_REQUEST, rsp_final := True\<rparr>, ud, s)
      else if status \<noteq> HTTP_SERVER_REQUEST_DATA_FINAL then Some (rsp, ud, s)
      else
        case call_method E (if client_method client = HTTP_PATCH then patch_fn else post_fn) ud s of
          None \<Rightarrow> None
        | Some (ret, ud, s) \<Rightarrow>
            let (ud, s) = free_user_data E ud s;
                rsp = rsp\<lparr>rsp_status := (if ret \<noteq> 0 then ret else HTTP_204_NO_CONTENT)\<rparr>
            in Some (rsp\<lparr>rsp_final := True\<rparr>, ud, s))"

text \<open>The branch for GET.\<close>

definition handle_get ::
  "env \<Rightarrow> transaction_status \<Rightarrow> method_fn \<Rightarrow> response \<Rightarrow> user_data \<Rightarrow> bmc \<Rightarrow>
    (response \<times> user_data \<times> bmc) option" where
  "handle_get E status get_fn rsp ud s =
     (let (ud, s) = (if started ud then free_user_data E ud s else (ud, s)) in
      if status \<noteq> HTTP_SERVER_REQUEST_DATA_FINAL
      then Some (rsp\<lparr>rsp_status := HTTP_400_BAD_REQUEST, rsp_final := True\<rparr>, ud, s)
      else
        let (ud, s) = alloc_user_data E ud USER_DATA_BUFFER_GET_SIZE s in
        case get_fn E ud s of
          None \<Rightarrow> None
        | Some (ret, ud, s) \<Rightarrow>
            let rsp = (if ret \<noteq> 0 then rsp\<lparr>rsp_status := ret\<rparr>
                       else rsp\<lparr>rsp_body := payload ud, rsp_status := HTTP_200_OK\<rparr>)
            in Some (rsp\<lparr>rsp_final := True\<rparr>, ud, s))"

definition redfish_handler ::
  "env \<Rightarrow> http_client \<Rightarrow> transaction_status \<Rightarrow> bytes option \<Rightarrow> response \<Rightarrow> user_data \<Rightarrow> bool \<Rightarrow>
    method_fn option \<Rightarrow> method_fn option \<Rightarrow> method_fn option \<Rightarrow> bmc \<Rightarrow>
    (response \<times> user_data \<times> bmc) option" where
  "redfish_handler E client status request rsp ud require_auth get_fn patch_fn post_fn s =
     (if status = HTTP_SERVER_TRANSACTION_COMPLETE then
        if client_method client = HTTP_GET
        then (let (ud, s) = free_user_data E ud s in Some (rsp, ud, s))
        else if started ud then (let (ud, s) = free_user_data E ud s in Some (rsp, ud, s))
        else Some (rsp, ud, s)
      else if status = HTTP_SERVER_TRANSACTION_ABORTED
      then (let (ud, s) = free_user_data E ud s in Some (rsp, ud, s))
      else
        let (rc, rsp) = validate_and_set_headers client (allow_methods get_fn patch_fn post_fn) rsp in
        if rc < 0 then Some (rsp, ud, s)
        else if require_auth \<and> validate_auth E client s < 0
        then Some (set_unauth_response client rsp, ud, s)
        else if client_method client = HTTP_PATCH \<or> client_method client = HTTP_POST
        then handle_body E client status request patch_fn post_fn rsp ud s
        else case get_fn of
            Some f \<Rightarrow>
              if client_method client = HTTP_GET then handle_get E status f rsp ud s
              else Some (rsp\<lparr>rsp_status := HTTP_500_INTERNAL_SERVER_ERROR, rsp_final := True\<rparr>, ud, s)
          | None \<Rightarrow> Some (rsp\<lparr>rsp_status := HTTP_500_INTERNAL_SERVER_ERROR, rsp_final := True\<rparr>, ud, s))"

section \<open>The invariant of the buffer\<close>

definition ud_inv :: "user_data \<Rightarrow> bool" where
  "ud_inv ud \<longleftrightarrow>
     (if started ud
      then ud_size ud \<le> USER_DATA_BUFFER_GET_SIZE \<and> data_len ud \<le> ud_size ud \<and>
        (\<exists>b. data_buffer ud = Some b \<and> length b = ud_size ud)
      else ud = no_user_data)"

lemma ud_inv_no [simp]: "ud_inv no_user_data"
  by (simp add: ud_inv_def no_user_data_def)

lemma no_user_data_simps [simp]:
  "\<not> started no_user_data" "data_len no_user_data = 0" "payload no_user_data = []"
  by (simp_all add: no_user_data_def payload_def)

lemma append_user_data_inv:
  "append_user_data ud src = (ok, ud') \<Longrightarrow> ud_inv ud \<Longrightarrow>
     ud_inv ud' \<and> started ud' = started ud \<and>
     (ok \<longrightarrow> payload ud' = payload ud @ src) \<and> (ok \<longleftrightarrow> data_len ud + length src \<le> ud_size ud)"
  by (auto simp: append_user_data_def ud_inv_def payload_def memcpy_at_def no_user_data_def
      split: if_splits)

lemma length_payload: "ud_inv ud \<Longrightarrow> length (payload ud) = data_len ud"
  by (auto simp: ud_inv_def payload_def no_user_data_def split: if_splits)

lemma payload_le: "ud_inv ud \<Longrightarrow> length (payload ud) \<le> USER_DATA_BUFFER_GET_SIZE"
  by (auto simp: length_payload ud_inv_def no_user_data_def split: if_splits)

lemma alloc_user_data_inv:
  assumes "alloc_user_data E no_user_data n s = (ud, s')" and "n \<le> USER_DATA_BUFFER_GET_SIZE"
  shows "ud_inv ud" and "started ud" and "payload ud = []" and "ud_size ud = n" and "data_len ud = 0"
    and "s' = s\<lparr>trace := Http (HeapAlloc n) # trace s\<rparr>"
  using assms
  by (auto simp: alloc_user_data_def ext_dat_def ud_inv_def payload_def no_user_data_def)

lemma free_user_data_result:
  assumes "ud_inv ud"
  shows "free_user_data E ud s =
    (no_user_data, if started ud then s\<lparr>trace := Http HeapFree # trace s\<rparr> else s)"
  using assms
  by (auto simp: free_user_data_def ud_inv_def ext_ignore_eq no_user_data_def split: if_splits)

text \<open>Blocks of the heap in use after a history.\<close>

fun heap_live :: "call list \<Rightarrow> int" where
  "heap_live [] = 0"
| "heap_live (c # h) = heap_live h +
     (case c of Http (HeapAlloc n) \<Rightarrow> 1 | Http HeapFree \<Rightarrow> - 1 | _ \<Rightarrow> 0)"

definition no_heap :: "call \<Rightarrow> bool" where
  "no_heap c \<longleftrightarrow> c \<noteq> Http HeapFree \<and> (\<forall>n. c \<noteq> Http (HeapAlloc n))"

lemma heap_live_append: "\<forall>c \<in> set cs. no_heap c \<Longrightarrow> heap_live (cs @ h) = heap_live h"
  by (induction cs) (auto simp: no_heap_def split: call.split http_call.split)

section \<open>The contract of a method handler\<close>

text \<open>A handler keeps the buffer it was given, and neither allocates nor frees blocks of the
  heap.\<close>

locale method_handler =
  fixes fn :: method_fn
  assumes buffer: "fn E ud s = Some (ret, ud', s') \<Longrightarrow> ud_inv ud \<Longrightarrow>
      ud_inv ud' \<and> started ud' = started ud"
    and calls: "fn E ud s = Some (ret, ud', s') \<Longrightarrow>
      \<exists>cs. trace s' = cs @ trace s \<and> (\<forall>c \<in> set cs. no_heap c)"
begin

lemma balanced: "fn E ud s = Some (ret, ud', s') \<Longrightarrow> heap_live (trace s') = heap_live (trace s)"
  using calls heap_live_append by metis

end

text \<open>The same for a slot of the table that may be empty.\<close>

definition good_fn :: "method_fn option \<Rightarrow> bool" where
  "good_fn fn = (case fn of None \<Rightarrow> True | Some f \<Rightarrow> method_handler f)"

definition fits_buffer :: "bmc \<Rightarrow> user_data \<Rightarrow> (response \<times> user_data \<times> bmc) option \<Rightarrow> bool" where
  "fits_buffer s ud r = (case r of None \<Rightarrow> True | Some (rsp, ud', s') \<Rightarrow>
     ud_inv ud' \<and> length (rsp_body rsp) \<le> USER_DATA_BUFFER_GET_SIZE \<and>
     heap_live (trace s') - of_bool (started ud') = heap_live (trace s) - of_bool (started ud))"

lemma handle_get_fits:
  assumes "method_handler f" and "ud_inv ud" and "rsp_body rsp = []"
  shows "fits_buffer s ud (handle_get E status f rsp ud s)"
proof -
  obtain ud1 s1 where a: "alloc_user_data E no_user_data USER_DATA_BUFFER_GET_SIZE
      (snd (free_user_data E ud s)) = (ud1, s1)"
    by fastforce
  have free: "(if started ud then free_user_data E ud s else (ud, s)) =
      (no_user_data, snd (free_user_data E ud s))"
    using free_user_data_result [OF assms(2), of E s] assms(2)
    by (auto simp: ud_inv_def split: if_splits)
  have live: "heap_live (trace (snd (free_user_data E ud s))) =
      heap_live (trace s) - of_bool (started ud)"
    by (simp add: free_user_data_result [OF assms(2)])
  note al = alloc_user_data_inv [OF a order_refl]
  show ?thesis
  proof (cases "f E ud1 s1")
    case None
    then show ?thesis
      using live assms(3) unfolding handle_get_def free by (simp add: fits_buffer_def a)
  next
    case (Some r)
    obtain ret ud2 s2 where r: "r = (ret, ud2, s2)"
      by (cases r)
    have b: "ud_inv ud2" "started ud2"
      using method_handler.buffer [OF assms(1) Some [unfolded r] al(1)] al(2) by auto
    have "heap_live (trace s2) = heap_live (trace s1)"
      by (rule method_handler.balanced [OF assms(1) Some [unfolded r]])
    then show ?thesis
      using Some r b live al(6) payload_le [OF b(1)] assms(3) unfolding handle_get_def free
      by (simp add: fits_buffer_def a)
  qed
qed

lemma accept_chunk_inv:
  assumes "accept_chunk E request ud s = (ok, ud', s')" and "ud_inv ud"
  shows "ud_inv ud'" and "started ud'"
    and "heap_live (trace s') - 1 = heap_live (trace s) - of_bool (started ud)"
    and "ok \<Longrightarrow> payload ud' = payload ud @ (case request of None \<Rightarrow> [] | Some c \<Rightarrow> c)"
    and "only_io (\<lambda>c. \<exists>n. c = Http (HeapAlloc n)) s s'"
proof -
  obtain ud1 s1 where a: "(if \<not> started ud then alloc_user_data E ud USER_DATA_BUFFER_POST_SIZE s
      else (ud, s)) = (ud1, s1)"
    by fastforce
  have one: "ud_inv ud1 \<and> started ud1 \<and> payload ud1 = payload ud \<and>
      heap_live (trace s1) - 1 = heap_live (trace s) - of_bool (started ud) \<and>
      only_io (\<lambda>c. \<exists>n. c = Http (HeapAlloc n)) s s1"
  proof (cases "started ud")
    case True
    then show ?thesis
      using a assms(2) by auto
  next
    case False
    then have "ud = no_user_data"
      using assms(2) by (simp add: ud_inv_def)
    then have al: "alloc_user_data E no_user_data USER_DATA_BUFFER_POST_SIZE s = (ud1, s1)"
      using a False by simp
    have "USER_DATA_BUFFER_POST_SIZE \<le> USER_DATA_BUFFER_GET_SIZE"
      by (simp add: USER_DATA_BUFFER_POST_SIZE_def USER_DATA_BUFFER_GET_SIZE_def)
    from alloc_user_data_inv [OF al this] show ?thesis
      using \<open>ud = no_user_data\<close> by (auto intro: only_io_push)
  qed
  have res: "(ok, ud') = (case request of
        Some chunk \<Rightarrow> if length chunk > 0 then append_user_data ud1 chunk else (True, ud1)
      | None \<Rightarrow> (True, ud1))" "s' = s1"
    using assms(1) a by (auto simp: accept_chunk_def split: prod.splits)
  show "ud_inv ud'" and "started ud'"
    and "heap_live (trace s') - 1 = heap_live (trace s) - of_bool (started ud)"
    and "ok \<Longrightarrow> payload ud' = payload ud @ (case request of None \<Rightarrow> [] | Some c \<Rightarrow> c)"
    and "only_io (\<lambda>c. \<exists>n. c = Http (HeapAlloc n)) s s'"
    using one res append_user_data_inv [of ud1 _ ok ud']
    by (auto split: option.splits if_splits)
qed

lemma handle_body_fits:
  assumes "good_fn patch_fn" and "good_fn post_fn" and "ud_inv ud" and "rsp_body rsp = []"
  shows "fits_buffer s ud (handle_body E client status request patch_fn post_fn rsp ud s)"
proof -
  obtain ok ud1 s1 where c: "accept_chunk E request ud s = (ok, ud1, s1)"
    by (metis prod_cases3)
  note inv = accept_chunk_inv [OF c assms(3)]
  let ?fn = "if client_method client = HTTP_PATCH then patch_fn else post_fn"
  have good: "good_fn ?fn"
    using assms(1,2) by simp
  show ?thesis
  proof (cases "ok \<and> status = HTTP_SERVER_REQUEST_DATA_FINAL")
    case False
    then show ?thesis
      using inv assms(4) free_user_data_result [OF inv(1)]
      by (auto simp: handle_body_def c fits_buffer_def)
  next
    case True
    show ?thesis
    proof (cases "call_method E ?fn ud1 s1")
      case None
      then show ?thesis
        using True by (simp add: handle_body_def c fits_buffer_def)
    next
      case (Some r)
      obtain ret ud2 s2 where r: "r = (ret, ud2, s2)"
        by (cases r)
      obtain f where f: "?fn = Some f" "f E ud1 s1 = Some (ret, ud2, s2)"
        using Some r unfolding call_method_def by (auto split: option.splits)
      then have mh: "method_handler f"
        using good by (simp add: good_fn_def)
      have b: "ud_inv ud2" "started ud2"
        using method_handler.buffer [OF mh f(2) inv(1)] inv(2) by auto
      have "heap_live (trace s2) = heap_live (trace s1)"
        by (rule method_handler.balanced [OF mh f(2)])
      then show ?thesis
        using True Some r b inv(3) assms(4) free_user_data_result [OF b(1)]
        by (simp add: handle_body_def c fits_buffer_def)
    qed
  qed
qed

lemma validate_headers_body:
  "validate_and_set_headers client methods rsp = (rc, rsp') \<Longrightarrow> rsp_body rsp = [] \<Longrightarrow> rsp_body rsp' = []"
  by (auto simp: validate_and_set_headers_def Let_def split: if_splits)

lemma fits_same: "ud_inv ud \<Longrightarrow> rsp_body rsp = [] \<Longrightarrow> fits_buffer s ud (Some (rsp, ud, s))"
  by (simp add: fits_buffer_def)

lemma fits_free: "ud_inv ud \<Longrightarrow> rsp_body rsp = [] \<Longrightarrow>
    fits_buffer s ud (Some (rsp, free_user_data E ud s))"
  by (simp add: fits_buffer_def free_user_data_result)

lemma redfish_handler_fits:
  assumes "good_fn get_fn" and "good_fn patch_fn" and "good_fn post_fn" and "ud_inv ud"
    and "rsp_body rsp = []"
  shows "fits_buffer s ud
    (redfish_handler E client status request rsp ud require_auth get_fn patch_fn post_fn s)"
proof -
  obtain rc rsp1 where v: "validate_and_set_headers client (allow_methods get_fn patch_fn post_fn) rsp
      = (rc, rsp1)"
    by fastforce
  have body: "rsp_body rsp1 = []"
    by (rule validate_headers_body [OF v assms(5)])
  have un: "rsp_body (set_unauth_response client rsp1) = []"
    by (simp add: set_unauth_response_def Let_def)
  have get: "fits_buffer s ud (handle_get E status f rsp1 ud s)" if "get_fn = Some f" for f
    by (rule handle_get_fits) (use assms(1,4) that body in \<open>simp_all add: good_fn_def\<close>)
  show ?thesis
    unfolding redfish_handler_def v
    by (simp add: fits_same fits_free assms(4,5) body un get
        handle_body_fits [OF assms(2-4) body] split: option.split)
qed

end
