(* ===== verification/Redfish_Json.thy ===== *)
theory Redfish_Json
  imports Redfish_Core Rtc Sensors_Vpd Host_Power
begin

text \<open>
  The documents of the Redfish service (redfish.c): the JSON descriptors, the document each
  GET handler builds from the state, and the GET handlers. A document lists its members in
  the order of its descriptor, as Zephyr's encoder does; \<open>conforms\<close> states that it has the
  members and types the descriptor declares. A member left NULL is \<open>JStr None\<close>.
\<close>

section \<open>Descriptors\<close>

definition REDFISH_COLLECTION_MEMBERS_MAX :: nat where "REDFISH_COLLECTION_MEMBERS_MAX = 1"
definition REDFISH_ODATA_VALUES_MAX :: nat where "REDFISH_ODATA_VALUES_MAX = 5"

definition member_descr :: json_descr where
  "member_descr =
    [(''@odata.id'', JSON_TOK_STRING)]"

definition collection_descr :: json_descr where
  "collection_descr =
    [(''@odata.id'', JSON_TOK_STRING), (''@odata.type'', JSON_TOK_STRING),
    (''Name'', JSON_TOK_STRING), (''Members@odata.count'', JSON_TOK_NUMBER),
    (''Members'', JSON_TOK_ARRAY REDFISH_COLLECTION_MEMBERS_MAX (JSON_TOK_OBJECT member_descr))]"

definition link_descr :: json_descr where
  "link_descr =
    [(''@odata.id'', JSON_TOK_STRING)]"

definition version_descr :: json_descr where
  "version_descr =
    [(''v1'', JSON_TOK_STRING)]"

definition service_root_links_descr :: json_descr where
  "service_root_links_descr =
    [(''Sessions'', JSON_TOK_OBJECT link_descr)]"

definition service_root_descr :: json_descr where
  "service_root_descr =
    [(''@odata.type'', JSON_TOK_STRING), (''@odata.id'', JSON_TOK_STRING),
    (''Id'', JSON_TOK_STRING), (''Name'', JSON_TOK_STRING), (''RedfishVersion'', JSON_TOK_STRING),
    (''UUID'', JSON_TOK_STRING), (''AccountService'', JSON_TOK_OBJECT link_descr),
    (''SessionService'', JSON_TOK_OBJECT link_descr), (''Managers'', JSON_TOK_OBJECT link_descr),
    (''Systems'', JSON_TOK_OBJECT link_descr), (''Chassis'', JSON_TOK_OBJECT link_descr),
    (''Links'', JSON_TOK_OBJECT service_root_links_descr)]"

definition session_service_descr :: json_descr where
  "session_service_descr =
    [(''@odata.id'', JSON_TOK_STRING), (''@odata.type'', JSON_TOK_STRING),
    (''Id'', JSON_TOK_STRING), (''Name'', JSON_TOK_STRING),
    (''Sessions'', JSON_TOK_OBJECT link_descr)]"

definition odata_value_descr :: json_descr where
  "odata_value_descr =
    [(''name'', JSON_TOK_STRING), (''kind'', JSON_TOK_STRING), (''url'', JSON_TOK_STRING)]"

definition odata_descr :: json_descr where
  "odata_descr =
    [(''@odata.context'', JSON_TOK_STRING),
    (''value'', JSON_TOK_ARRAY REDFISH_ODATA_VALUES_MAX (JSON_TOK_OBJECT odata_value_descr))]"

definition account_service_descr :: json_descr where
  "account_service_descr =
    [(''@odata.id'', JSON_TOK_STRING), (''@odata.type'', JSON_TOK_STRING),
    (''Id'', JSON_TOK_STRING), (''Name'', JSON_TOK_STRING),
    (''Accounts'', JSON_TOK_OBJECT link_descr)]"

definition account_descr :: json_descr where
  "account_descr =
    [(''@odata.id'', JSON_TOK_STRING), (''@odata.type'', JSON_TOK_STRING),
    (''Id'', JSON_TOK_STRING), (''RoleId'', JSON_TOK_STRING), (''Name'', JSON_TOK_STRING),
    (''UserName'', JSON_TOK_STRING), (''Password'', JSON_TOK_STRING),
    (''AccountTypes'', JSON_TOK_ARRAY 1 JSON_TOK_STRING)]"

definition manager_oem_wallabmc_descr :: json_descr where
  "manager_oem_wallabmc_descr =
    [(''@odata.type'', JSON_TOK_STRING), (''ZephyrVersion'', JSON_TOK_STRING)]"

definition manager_oem_descr :: json_descr where
  "manager_oem_descr =
    [(''WallaBMC'', JSON_TOK_OBJECT manager_oem_wallabmc_descr)]"

definition manager_descr :: json_descr where
  "manager_descr =
    [(''@odata.id'', JSON_TOK_STRING), (''@odata.type'', JSON_TOK_STRING),
    (''Id'', JSON_TOK_STRING), (''Name'', JSON_TOK_STRING), (''UUID'', JSON_TOK_STRING),
    (''DateTime'', JSON_TOK_STRING), (''FirmwareVersion'', JSON_TOK_STRING),
    (''Oem'', JSON_TOK_OBJECT manager_oem_descr),
    (''EthernetInterfaces'', JSON_TOK_OBJECT link_descr)]"

definition dhcp_v4_descr :: json_descr where
  "dhcp_v4_descr =
    [(''DHCPEnabled'', JSON_TOK_TRUE)]"

definition ipv4_addr_descr :: json_descr where
  "ipv4_addr_descr =
    [(''Address'', JSON_TOK_STRING), (''SubnetMask'', JSON_TOK_STRING),
    (''Gateway'', JSON_TOK_STRING), (''AddressOrigin'', JSON_TOK_STRING)]"

definition ethernet_interface_descr :: json_descr where
  "ethernet_interface_descr =
    [(''@odata.id'', JSON_TOK_STRING), (''@odata.type'', JSON_TOK_STRING),
    (''Id'', JSON_TOK_STRING), (''Name'', JSON_TOK_STRING), (''HostName'', JSON_TOK_STRING),
    (''DHCPv4'', JSON_TOK_OBJECT dhcp_v4_descr),
    (''IPv4Addresses'', JSON_TOK_ARRAY 1 (JSON_TOK_OBJECT ipv4_addr_descr)),
    (''IPv4StaticAddresses'', JSON_TOK_ARRAY 1 (JSON_TOK_OBJECT ipv4_addr_descr))]"

definition ntp_descr :: json_descr where
  "ntp_descr =
    [(''ProtocolEnabled'', JSON_TOK_TRUE), (''NTPServers'', JSON_TOK_ARRAY 1 JSON_TOK_STRING)]"

definition network_protocol_descr :: json_descr where
  "network_protocol_descr =
    [(''@odata.type'', JSON_TOK_STRING), (''Id'', JSON_TOK_STRING),
    (''NTP'', JSON_TOK_OBJECT ntp_descr)]"

definition reset_action_descr :: json_descr where
  "reset_action_descr =
    [(''target'', JSON_TOK_STRING),
    (''ResetType@Redfish.AllowableValues'', JSON_TOK_ARRAY 3 JSON_TOK_STRING)]"

definition actions_descr :: json_descr where
  "actions_descr =
    [(''#ComputerSystem.Reset'', JSON_TOK_OBJECT reset_action_descr)]"

definition processor_summary_descr :: json_descr where
  "processor_summary_descr =
    [(''Count'', JSON_TOK_NUMBER), (''Model'', JSON_TOK_STRING)]"

definition system_links_descr :: json_descr where
  "system_links_descr =
    [(''Chassis'', JSON_TOK_ARRAY 1 (JSON_TOK_OBJECT link_descr)),
    (''ManagedBy'', JSON_TOK_ARRAY 1 (JSON_TOK_OBJECT link_descr))]"

definition memory_summary_descr :: json_descr where
  "memory_summary_descr =
    [(''TotalSystemMemoryGiB'', JSON_TOK_NUMBER)]"

definition computer_system_descr :: json_descr where
  "computer_system_descr =
    [(''@odata.id'', JSON_TOK_STRING), (''@odata.type'', JSON_TOK_STRING),
    (''Id'', JSON_TOK_STRING), (''UUID'', JSON_TOK_STRING), (''Name'', JSON_TOK_STRING),
    (''SystemType'', JSON_TOK_STRING), (''Manufacturer'', JSON_TOK_STRING),
    (''Model'', JSON_TOK_STRING), (''SerialNumber'', JSON_TOK_STRING),
    (''PowerRestorePolicy'', JSON_TOK_STRING), (''PowerState'', JSON_TOK_STRING),
    (''ProcessorSummary'', JSON_TOK_OBJECT processor_summary_descr),
    (''MemorySummary'', JSON_TOK_OBJECT memory_summary_descr),
    (''Links'', JSON_TOK_OBJECT system_links_descr), (''Actions'', JSON_TOK_OBJECT actions_descr)]"

definition reset_descr :: json_descr where
  "reset_descr =
    [(''ResetType'', JSON_TOK_STRING)]"

definition chassis_links_descr :: json_descr where
  "chassis_links_descr =
    [(''ComputerSystems'', JSON_TOK_ARRAY 1 (JSON_TOK_OBJECT link_descr)),
    (''ManagedBy'', JSON_TOK_ARRAY 1 (JSON_TOK_OBJECT link_descr))]"

definition chassis_descr :: json_descr where
  "chassis_descr =
    [(''@odata.id'', JSON_TOK_STRING), (''@odata.type'', JSON_TOK_STRING),
    (''Id'', JSON_TOK_STRING), (''Name'', JSON_TOK_STRING), (''ChassisType'', JSON_TOK_STRING),
    (''Manufacturer'', JSON_TOK_STRING), (''Model'', JSON_TOK_STRING),
    (''SerialNumber'', JSON_TOK_STRING), (''PowerState'', JSON_TOK_STRING),
    (''Sensors'', JSON_TOK_OBJECT link_descr), (''Links'', JSON_TOK_OBJECT chassis_links_descr)]"

definition sensor_descr :: json_descr where
  "sensor_descr =
    [(''@odata.id'', JSON_TOK_STRING), (''@odata.type'', JSON_TOK_STRING),
    (''Id'', JSON_TOK_STRING), (''Name'', JSON_TOK_STRING), (''Reading'', JSON_TOK_NUMBER),
    (''ReadingType'', JSON_TOK_STRING), (''ReadingUnits'', JSON_TOK_STRING),
    (''PhysicalContext'', JSON_TOK_STRING)]"

lemmas descr_defs = member_descr_def collection_descr_def link_descr_def version_descr_def
  service_root_links_descr_def service_root_descr_def session_service_descr_def
  odata_value_descr_def odata_descr_def account_service_descr_def account_descr_def
  manager_oem_wallabmc_descr_def manager_oem_descr_def manager_descr_def dhcp_v4_descr_def
  ipv4_addr_descr_def ethernet_interface_descr_def ntp_descr_def network_protocol_descr_def
  reset_action_descr_def actions_descr_def processor_summary_descr_def system_links_descr_def
  memory_summary_descr_def computer_system_descr_def reset_descr_def chassis_links_descr_def
  chassis_descr_def sensor_descr_def

section \<open>Documents\<close>

abbreviation str :: "bytes \<Rightarrow> json" where
  "str x \<equiv> JStr (Some x)"

abbreviation link :: "bytes \<Rightarrow> json" where
  "link x \<equiv> JObj [(''@odata.id'', str x)]"

text \<open>\<open>struct redfish_collection\<close>, with \<open>members_count = members_len\<close>, the number of members.\<close>

definition collection :: "bytes \<Rightarrow> bytes \<Rightarrow> bytes \<Rightarrow> bytes list \<Rightarrow> json" where
  "collection odata_id odata_type name members =
     JObj [(''@odata.id'', str odata_id), (''@odata.type'', str odata_type), (''Name'', str name),
       (''Members@odata.count'', JNum (int (length members))), (''Members'', JArr (map link members))]"

text \<open>A GET handler whose document depends on the state only.\<close>

definition get_document :: "json \<Rightarrow> env \<Rightarrow> user_data \<Rightarrow> bmc \<Rightarrow> (int \<times> user_data \<times> bmc) option" where
  "get_document j E ud s = (let (ret, ud) = encode_reply E j ud in Some (ret, ud, s))"

subsection \<open>Service root, sessions, accounts\<close>

definition redfish_version_get_handler :: method_fn where
  "redfish_version_get_handler E ud s = get_document (JObj [(''v1'', str ''/redfish/v1/'')]) E ud s"

definition service_root_json :: json where
  "service_root_json =
     JObj [(''@odata.type'', str ''#ServiceRoot.v1_16_1.ServiceRoot''),
       (''@odata.id'', str ''/redfish/v1/''), (''Id'', str ''RootService''),
       (''Name'', str ''Root Service''), (''RedfishVersion'', str ''1.15.0''),
       (''UUID'', str ''92384634-2938-2342-8820-489239905423''),
       (''AccountService'', link ''/redfish/v1/AccountService''),
       (''SessionService'', link ''/redfish/v1/SessionService''),
       (''Managers'', link ''/redfish/v1/Managers''), (''Systems'', link ''/redfish/v1/Systems''),
       (''Chassis'', link ''/redfish/v1/Chassis''),
       (''Links'', JObj [(''Sessions'', link ''/redfish/v1/SessionService/Sessions'')])]"

definition service_root_get_handler :: method_fn where
  "service_root_get_handler E ud s = get_document service_root_json E ud s"

definition session_service_json :: json where
  "session_service_json =
     JObj [(''@odata.id'', str ''/redfish/v1/SessionService''),
       (''@odata.type'', str ''#SessionService.v1_1_9.SessionService''),
       (''Id'', str ''SessionService''), (''Name'', str ''Session Service''),
       (''Sessions'', link ''/redfish/v1/SessionService/Sessions'')]"

definition session_service_get_handler :: method_fn where
  "session_service_get_handler E ud s = get_document session_service_json E ud s"

definition sessions_collection_json :: json where
  "sessions_collection_json =
     collection ''/redfish/v1/SessionService/Sessions'' ''#SessionCollection.SessionCollection''
       ''Session Collection'' []"

definition sessions_collection_get_handler :: method_fn where
  "sessions_collection_get_handler E ud s = get_document sessions_collection_json E ud s"

definition odata_entry :: "bytes \<Rightarrow> bytes \<Rightarrow> json" where
  "odata_entry name url =
     JObj [(''name'', str name), (''kind'', str ''Singleton''), (''url'', str url)]"

definition odata_json :: json where
  "odata_json =
     JObj [(''@odata.context'', str ''/redfish/v1/$metadata''),
       (''value'', JArr [odata_entry ''Service'' ''/redfish/v1/'',
          odata_entry ''Systems'' ''/redfish/v1/Systems'',
          odata_entry ''Managers'' ''/redfish/v1/Managers'',
          odata_entry ''AccountService'' ''/redfish/v1/AccountService'',
          odata_entry ''Chassis'' ''/redfish/v1/Chassis''])]"

definition odata_get_handler :: method_fn where
  "odata_get_handler E ud s = get_document odata_json E ud s"

definition account_service_json :: json where
  "account_service_json =
     JObj [(''@odata.id'', str ''/redfish/v1/AccountService''),
       (''@odata.type'', str ''#AccountService.v1_10_0.AccountService''),
       (''Id'', str ''AccountService''), (''Name'', str ''Account Service''),
       (''Accounts'', link ''/redfish/v1/AccountService/Accounts'')]"

definition account_service_get_handler :: method_fn where
  "account_service_get_handler E ud s = get_document account_service_json E ud s"

definition accounts_collection_json :: json where
  "accounts_collection_json =
     collection ''/redfish/v1/AccountService/Accounts''
       ''#ManagerAccountCollection.ManagerAccountCollection'' ''Accounts Collection''
       [''/redfish/v1/AccountService/Accounts/1'']"

definition accounts_collection_get_handler :: method_fn where
  "accounts_collection_get_handler E ud s = get_document accounts_collection_json E ud s"

definition account_json :: json where
  "account_json =
     JObj [(''@odata.id'', str ''/redfish/v1/AccountService/Accounts/1''),
       (''@odata.type'', str ''#ManagerAccount.v1_9_0.ManagerAccount''), (''Id'', str ''1''),
       (''RoleId'', str ''Administrator''), (''Name'', str ''Administrator''),
       (''UserName'', str ''admin''), (''Password'', JStr None),
       (''AccountTypes'', JArr [str ''Redfish''])]"

definition account_get_handler :: method_fn where
  "account_get_handler E ud s = get_document account_json E ud s"

subsection \<open>Managers\<close>

definition managers_collection_json :: json where
  "managers_collection_json =
     collection ''/redfish/v1/Managers'' ''#ManagerCollection.ManagerCollection''
       ''Manager Collection'' [''/redfish/v1/Managers/bmc'']"

definition managers_collection_get_handler :: method_fn where
  "managers_collection_get_handler E ud s = get_document managers_collection_json E ud s"

definition two_digits :: "int \<Rightarrow> bytes" where
  "two_digits n = (if n < 10 then CHR ''0'' # dec_int n else dec_int n)"

text \<open>\<open>strftime\<close> with the format \<open>%Y-%m-%dT%H:%M:%SZ\<close>, into 30 bytes: where the text does not
  fit, the contents of the array are not specified.\<close>

definition iso_time :: "tm \<Rightarrow> bytes" where
  "iso_time t =
     dec_int (tm_year t + 1900) @ ''-'' @ two_digits (tm_mon t + 1) @ ''-'' @
     two_digits (tm_mday t) @ ''T'' @ two_digits (tm_hour t) @ '':'' @ two_digits (tm_min t) @ '':'' @
     two_digits (tm_sec t) @ ''Z''"

definition get_iso_time :: "env \<Rightarrow> bmc \<Rightarrow> bytes \<times> bmc" where
  "get_iso_time E s =
     (let ts = clock_now E (trace s); s = ext_ignore E (Time ClockGet) s
      in (iso_time (gmtime_r (fst ts)), s))"

definition manager_json :: "env \<Rightarrow> bytes \<Rightarrow> bytes \<Rightarrow> json" where
  "manager_json E uuid date_time =
     JObj [(''@odata.id'', str ''/redfish/v1/Managers/bmc''),
       (''@odata.type'', str ''#Manager.v1_11_0.Manager''), (''Id'', str ''bmc''),
       (''Name'', str ''WallaBMC''), (''UUID'', str uuid), (''DateTime'', str date_time),
       (''FirmwareVersion'', str (PROJECT_GIT_SHA (product E))),
       (''Oem'', JObj [(''WallaBMC'', JObj [
          (''@odata.type'', str ''#WallaBMC.v1_0_0.WallaBMC''),
          (''ZephyrVersion'', str (BANNER_VERSION (product E)))])]),
       (''EthernetInterfaces'', link ''/redfish/v1/Managers/bmc/EthernetInterfaces'')]"

definition manager_get_handler :: method_fn where
  "manager_get_handler E ud s =
     (let (date_time, s) = get_iso_time E s;
          (ret, uuid) = get_bmc_uuid_string E s
      in get_document (manager_json E uuid date_time) E ud s)"

definition ethernet_collection_json :: json where
  "ethernet_collection_json =
     collection ''/redfish/v1/Managers/bmc/EthernetInterfaces''
       ''#EthernetInterfaceCollection.EthernetInterfaceCollection''
       ''Ethernet Interface Collection'' [''/redfish/v1/Managers/bmc/EthernetInterfaces/eth0'']"

definition ethernet_collection_get_handler :: method_fn where
  "ethernet_collection_get_handler E ud s = get_document ethernet_collection_json E ud s"

subsection \<open>The Ethernet interface and its services\<close>

text \<open>\<open>net_addr_ntop\<close>; where it fails the array keeps what was in it.\<close>

definition ip_text :: "env \<Rightarrow> ip4 \<Rightarrow> bytes" where
  "ip_text E a = show_str (inet_ntop E a)"

definition address_origin :: "addr_type \<Rightarrow> bytes" where
  "address_origin t =
     (if t = NET_ADDR_DHCP then ''DHCP''
      else if t = NET_ADDR_MANUAL \<or> t = NET_ADDR_OVERRIDABLE then ''Static''
      else ''Unknown'')"

text \<open>The loop over the addresses of the interface: the first preferred one, otherwise the
  last one in use. The result is address, subnet and origin.\<close>

fun scan_unicast ::
  "env \<Rightarrow> (nat \<Rightarrow> addr_slot) \<Rightarrow> nat list \<Rightarrow> (bytes \<times> bytes \<times> bytes) option \<Rightarrow>
    (bytes \<times> bytes \<times> bytes) option" where
  "scan_unicast E slots [] acc = acc"
| "scan_unicast E slots (i # is) acc =
     (let addr = slots i in
      if is_used addr then
        let r = Some (ip_text E (slot_addr addr), ip_text E (slot_netmask addr),
                  address_origin (addr_type addr))
        in if addr_preferred addr then r else scan_unicast E slots is r
      else scan_unicast E slots is acc)"

definition ipv4_json :: "bytes \<Rightarrow> bytes \<Rightarrow> bytes \<Rightarrow> bytes option \<Rightarrow> json" where
  "ipv4_json addr subnet gw origin =
     JObj [(''Address'', str addr), (''SubnetMask'', str subnet), (''Gateway'', str gw),
       (''AddressOrigin'', JStr origin)]"

definition current_addresses :: "env \<Rightarrow> iface \<Rightarrow> bmc \<Rightarrow> json list" where
  "current_addresses E iface s =
     (case scan_unicast E (unicast E (trace s) iface) [0..<NET_IF_MAX_IPV4_ADDR E] None of
        None \<Rightarrow> []
      | Some (addr, subnet, origin) \<Rightarrow>
          let gw_addr = ipv4_gw E (trace s) iface in
          [ipv4_json addr subnet (if gw_addr \<noteq> 0 then ip_text E gw_addr else ''0.0.0.0'')
             (Some origin)])"

text \<open>The three texts lie in arrays of an inner block that has ended when they are encoded.\<close>

definition static_text :: "env \<Rightarrow> ip4 \<Rightarrow> bytes" where
  "static_text E a = after_scope E (ip_text E a)"

definition static_addresses :: "env \<Rightarrow> bmc \<Rightarrow> json list" where
  "static_addresses E s =
     (if config_bmc_default_ip4 s \<noteq> 0 then
        [ipv4_json (static_text E (config_bmc_default_ip4 s))
           (static_text E (config_bmc_default_ip4_nm s))
           (static_text E (config_bmc_default_ip4_gw s)) None]
      else [])"

definition ethernet_json :: "bytes \<Rightarrow> bool \<Rightarrow> json list \<Rightarrow> json list \<Rightarrow> json" where
  "ethernet_json host_name dhcp current static =
     JObj [(''@odata.id'', str ''/redfish/v1/Managers/bmc/EthernetInterfaces/eth0''),
       (''@odata.type'', str ''#EthernetInterface.v1_5_0.EthernetInterface''),
       (''Id'', str ''eth0''), (''Name'', str ''BMC Ethernet Interface''),
       (''HostName'', str host_name), (''DHCPv4'', JObj [(''DHCPEnabled'', JBool dhcp)]),
       (''IPv4Addresses'', JArr current), (''IPv4StaticAddresses'', JArr static)]"

text \<open>An interface without IPv4 configuration makes the loop read through a NULL pointer.\<close>

definition ethernet_get_handler :: method_fn where
  "ethernet_get_handler E ud s =
     (case default_iface E (trace s) of
        None \<Rightarrow>
          get_document (ethernet_json (hostname_now E (trace s)) (config_bmc_use_dhcp4 s) []
            (static_addresses E s)) E ud s
      | Some iface \<Rightarrow>
          if NET_IF_MAX_IPV4_ADDR E > 0 \<and> \<not> has_ipv4 E (trace s) iface then None
          else
            get_document (ethernet_json (hostname_now E (trace s)) (config_bmc_use_dhcp4 s)
              (current_addresses E iface s) (static_addresses E s)) E ud s)"

text \<open>\<open>config_bmc_ntp_server\<close> returns an array, so its pointer is never NULL.\<close>

definition network_protocol_json :: "bool \<Rightarrow> bytes \<Rightarrow> json" where
  "network_protocol_json use_ntp server =
     JObj [(''@odata.type'', str ''#ManagerNetworkProtocol.v1_9_0.ManagerNetworkProtocol''),
       (''Id'', str ''NetworkProtocol''),
       (''NTP'', JObj [(''ProtocolEnabled'', JBool use_ntp), (''NTPServers'', JArr [str server])])]"

definition network_protocol_get_handler :: method_fn where
  "network_protocol_get_handler E ud s =
     get_document (network_protocol_json (config_bmc_use_ntp s) (config_bmc_ntp_server s)) E ud s"

subsection \<open>Systems and chassis\<close>

definition systems_collection_json :: json where
  "systems_collection_json =
     collection ''/redfish/v1/Systems'' ''#ComputerSystemCollection.ComputerSystemCollection''
       ''Computer System Collection'' [''/redfish/v1/Systems/system'']"

definition systems_collection_get_handler :: method_fn where
  "systems_collection_get_handler E ud s = get_document systems_collection_json E ud s"

definition serial_number :: bytes where "serial_number = ''12345''"

definition system_json :: "product_info \<Rightarrow> bool \<Rightarrow> bool \<Rightarrow> json" where
  "system_json p auto_poweron powered =
     JObj [(''@odata.id'', str ''/redfish/v1/Systems/system''),
       (''@odata.type'', str ''#ComputerSystem.v1_22_0.ComputerSystem''), (''Id'', str ''system''),
       (''UUID'', str ''38947555-7742-3448-3784-823347823834''),
       (''Name'', str (SYSTEM_PRODUCT_NAME p)), (''SystemType'', str ''Physical''),
       (''Manufacturer'', str (SYSTEM_MANUFACTURER p)), (''Model'', str (SYSTEM_MODEL p)),
       (''SerialNumber'', str serial_number),
       (''PowerRestorePolicy'', str (if auto_poweron then ''AlwaysOn'' else ''AlwaysOff'')),
       (''PowerState'', str (if powered then ''On'' else ''Off'')),
       (''ProcessorSummary'', JObj [(''Count'', JNum (SYSTEM_PROCESSOR_COUNT p)),
          (''Model'', str (SYSTEM_PROCESSOR_MODEL p))]),
       (''MemorySummary'', JObj [(''TotalSystemMemoryGiB'', JNum (SYSTEM_MEMORY_GIB p))]),
       (''Links'', JObj [(''Chassis'', JArr [link ''/redfish/v1/Chassis/1'']),
          (''ManagedBy'', JArr [link ''/redfish/v1/Managers/bmc''])]),
       (''Actions'', JObj [(''#ComputerSystem.Reset'', JObj [
          (''target'', str ''/redfish/v1/Systems/system/Actions/ComputerSystem.Reset''),
          (''ResetType@Redfish.AllowableValues'',
             JArr [str ''On'', str ''ForceOff'', str ''PowerCycle''])])])]"

definition system_get_handler :: method_fn where
  "system_get_handler E ud s =
     get_document (system_json (product E) (config_host_auto_poweron s) (power_get_state s)) E ud s"

definition chassis_collection_json :: json where
  "chassis_collection_json =
     collection ''/redfish/v1/Chassis'' ''#ChassisCollection.ChassisCollection''
       ''Chassis Collection'' [''/redfish/v1/Chassis/1'']"

definition chassis_collection_get_handler :: method_fn where
  "chassis_collection_get_handler E ud s = get_document chassis_collection_json E ud s"

definition chassis_json :: "product_info \<Rightarrow> bool \<Rightarrow> json" where
  "chassis_json p powered =
     JObj [(''@odata.id'', str ''/redfish/v1/Chassis/1''),
       (''@odata.type'', str ''#Chassis.v1_22_0.Chassis''), (''Id'', str ''1''),
       (''Name'', str ''Chassis''), (''ChassisType'', str ''StandAlone''),
       (''Manufacturer'', str (SYSTEM_MANUFACTURER p)), (''Model'', str (SYSTEM_MODEL p)),
       (''SerialNumber'', str serial_number),
       (''PowerState'', str (if powered then ''On'' else ''Off'')),
       (''Sensors'', link ''/redfish/v1/Chassis/1/Sensors''),
       (''Links'', JObj [(''ComputerSystems'', JArr [link ''/redfish/v1/Systems/system'']),
          (''ManagedBy'', JArr [link ''/redfish/v1/Managers/bmc''])])]"

definition chassis_get_handler :: method_fn where
  "chassis_get_handler E ud s = get_document (chassis_json (product E) (power_get_state s)) E ud s"

definition sensors_collection_json :: "bool \<Rightarrow> json" where
  "sensors_collection_json sensors =
     collection ''/redfish/v1/Chassis/1/Sensors'' ''#SensorCollection.SensorCollection''
       ''Chassis Sensor Collection''
       (if sensors then [''/redfish/v1/Chassis/1/Sensors/TempBmc''] else [])"

definition sensors_collection_get_handler :: method_fn where
  "sensors_collection_get_handler E ud s =
     get_document (sensors_collection_json (CONFIG_APP_SENSORS E)) E ud s"

definition sensor_json :: "int \<Rightarrow> json" where
  "sensor_json reading =
     JObj [(''@odata.id'', str ''/redfish/v1/Chassis/1/Sensors/TempBmc''),
       (''@odata.type'', str ''#Sensor.v1_2_0.Sensor''), (''Id'', str ''TempBmc''),
       (''Name'', str ''BMC SoC Temperature''), (''Reading'', JNum reading),
       (''ReadingType'', str ''Temperature''), (''ReadingUnits'', str ''Cel''),
       (''PhysicalContext'', str ''Manager'')]"

text \<open>Only a negative result of the driver counts as an error here: with a positive one the
  value read is whatever \<open>val\<close> held, here 0.\<close>

definition sensor_temp_bmc_get_handler :: method_fn where
  "sensor_temp_bmc_get_handler E ud s =
     (let (ret, val, s) = read_die_temperature E s
      in get_document (sensor_json (if ret < 0 then - 1 else fst val)) E ud s)"

section \<open>Conformance\<close>

fun conforms :: "json_tok \<Rightarrow> json \<Rightarrow> bool"
  and members_conform :: "(bytes \<times> json_tok) list \<Rightarrow> (bytes \<times> json) list \<Rightarrow> bool"
  and elements_conform :: "json_tok \<Rightarrow> json list \<Rightarrow> bool" where
  "conforms JSON_TOK_STRING j = (case j of JStr x \<Rightarrow> True | _ \<Rightarrow> False)"
| "conforms JSON_TOK_NUMBER j = (case j of JNum n \<Rightarrow> True | _ \<Rightarrow> False)"
| "conforms JSON_TOK_TRUE j = (case j of JBool b \<Rightarrow> True | _ \<Rightarrow> False)"
| "conforms (JSON_TOK_OBJECT d) j = (case j of JObj ms \<Rightarrow> members_conform d ms | _ \<Rightarrow> False)"
| "conforms (JSON_TOK_ARRAY n t) j =
     (case j of JArr xs \<Rightarrow> length xs \<le> n \<and> elements_conform t xs | _ \<Rightarrow> False)"
| "members_conform [] ms = (ms = [])"
| "members_conform ((n, t) # d) ms =
     (case ms of [] \<Rightarrow> False | (m, j) # ms \<Rightarrow> m = n \<and> conforms t j \<and> members_conform d ms)"
| "elements_conform t [] = True"
| "elements_conform t (j # js) = (conforms t j \<and> elements_conform t js)"

end
