(* ===== verification/Redfish_Handlers.thy ===== *)
theory Redfish_Handlers
  imports Redfish_Json
begin

text \<open>
  The PATCH and POST handlers of the Redfish service (redfish.c). A handler parses the body
  with Zephyr's \<open>json_obj_parse\<close>, a parameter of the model that gives an error or the
  members it stored in the payload structure; a member that is absent keeps what the
  structure held before, which is zero, a sentinel, or, in \<open>manager_patch_handler\<close>, whatever
  was on the stack. The relation \<open>redfish_effects\<close> says by which operations of the firmware
  a handler may change the state.
\<close>

section \<open>Members of a payload\<close>

definition str_member :: "bytes \<Rightarrow> (bytes \<times> json) list \<Rightarrow> bytes option" where
  "str_member n ms = (case map_of ms n of Some (JStr x) \<Rightarrow> x | _ \<Rightarrow> None)"

definition bool_member :: "bytes \<Rightarrow> (bytes \<times> json) list \<Rightarrow> bool option" where
  "bool_member n ms = (case map_of ms n of Some (JBool b) \<Rightarrow> Some b | _ \<Rightarrow> None)"

definition arr_member :: "bytes \<Rightarrow> (bytes \<times> json) list \<Rightarrow> json list option" where
  "arr_member n ms = (case map_of ms n of Some (JArr xs) \<Rightarrow> Some xs | _ \<Rightarrow> None)"

definition obj_member :: "bytes \<Rightarrow> (bytes \<times> json) list \<Rightarrow> (bytes \<times> json) list" where
  "obj_member n ms = (case map_of ms n of Some (JObj xs) \<Rightarrow> xs | _ \<Rightarrow> [])"

text \<open>The first element of an array in a zeroed structure.\<close>

definition first_object :: "json list \<Rightarrow> (bytes \<times> json) list" where
  "first_object xs = (case xs of JObj ms # _ \<Rightarrow> ms | _ \<Rightarrow> [])"

definition first_string :: "json list \<Rightarrow> bytes option" where
  "first_string xs = (case xs of JStr x # _ \<Rightarrow> x | _ \<Rightarrow> None)"

section \<open>The handlers\<close>

definition account_patch_handler :: method_fn where
  "account_patch_handler E ud s =
     (case json_obj_parse E account_descr (payload ud) of
        Inl ret \<Rightarrow> Some (HTTP_400_BAD_REQUEST, ud, s)
      | Inr ms \<Rightarrow>
          case str_member ''Password'' ms of
            Some password \<Rightarrow> Some (0, ud, snd (config_bmc_password_set E password s))
          | None \<Rightarrow> Some (0, ud, s))"

definition manager_patch_handler :: method_fn where
  "manager_patch_handler E ud s =
     (case json_obj_parse E manager_descr (payload ud) of
        Inl ret \<Rightarrow> Some (HTTP_400_BAD_REQUEST, ud, s)
      | Inr ms \<Rightarrow>
          let date_time = (case str_member ''DateTime'' ms of
                None \<Rightarrow> uninit_ptr E (trace s) | Some x \<Rightarrow> Some x) in
          case date_time of
            Some x \<Rightarrow>
              let (ret, s) = time_set_from_iso_str E x s in
              if ret \<noteq> 0 then Some (HTTP_500_INTERNAL_SERVER_ERROR, ud, s) else Some (0, ud, s)
          | None \<Rightarrow> Some (0, ud, s))"

text \<open>The three parts of \<open>ethernet_patch_handler\<close>.\<close>

definition patch_host_name :: "env \<Rightarrow> bytes option \<Rightarrow> bmc \<Rightarrow> int \<times> bmc" where
  "patch_host_name E host_name s =
     (case host_name of None \<Rightarrow> (0, s) | Some x \<Rightarrow> config_bmc_hostname_set E x s)"

definition patch_dhcp4 :: "env \<Rightarrow> bool option \<Rightarrow> bmc \<Rightarrow> bmc" where
  "patch_dhcp4 E enabled s =
     (case enabled of None \<Rightarrow> s | Some b \<Rightarrow> snd (config_bmc_use_dhcp4_set E b s))"

definition patch_static_address :: "env \<Rightarrow> json list option \<Rightarrow> bmc \<Rightarrow> int \<times> bmc" where
  "patch_static_address E addresses s =
     (case addresses of
        None \<Rightarrow> (0, s)
      | Some xs \<Rightarrow>
          let redfish_static_addr = first_object xs;
              (ret, s) = config_bmc_default_ip4_set E (str_member ''Address'' redfish_static_addr) s
          in if ret \<noteq> 0 then (ret, s)
             else
               let (ret, s) = config_bmc_default_ip4_nm_set E
                     (str_member ''SubnetMask'' redfish_static_addr) s in
               if ret \<noteq> 0 then (ret, s)
               else config_bmc_default_ip4_gw_set E (str_member ''Gateway'' redfish_static_addr) s)"

definition ethernet_patch_handler :: method_fn where
  "ethernet_patch_handler E ud s =
     (case json_obj_parse E ethernet_interface_descr (payload ud) of
        Inl ret \<Rightarrow> Some (HTTP_400_BAD_REQUEST, ud, s)
      | Inr ms \<Rightarrow>
          let (ret, s) = patch_host_name E (str_member ''HostName'' ms) s in
          if ret \<noteq> 0 then Some (HTTP_500_INTERNAL_SERVER_ERROR, ud, s)
          else
            let s = patch_dhcp4 E (bool_member ''DHCPEnabled'' (obj_member ''DHCPv4'' ms)) s;
                (ret, s) = patch_static_address E (arr_member ''IPv4StaticAddresses'' ms) s
            in if ret \<noteq> 0 then Some (HTTP_500_INTERNAL_SERVER_ERROR, ud, s) else Some (0, ud, s))"

text \<open>\<open>strlcpy\<close> from the NULL pointer of an empty list of servers is undefined.\<close>

definition patch_ntp_server :: "env \<Rightarrow> json list option \<Rightarrow> bmc \<Rightarrow> (int \<times> bmc) option" where
  "patch_ntp_server E servers s =
     (case servers of
        None \<Rightarrow> Some (0, s)
      | Some xs \<Rightarrow>
          case first_string xs of
            None \<Rightarrow> None
          | Some server \<Rightarrow> Some (config_bmc_ntp_server_set E server s))"

definition network_protocol_patch_handler :: method_fn where
  "network_protocol_patch_handler E ud s =
     (case json_obj_parse E network_protocol_descr (payload ud) of
        Inl ret \<Rightarrow> Some (HTTP_400_BAD_REQUEST, ud, s)
      | Inr ms \<Rightarrow>
          case patch_ntp_server E (arr_member ''NTPServers'' (obj_member ''NTP'' ms)) s of
            None \<Rightarrow> None
          | Some (ret, s) \<Rightarrow>
              if ret \<noteq> 0 then Some (HTTP_500_INTERNAL_SERVER_ERROR, ud, s)
              else
                case bool_member ''ProtocolEnabled'' (obj_member ''NTP'' ms) of
                  None \<Rightarrow> Some (0, ud, s)
                | Some b \<Rightarrow> Some (0, ud, snd (config_bmc_use_ntp_set E b s)))"

definition system_patch_handler :: method_fn where
  "system_patch_handler E ud s =
     (case json_obj_parse E computer_system_descr (payload ud) of
        Inl ret \<Rightarrow> Some (HTTP_400_BAD_REQUEST, ud, s)
      | Inr ms \<Rightarrow>
          case str_member ''PowerRestorePolicy'' ms of
            None \<Rightarrow> Some (0, ud, s)
          | Some policy \<Rightarrow>
              if c_str policy \<noteq> ''AlwaysOn'' \<and> c_str policy \<noteq> ''AlwaysOff''
              then Some (HTTP_400_BAD_REQUEST, ud, s)
              else
                let (ret, s) = config_host_auto_poweron_set E (c_str policy = ''AlwaysOn'') s in
                if ret \<noteq> 0 then Some (HTTP_500_INTERNAL_SERVER_ERROR, ud, s)
                else Some (0, ud, s))"

text \<open>Without a \<open>ResetType\<close> the comparison reads through a NULL pointer.\<close>

definition system_reset_post_handler :: method_fn where
  "system_reset_post_handler E ud s =
     (case json_obj_parse E reset_descr (payload ud) of
        Inl ret \<Rightarrow> Some (HTTP_400_BAD_REQUEST, ud, s)
      | Inr ms \<Rightarrow>
          case str_member ''ResetType'' ms of
            None \<Rightarrow> None
          | Some reset_type \<Rightarrow>
              if c_str reset_type = ''On'' then Some (0, ud, power_set_state E True s)
              else if c_str reset_type = ''ForceOff'' then Some (0, ud, power_set_state E False s)
              else if c_str reset_type = ''PowerCycle'' then Some (0, ud, snd (power_reset E s))
              else Some (HTTP_400_BAD_REQUEST, ud, s))"

section \<open>What a handler may do\<close>

text \<open>A call of a setter of the configuration, a switch of the host's power, a reset pulse, a
  new time, or calls into Zephyr that read; and any sequence of these.\<close>

inductive redfish_effect :: "env \<Rightarrow> bmc \<Rightarrow> bmc \<Rightarrow> bool" for E where
  effect_config: "config_call E s rc s' \<Longrightarrow> redfish_effect E s s'"
| effect_power: "redfish_effect E s (power_set_state E on s)"
| effect_reset: "power_reset E s = (rc, s') \<Longrightarrow> redfish_effect E s s'"
| effect_time: "time_set_from_iso_str E date s = (rc, s') \<Longrightarrow> redfish_effect E s s'"
| effect_io: "only_io no_heap s s' \<Longrightarrow> redfish_effect E s s'"

inductive redfish_effects :: "env \<Rightarrow> bmc \<Rightarrow> bmc \<Rightarrow> bool" for E where
  effects_none: "redfish_effects E s s"
| effects_more: "redfish_effects E s t \<Longrightarrow> redfish_effect E t u \<Longrightarrow> redfish_effects E s u"

lemma redfish_effects_step [intro]: "redfish_effect E s t \<Longrightarrow> redfish_effects E s t"
  by (rule effects_more [OF effects_none])

lemma redfish_effects_trans [trans]:
  assumes "redfish_effects E t u" and "redfish_effects E s t"
  shows "redfish_effects E s u"
  using assms by (induction rule: redfish_effects.induct) (auto intro: effects_more)

section \<open>The calls an effect makes\<close>

text \<open>The history only grows, by calls that satisfy \<open>P\<close>; the other variables may change.\<close>

definition traced :: "(call \<Rightarrow> bool) \<Rightarrow> bmc \<Rightarrow> bmc \<Rightarrow> bool" where
  "traced P s s' \<longleftrightarrow> (\<exists>cs. trace s' = cs @ trace s \<and> (\<forall>c \<in> set cs. P c))"

lemma traced_only_io: "only_io P s t \<Longrightarrow> traced P s t"
  by (auto simp: traced_def elim!: only_ioE)

lemma traced_refl [simp, intro]: "traced P s s"
  by (rule traced_only_io) simp

lemma traced_trans [trans]:
  assumes "traced P s t" and "traced P t u"
  shows "traced P s u"
proof -
  from assms obtain cs ds where "\<forall>c \<in> set cs. P c" "trace t = cs @ trace s"
    "\<forall>c \<in> set ds. P c" "trace u = ds @ trace t"
    by (auto simp: traced_def)
  then have "trace u = (ds @ cs) @ trace s" and "\<forall>c \<in> set (ds @ cs). P c"
    by auto
  then show ?thesis
    unfolding traced_def by blast
qed

lemma traced_same: "trace u = trace t \<Longrightarrow> traced P s t \<Longrightarrow> traced P s u"
  by (simp add: traced_def)

lemma traced_push: "P c \<Longrightarrow> traced P s t \<Longrightarrow> trace u = c # trace t \<Longrightarrow> traced P s u"
  unfolding traced_def by (metis Cons_eq_appendI insert_iff list.set(2))

named_theorems traced_intro \<open>from traced P s t, traced P s (snd (f t)) for an operation f\<close>

lemma traced_statements [traced_intro]:
  fixes s t :: bmc
  shows "traced P s t \<Longrightarrow> traced P s (snd (a, t))"
    and "traced P s (snd p) \<Longrightarrow> (\<And>a t. traced P s t \<Longrightarrow> traced P s (snd (F a t))) \<Longrightarrow>
      traced P s (snd (case p of (a, t) \<Rightarrow> F a t))"
    and "(c \<Longrightarrow> traced P s (snd x)) \<Longrightarrow> (\<not> c \<Longrightarrow> traced P s (snd y)) \<Longrightarrow>
      traced P s (snd (if c then x else y))"
    and "(c \<Longrightarrow> traced P s t) \<Longrightarrow> (\<not> c \<Longrightarrow> traced P s u) \<Longrightarrow> traced P s (if c then t else u)"
    and "(\<And>v. traced P s (snd (J v))) \<Longrightarrow> (\<And>v. traced P s (snd (K v))) \<Longrightarrow>
      traced P s (snd (case alt of Inl v \<Rightarrow> J v | Inr v \<Rightarrow> K v))"
    and "traced P s t \<Longrightarrow> traced P s (cfg_update f t)"
    and "P call \<Longrightarrow> traced P s t \<Longrightarrow> traced P s (snd (ext E call t))"
    and "P call \<Longrightarrow> traced P s t \<Longrightarrow> traced P s (ext_ignore E call t)"
  by (auto split: prod.split sum.split intro: traced_same traced_push simp: ext_def ext_ignore_eq)

lemma traced_io: "only_io P t u \<Longrightarrow> traced P s t \<Longrightarrow> traced P s u"
  by (blast intro: traced_trans traced_only_io)

lemma no_heap_simps [simp]:
  "no_heap (Nvs a)" "no_heap (Net b)" "no_heap (Gpio c)" "no_heap (Kernel d)" "no_heap (Time e)"
  "no_heap (Sensor f)"
  by (simp_all add: no_heap_def)

lemma traced_callees [traced_intro]:
  fixes s t :: bmc
  assumes "traced no_heap s t"
  shows "traced no_heap s (snd (net_do_set_hostname E h t))"
    and "traced no_heap s (snd (net_do_set_default_ip4_from_config E t))"
    and "traced no_heap s (snd (net_start_dhcp4 E t))"
    and "traced no_heap s (snd (net_stop_dhcp4 E t))"
    and "traced no_heap s (snd (config_write_u8 E i v8 t))"
    and "traced no_heap s (snd (config_write_u32 E i v32 t))"
    and "traced no_heap s (snd (config_write_str E i v t))"
  unfolding config_write_u8_def config_write_u32_def config_write_str_def
  by (auto intro!: traced_io [OF _ assms] io_intro)

lemma traced_ntp [traced_intro]:
  fixes s t :: bmc
  assumes "traced no_heap s t"
  shows "traced no_heap s (snd (start_ntp E t))" and "traced no_heap s (snd (stop_ntp E t))"
  using assms
  by (auto simp: start_ntp_def stop_ntp_def schedule_ntp_def ext_ignore_eq Let_def traced_def)

lemma setters_traced:
  shows "traced no_heap s (snd (config_bmc_hostname_set E x s))"
    and "traced no_heap s (snd (config_bmc_default_ip4_set E y s))"
    and "traced no_heap s (snd (config_bmc_default_ip4_nm_set E y s))"
    and "traced no_heap s (snd (config_bmc_default_ip4_gw_set E y s))"
    and "traced no_heap s (snd (config_bmc_use_dhcp4_set E b s))"
    and "traced no_heap s (snd (config_bmc_use_ntp_set E b s))"
    and "traced no_heap s (snd (config_bmc_ntp_server_set E x s))"
    and "traced no_heap s (snd (config_bmc_password_set E x s))"
    and "traced no_heap s (snd (config_host_auto_poweron_set E b s))"
  unfolding config_bmc_hostname_set_def config_bmc_default_ip4_set_def
    config_bmc_default_ip4_nm_set_def config_bmc_default_ip4_gw_set_def
    config_bmc_use_dhcp4_set_def config_bmc_use_ntp_set_def config_bmc_ntp_server_set_def
    config_bmc_password_set_def config_host_auto_poweron_set_def Let_def
  by (auto intro!: traced_intro)

lemma config_call_traced: "config_call E s rc s' \<Longrightarrow> traced no_heap s s'"
  by (induction rule: config_call.induct) (metis setters_traced snd_conv)+

lemma power_set_state_traced: "traced no_heap s (power_set_state E on s)"
proof -
  have "only_io no_heap s (snd (set_power_gpios E v is s))" for v "is"
    by (auto intro!: io_intro)
  then have "traced no_heap s (snd (set_power_gpios E v is s))" for v "is"
    by (rule traced_only_io)
  then show ?thesis
    by (auto simp: power_set_state_def power_on_def power_off_def traced_def split: prod.split)
      (metis snd_conv)+
qed

lemma redfish_effect_traced: "redfish_effect E s t \<Longrightarrow> traced no_heap s t"
proof (induction rule: redfish_effect.induct)
  case (effect_reset s rc s')
  have "only_io no_heap s (snd (power_reset E s))"
    by (auto intro!: io_intro)
  then show ?case
    by (simp add: effect_reset traced_only_io)
next
  case (effect_time date s rc s')
  have "only_io no_heap s (snd (time_set_from_iso_str E date s))"
    by (auto intro!: io_intro)
  then show ?case
    by (simp add: effect_time traced_only_io)
qed (auto intro: config_call_traced power_set_state_traced traced_only_io)

lemma redfish_effects_traced: "redfish_effects E s t \<Longrightarrow> traced no_heap s t"
  by (induction rule: redfish_effects.induct)
    (auto intro: traced_trans dest: redfish_effect_traced)

lemma power_set_state_config: "config_data (power_set_state E on s) = config_data s"
proof -
  have "only_io any_call s (snd (set_power_gpios E v is s))" for v "is"
    by (auto intro!: io_intro)
  from only_io_fields(2) [OF this] show ?thesis
    by (auto simp: power_set_state_def power_on_def power_off_def split: prod.split)
      (metis snd_conv)+
qed

text \<open>Only the setters change the configuration.\<close>

lemma redfish_effect_config:
  "redfish_effect E s t \<Longrightarrow> config_data t = config_data s \<or> (\<exists>rc. config_call E s rc t)"
proof (induction rule: redfish_effect.induct)
  case (effect_reset s rc s')
  have "only_io any_call s (snd (power_reset E s))"
    by (auto intro!: io_intro)
  from only_io_fields(2) [OF this] show ?case
    by (simp add: effect_reset)
next
  case (effect_time date s rc s')
  have "only_io any_call s (snd (time_set_from_iso_str E date s))"
    by (auto intro!: io_intro)
  from only_io_fields(2) [OF this] show ?case
    by (simp add: effect_time)
qed (auto simp: power_set_state_config dest: only_io_fields(2))

lemma redfish_effects_wf:
  "redfish_effects E s t \<Longrightarrow> wf_config (config_data s) \<Longrightarrow> wf_config (config_data t)"
  by (induction rule: redfish_effects.induct)
    (auto dest!: redfish_effect_config config_call_wf)

section \<open>The contract of the handlers\<close>

text \<open>A handler of this service keeps the buffer and changes the state by its effects only.\<close>

locale effect_handler =
  fixes fn :: method_fn
  assumes keeps_buffer: "fn E ud s = Some (ret, ud', s') \<Longrightarrow> ud_inv ud \<Longrightarrow>
      ud_inv ud' \<and> started ud' = started ud"
    and effects: "fn E ud s = Some (ret, ud', s') \<Longrightarrow> redfish_effects E s s'"
begin

lemma keeps_wf: "fn E ud s = Some (ret, ud', s') \<Longrightarrow> wf_config (config_data s) \<Longrightarrow>
    wf_config (config_data s')"
  by (rule redfish_effects_wf [OF effects])

end

sublocale effect_handler \<subseteq> handler: method_handler fn
  using keeps_buffer effects redfish_effects_traced [unfolded traced_def]
  by unfold_locales blast+

context effect_handler
begin

lemma is_method_handler: "method_handler fn"
  by (rule handler.method_handler_axioms)

end

text \<open>A GET handler: it encodes one document and reads the clock or a sensor at most.\<close>

lemma append_pieces_inv:
  "append_pieces ps r ud = (ret, ud') \<Longrightarrow> ud_inv ud \<Longrightarrow> ud_inv ud' \<and> started ud' = started ud"
proof (induction ps arbitrary: ud)
  case (Cons p ps)
  obtain ok ud1 where a: "append_user_data ud p = (ok, ud1)"
    by fastforce
  from append_user_data_inv [OF this Cons.prems(2)] Cons show ?case
    by (auto simp: user_data_json_append_def a split: if_splits)
qed simp

lemma encode_reply_inv:
  "encode_reply E j ud = (ret, ud') \<Longrightarrow> ud_inv ud \<Longrightarrow> ud_inv ud' \<and> started ud' = started ud"
  by (auto simp: encode_reply_def json_obj_encode_def split: prod.splits if_splits
      dest: append_pieces_inv)

lemma get_document_handler:
  "get_document j E ud s = Some (ret, ud', s') \<Longrightarrow>
    s' = s \<and> (ud_inv ud \<longrightarrow> ud_inv ud' \<and> started ud' = started ud)"
  by (auto simp: get_document_def split: prod.splits dest: encode_reply_inv)

text \<open>The calls a GET handler may make.\<close>

definition read_call :: "call \<Rightarrow> bool" where
  "read_call c \<longleftrightarrow> (case c of Time ClockGet \<Rightarrow> True | Sensor _ \<Rightarrow> True | _ \<Rightarrow> False)"

lemma read_call_simps [simp]: "read_call (Time ClockGet)" "read_call (Sensor a)"
  by (simp_all add: read_call_def)

lemma read_call_no_heap: "read_call c \<Longrightarrow> no_heap c"
  by (auto simp: read_call_def no_heap_def)

locale get_fn = effect_handler +
  assumes safe: "fn E ud s = Some (ret, ud', s') \<Longrightarrow> only_io read_call s s'"
    and document: "fn E ud s = Some (ret, ud', s') \<Longrightarrow>
      \<exists>j. encode_reply E j ud = (ret, ud') \<and> (\<forall>ud. fn E ud s = get_document j E ud s')"

lemma get_fnI:
  assumes "\<And>E s. (\<forall>ud. fn E ud s = None) \<or>
    (\<exists>j t. (\<forall>ud. fn E ud s = get_document j E ud t) \<and> only_io read_call s t)"
  shows "get_fn fn"
proof
  fix E ud s ret ud' s'
  assume r: "fn E ud s = Some (ret, ud', s')"
  with assms [of E s] obtain j t where f: "\<And>ud. fn E ud s = get_document j E ud t"
    and io: "only_io read_call s t"
    by auto
  with r have e: "encode_reply E j ud = (ret, ud')" and t: "s' = t"
    by (auto simp: get_document_def split: prod.splits)
  from encode_reply_inv [OF e]
  show "ud_inv ud \<Longrightarrow> ud_inv ud' \<and> started ud' = started ud" .
  show "only_io read_call s s'"
    using io t by simp
  then show "redfish_effects E s s'"
    by (auto intro!: redfish_effects_step effect_io elim!: only_io_mono dest: read_call_no_heap)
  show "\<exists>j. encode_reply E j ud = (ret, ud') \<and> (\<forall>ud. fn E ud s = get_document j E ud s')"
    using e f t by auto
qed

text \<open>A handler of PATCH or POST that answers 400 has changed nothing.\<close>

locale body_fn = effect_handler +
  assumes rejects: "fn E ud s = Some (HTTP_400_BAD_REQUEST, ud', s') \<Longrightarrow> s' = s"

lemmas plain_get_handlers = redfish_version_get_handler_def service_root_get_handler_def
  session_service_get_handler_def sessions_collection_get_handler_def odata_get_handler_def
  account_service_get_handler_def accounts_collection_get_handler_def account_get_handler_def
  managers_collection_get_handler_def ethernet_collection_get_handler_def
  network_protocol_get_handler_def systems_collection_get_handler_def system_get_handler_def
  chassis_collection_get_handler_def chassis_get_handler_def sensors_collection_get_handler_def

interpretation redfish_version_get: get_fn redfish_version_get_handler
  by (rule get_fnI) (auto simp: plain_get_handlers)

interpretation service_root_get: get_fn service_root_get_handler
  by (rule get_fnI) (auto simp: plain_get_handlers)

interpretation session_service_get: get_fn session_service_get_handler
  by (rule get_fnI) (auto simp: plain_get_handlers)

interpretation sessions_collection_get: get_fn sessions_collection_get_handler
  by (rule get_fnI) (auto simp: plain_get_handlers)

interpretation odata_get: get_fn odata_get_handler
  by (rule get_fnI) (auto simp: plain_get_handlers)

interpretation account_service_get: get_fn account_service_get_handler
  by (rule get_fnI) (auto simp: plain_get_handlers)

interpretation accounts_collection_get: get_fn accounts_collection_get_handler
  by (rule get_fnI) (auto simp: plain_get_handlers)

interpretation account_get: get_fn account_get_handler
  by (rule get_fnI) (auto simp: plain_get_handlers)

interpretation managers_collection_get: get_fn managers_collection_get_handler
  by (rule get_fnI) (auto simp: plain_get_handlers)

interpretation ethernet_collection_get: get_fn ethernet_collection_get_handler
  by (rule get_fnI) (auto simp: plain_get_handlers)

interpretation network_protocol_get: get_fn network_protocol_get_handler
  by (rule get_fnI) (auto simp: plain_get_handlers)

interpretation systems_collection_get: get_fn systems_collection_get_handler
  by (rule get_fnI) (auto simp: plain_get_handlers)

interpretation system_get: get_fn system_get_handler
  by (rule get_fnI) (auto simp: plain_get_handlers)

interpretation chassis_collection_get: get_fn chassis_collection_get_handler
  by (rule get_fnI) (auto simp: plain_get_handlers)

interpretation chassis_get: get_fn chassis_get_handler
  by (rule get_fnI) (auto simp: plain_get_handlers)

interpretation sensors_collection_get: get_fn sensors_collection_get_handler
  by (rule get_fnI) (auto simp: plain_get_handlers)

interpretation manager_get: get_fn manager_get_handler
  by (rule get_fnI)
    (auto simp: manager_get_handler_def get_iso_time_def get_bmc_uuid_string_def Let_def
      intro!: exI io_intro)

interpretation ethernet_get: get_fn ethernet_get_handler
proof (rule get_fnI)
  fix E s
  let ?doc = "\<lambda>addresses. ethernet_json (hostname_now E (trace s)) (config_bmc_use_dhcp4 s) addresses
    (static_addresses E s)"
  have "(\<forall>ud. ethernet_get_handler E ud s = None) \<or>
    (\<exists>xs. \<forall>ud. ethernet_get_handler E ud s = get_document (?doc xs) E ud s)"
  proof (cases "default_iface E (trace s)")
    case (Some iface)
    then have "ethernet_get_handler E ud s =
      (if NET_IF_MAX_IPV4_ADDR E > 0 \<and> \<not> has_ipv4 E (trace s) iface then None
       else get_document (?doc (current_addresses E iface s)) E ud s)" for ud
      by (simp add: ethernet_get_handler_def)
    then show ?thesis
      by (cases "NET_IF_MAX_IPV4_ADDR E > 0 \<and> \<not> has_ipv4 E (trace s) iface") auto
  qed (auto simp: ethernet_get_handler_def)
  then show "(\<forall>ud. ethernet_get_handler E ud s = None) \<or>
    (\<exists>j t. (\<forall>ud. ethernet_get_handler E ud s = get_document j E ud t) \<and> only_io read_call s t)"
    by blast
qed

interpretation sensor_temp_bmc_get: get_fn sensor_temp_bmc_get_handler
proof (rule get_fnI)
  fix E s
  have "only_io read_call s (snd (snd (read_die_temperature E s)))"
    by (auto intro!: io_intro)
  then show "(\<forall>ud. sensor_temp_bmc_get_handler E ud s = None) \<or>
    (\<exists>j t. (\<forall>ud. sensor_temp_bmc_get_handler E ud s = get_document j E ud t) \<and>
      only_io read_call s t)"
    unfolding sensor_temp_bmc_get_handler_def
    by (cases "read_die_temperature E s") (intro disjI2 exI conjI allI, auto)
qed

text \<open>The handlers of PATCH and POST leave the buffer as it is.\<close>

lemma redfish_effects_call:
  "redfish_effects E s t \<Longrightarrow> (\<And>rc u. r = (rc, u) \<Longrightarrow> config_call E t rc u) \<Longrightarrow>
    redfish_effects E s (snd r)"
  by (cases r) (auto intro: effects_more effect_config)

lemma effects_of_setters:
  assumes "redfish_effects E s t"
  shows "redfish_effects E s (snd (config_bmc_hostname_set E x t))"
    and "redfish_effects E s (snd (config_bmc_default_ip4_set E y t))"
    and "redfish_effects E s (snd (config_bmc_default_ip4_nm_set E y t))"
    and "redfish_effects E s (snd (config_bmc_default_ip4_gw_set E y t))"
    and "redfish_effects E s (snd (config_bmc_use_dhcp4_set E b t))"
    and "redfish_effects E s (snd (config_bmc_use_ntp_set E b t))"
    and "redfish_effects E s (snd (config_bmc_ntp_server_set E x t))"
    and "redfish_effects E s (snd (config_bmc_password_set E x t))"
    and "redfish_effects E s (snd (config_host_auto_poweron_set E b t))"
  by (auto intro!: redfish_effects_call [OF assms] intro: config_call.intros)

lemma patch_parts_effects:
  assumes "redfish_effects E s t"
  shows "redfish_effects E s (snd (patch_host_name E host_name t))"
    and "redfish_effects E s (patch_dhcp4 E enabled t)"
    and "redfish_effects E s (snd (patch_static_address E addresses t))"
proof -
  show "redfish_effects E s (snd (patch_host_name E host_name t))"
    and "redfish_effects E s (patch_dhcp4 E enabled t)"
    using assms
    by (auto simp: patch_host_name_def patch_dhcp4_def split: option.split intro: effects_of_setters)
  show "redfish_effects E s (snd (patch_static_address E addresses t))"
  proof (cases addresses)
    case (Some xs)
    let ?a = "config_bmc_default_ip4_set E (str_member ''Address'' (first_object xs)) t"
    let ?n = "config_bmc_default_ip4_nm_set E (str_member ''SubnetMask'' (first_object xs)) (snd ?a)"
    have a: "redfish_effects E s (snd ?a)" and n: "redfish_effects E s (snd ?n)"
      using assms by (auto intro: effects_of_setters)
    then show ?thesis
      using Some effects_of_setters(4) [OF n]
      by (auto simp: patch_static_address_def Let_def split: prod.split)
  qed (use assms in \<open>simp add: patch_static_address_def\<close>)
qed

interpretation account_patch: body_fn account_patch_handler
  by unfold_locales
    (auto simp: account_patch_handler_def split: sum.splits option.splits
      intro: effects_none effects_of_setters)

interpretation manager_patch: body_fn manager_patch_handler
  by unfold_locales
    (auto simp: manager_patch_handler_def Let_def
      split: sum.splits option.splits prod.splits if_splits intro: effects_none effect_time)

interpretation ethernet_patch: body_fn ethernet_patch_handler
proof
  fix E ud s ret ud' s'
  assume r: "ethernet_patch_handler E ud s = Some (ret, ud', s')"
  then show "ud_inv ud \<Longrightarrow> ud_inv ud' \<and> started ud' = started ud"
    by (auto simp: ethernet_patch_handler_def split: sum.splits prod.splits if_splits)
  have h: "redfish_effects E s (snd (patch_host_name E n s))" for n
    by (rule patch_parts_effects) (rule effects_none)
  then have "redfish_effects E s (snd (patch_static_address E a (patch_dhcp4 E b (snd (patch_host_name E n s)))))"
    for n a b
    by (simp add: patch_parts_effects(2,3))
  with h r show "redfish_effects E s s'"
    by (auto simp: ethernet_patch_handler_def effects_none split: sum.splits prod.splits if_splits)
      (metis snd_conv)+
qed (auto simp: ethernet_patch_handler_def split: sum.splits prod.splits if_splits)

interpretation network_protocol_patch: body_fn network_protocol_patch_handler
proof
  fix E ud s ret ud' s'
  assume r: "network_protocol_patch_handler E ud s = Some (ret, ud', s')"
  then show "ud_inv ud \<Longrightarrow> ud_inv ud' \<and> started ud' = started ud"
    by (auto simp: network_protocol_patch_handler_def split: sum.splits option.splits if_splits)
  have n: "redfish_effects E s t" if "patch_ntp_server E xs s = Some (rc, t)" for xs rc t
    using that effects_of_setters(7) [OF effects_none]
    by (auto simp: patch_ntp_server_def split: option.splits intro: effects_none) (metis snd_conv)
  with r show "redfish_effects E s s'"
    by (auto simp: network_protocol_patch_handler_def split: sum.splits option.splits if_splits
        intro: effects_none effects_of_setters(6) [OF n])
qed (auto simp: network_protocol_patch_handler_def split: sum.splits option.splits if_splits)

interpretation system_patch: body_fn system_patch_handler
proof
  fix E ud s ret ud' s'
  assume r: "system_patch_handler E ud s = Some (ret, ud', s')"
  then show "ud_inv ud \<Longrightarrow> ud_inv ud' \<and> started ud' = started ud"
    by (auto simp: system_patch_handler_def Let_def
        split: sum.splits option.splits if_splits prod.splits)
  have "redfish_effects E s (snd (config_host_auto_poweron_set E b s))" for b
    by (rule effects_of_setters) (rule effects_none)
  with r show "redfish_effects E s s'"
    by (auto simp: system_patch_handler_def Let_def
        split: sum.splits option.splits if_splits prod.splits intro: effects_none)
      (metis snd_conv)+
qed (auto simp: system_patch_handler_def Let_def
    split: sum.splits option.splits if_splits prod.splits)

interpretation system_reset_post: body_fn system_reset_post_handler
  by unfold_locales
    (auto simp: system_reset_post_handler_def split: sum.splits option.splits if_splits
      intro: effects_none effect_power effect_reset prod.collapse [symmetric])

text \<open>The contracts of all handlers.\<close>

lemmas get_fns = redfish_version_get.get_fn_axioms service_root_get.get_fn_axioms
  session_service_get.get_fn_axioms sessions_collection_get.get_fn_axioms odata_get.get_fn_axioms
  account_service_get.get_fn_axioms accounts_collection_get.get_fn_axioms
  account_get.get_fn_axioms managers_collection_get.get_fn_axioms manager_get.get_fn_axioms
  ethernet_collection_get.get_fn_axioms ethernet_get.get_fn_axioms
  network_protocol_get.get_fn_axioms systems_collection_get.get_fn_axioms system_get.get_fn_axioms
  chassis_collection_get.get_fn_axioms chassis_get.get_fn_axioms
  sensors_collection_get.get_fn_axioms sensor_temp_bmc_get.get_fn_axioms

lemmas body_fns = account_patch.body_fn_axioms manager_patch.body_fn_axioms
  ethernet_patch.body_fn_axioms network_protocol_patch.body_fn_axioms system_patch.body_fn_axioms
  system_reset_post.body_fn_axioms

end
