(* ===== verification/Redfish_Routes.thy ===== *)
theory Redfish_Routes
  imports Redfish_Handlers
begin

text \<open>
  The table of the Redfish service (the uses of \<open>REDFISH_HANDLER\<close> in redfish.c): the URL of
  each resource, whether it requires authentication, and its handlers; and the service as a
  whole, whose state is the buffer of every resource beside the state of the firmware. The
  properties hold for every resource, method, header, body and order of requests.
\<close>

section \<open>The resources\<close>

datatype redfish_resource =
    Res_redfish_version
  | Res_service_root
  | Res_session_service
  | Res_sessions_collection
  | Res_odata
  | Res_account_service
  | Res_accounts_collection
  | Res_account
  | Res_managers_collection
  | Res_manager
  | Res_ethernet_interfaces
  | Res_ethernet
  | Res_network_protocol
  | Res_systems_collection
  | Res_system
  | Res_system_reset
  | Res_chassis_collection
  | Res_chassis
  | Res_sensors_collection
  | Res_sensor_temp_bmc

record redfish_entry =
  url :: bytes
  require_auth :: bool
  get_handler :: "method_fn option"
  patch_handler :: "method_fn option"
  post_handler :: "method_fn option"

definition REDFISH_HANDLER ::
  "bytes \<Rightarrow> bool \<Rightarrow> method_fn option \<Rightarrow> method_fn option \<Rightarrow> method_fn option \<Rightarrow> redfish_entry" where
  "REDFISH_HANDLER u auth get patch post =
     \<lparr>url = u, require_auth = auth, get_handler = get, patch_handler = patch, post_handler = post\<rparr>"

definition redfish_version_resource :: redfish_entry where
  "redfish_version_resource = REDFISH_HANDLER
     ''/redfish/''
     False (Some redfish_version_get_handler) None None"

definition service_root_resource :: redfish_entry where
  "service_root_resource = REDFISH_HANDLER
     ''/redfish/v1/''
     False (Some service_root_get_handler) None None"

definition session_service_resource :: redfish_entry where
  "session_service_resource = REDFISH_HANDLER
     ''/redfish/v1/SessionService''
     False (Some session_service_get_handler) None None"

definition sessions_collection_resource :: redfish_entry where
  "sessions_collection_resource = REDFISH_HANDLER
     ''/redfish/v1/SessionService/Sessions''
     True (Some sessions_collection_get_handler) None None"

definition odata_resource :: redfish_entry where
  "odata_resource = REDFISH_HANDLER
     ''/redfish/v1/odata''
     False (Some odata_get_handler) None None"

definition account_service_resource :: redfish_entry where
  "account_service_resource = REDFISH_HANDLER
     ''/redfish/v1/AccountService''
     False (Some account_service_get_handler) None None"

definition accounts_collection_resource :: redfish_entry where
  "accounts_collection_resource = REDFISH_HANDLER
     ''/redfish/v1/AccountService/Accounts''
     True (Some accounts_collection_get_handler) None None"

definition account_resource :: redfish_entry where
  "account_resource = REDFISH_HANDLER
     ''/redfish/v1/AccountService/Accounts/1''
     True (Some account_get_handler) (Some account_patch_handler) None"

definition managers_collection_resource :: redfish_entry where
  "managers_collection_resource = REDFISH_HANDLER
     ''/redfish/v1/Managers''
     True (Some managers_collection_get_handler) None None"

definition manager_resource :: redfish_entry where
  "manager_resource = REDFISH_HANDLER
     ''/redfish/v1/Managers/bmc''
     True (Some manager_get_handler) (Some manager_patch_handler) None"

definition ethernet_interfaces_resource :: redfish_entry where
  "ethernet_interfaces_resource = REDFISH_HANDLER
     ''/redfish/v1/Managers/bmc/EthernetInterfaces''
     True (Some ethernet_collection_get_handler) None None"

definition ethernet_resource :: redfish_entry where
  "ethernet_resource = REDFISH_HANDLER
     ''/redfish/v1/Managers/bmc/EthernetInterfaces/eth0''
     True (Some ethernet_get_handler) (Some ethernet_patch_handler) None"

definition network_protocol_resource :: redfish_entry where
  "network_protocol_resource = REDFISH_HANDLER
     ''/redfish/v1/Managers/bmc/NetworkProtocol''
     True (Some network_protocol_get_handler) (Some network_protocol_patch_handler) None"

definition systems_collection_resource :: redfish_entry where
  "systems_collection_resource = REDFISH_HANDLER
     ''/redfish/v1/Systems''
     True (Some systems_collection_get_handler) None None"

definition system_resource :: redfish_entry where
  "system_resource = REDFISH_HANDLER
     ''/redfish/v1/Systems/system''
     True (Some system_get_handler) (Some system_patch_handler) None"

definition system_reset_resource :: redfish_entry where
  "system_reset_resource = REDFISH_HANDLER
     ''/redfish/v1/Systems/system/Actions/ComputerSystem.Reset''
     True None None (Some system_reset_post_handler)"

definition chassis_collection_resource :: redfish_entry where
  "chassis_collection_resource = REDFISH_HANDLER
     ''/redfish/v1/Chassis''
     True (Some chassis_collection_get_handler) None None"

definition chassis_resource :: redfish_entry where
  "chassis_resource = REDFISH_HANDLER
     ''/redfish/v1/Chassis/1''
     True (Some chassis_get_handler) None None"

definition sensors_collection_resource :: redfish_entry where
  "sensors_collection_resource = REDFISH_HANDLER
     ''/redfish/v1/Chassis/1/Sensors''
     True (Some sensors_collection_get_handler) None None"

definition sensor_temp_bmc_resource :: redfish_entry where
  "sensor_temp_bmc_resource = REDFISH_HANDLER
     ''/redfish/v1/Chassis/1/Sensors/TempBmc''
     True (Some sensor_temp_bmc_get_handler) None None"

fun resource :: "redfish_resource \<Rightarrow> redfish_entry" where
  "resource Res_redfish_version = redfish_version_resource"
| "resource Res_service_root = service_root_resource"
| "resource Res_session_service = session_service_resource"
| "resource Res_sessions_collection = sessions_collection_resource"
| "resource Res_odata = odata_resource"
| "resource Res_account_service = account_service_resource"
| "resource Res_accounts_collection = accounts_collection_resource"
| "resource Res_account = account_resource"
| "resource Res_managers_collection = managers_collection_resource"
| "resource Res_manager = manager_resource"
| "resource Res_ethernet_interfaces = ethernet_interfaces_resource"
| "resource Res_ethernet = ethernet_resource"
| "resource Res_network_protocol = network_protocol_resource"
| "resource Res_systems_collection = systems_collection_resource"
| "resource Res_system = system_resource"
| "resource Res_system_reset = system_reset_resource"
| "resource Res_chassis_collection = chassis_collection_resource"
| "resource Res_chassis = chassis_resource"
| "resource Res_sensors_collection = sensors_collection_resource"
| "resource Res_sensor_temp_bmc = sensor_temp_bmc_resource"

lemmas resource_defs = redfish_version_resource_def service_root_resource_def
  session_service_resource_def sessions_collection_resource_def odata_resource_def
  account_service_resource_def accounts_collection_resource_def account_resource_def
  managers_collection_resource_def manager_resource_def ethernet_interfaces_resource_def
  ethernet_resource_def network_protocol_resource_def systems_collection_resource_def
  system_resource_def system_reset_resource_def chassis_collection_resource_def
  chassis_resource_def sensors_collection_resource_def sensor_temp_bmc_resource_def

text \<open>The URLs of the HTTP service; two resources have a second one, and the sensor exists
  with \<open>CONFIG_APP_SENSORS\<close> only. The HTTPS service has the same.\<close>

definition all_resources :: "redfish_resource list" where
    "all_resources = [Res_redfish_version, Res_service_root, Res_session_service,
     Res_sessions_collection, Res_odata, Res_account_service, Res_accounts_collection,
     Res_account, Res_managers_collection, Res_manager, Res_ethernet_interfaces, Res_ethernet,
     Res_network_protocol, Res_systems_collection, Res_system, Res_system_reset,
     Res_chassis_collection, Res_chassis, Res_sensors_collection, Res_sensor_temp_bmc]"

definition registered :: "env \<Rightarrow> redfish_resource \<Rightarrow> bool" where
  "registered E r \<longleftrightarrow> r \<noteq> Res_sensor_temp_bmc \<or> CONFIG_APP_SENSORS E"

definition http_urls :: "env \<Rightarrow> (bytes \<times> redfish_resource) list" where
  "http_urls E = map (\<lambda>r. (url (resource r), r)) (filter (registered E) all_resources) @
     [(''/redfish'', Res_redfish_version), (''/redfish/v1'', Res_service_root)]"

section \<open>Requests\<close>

type_synonym buffers = "redfish_resource \<Rightarrow> user_data"

text \<open>The handler the macro defines for a resource, on the resource's own buffer.\<close>

definition redfish_request ::
  "env \<Rightarrow> redfish_resource \<Rightarrow> http_client \<Rightarrow> transaction_status \<Rightarrow> bytes option \<Rightarrow> buffers \<Rightarrow> bmc \<Rightarrow>
    (response \<times> buffers \<times> bmc) option" where
  "redfish_request E r client status request uds s =
     (case redfish_handler E client status request fresh_response (uds r) (require_auth (resource r))
         (get_handler (resource r)) (patch_handler (resource r)) (post_handler (resource r)) s of
        None \<Rightarrow> None
      | Some (rsp, ud, s) \<Rightarrow> Some (rsp, uds(r := ud), s))"

lemma resource_simps [simp]:
  "url (REDFISH_HANDLER u a g p q) = u" "require_auth (REDFISH_HANDLER u a g p q) = a"
  "get_handler (REDFISH_HANDLER u a g p q) = g" "patch_handler (REDFISH_HANDLER u a g p q) = p"
  "post_handler (REDFISH_HANDLER u a g p q) = q"
  by (simp_all add: REDFISH_HANDLER_def)

lemma resource_get: "get_handler (resource r) = Some f \<Longrightarrow> get_fn f"
  by (cases r) (auto simp: resource_defs intro: get_fns)

lemma resource_body:
  "patch_handler (resource r) = Some f \<or> post_handler (resource r) = Some f \<Longrightarrow>
     body_fn f \<and> require_auth (resource r)"
  by (cases r) (auto simp: resource_defs intro: body_fns)

lemma resource_good:
  "good_fn (get_handler (resource r))" "good_fn (patch_handler (resource r))"
  "good_fn (post_handler (resource r))"
  using resource_get [of r] resource_body [of r]
  by (auto simp: good_fn_def get_fn_def body_fn_def intro: effect_handler.is_method_handler
      split: option.split)

section \<open>What a request does\<close>

definition heap_call :: "call \<Rightarrow> bool" where
  "heap_call c \<longleftrightarrow> \<not> no_heap c"

definition authorized :: "env \<Rightarrow> redfish_resource \<Rightarrow> http_client \<Rightarrow> bmc \<Rightarrow> bool" where
  "authorized E r client s \<longleftrightarrow> \<not> require_auth (resource r) \<or> 0 \<le> validate_auth E client s"

definition chunk_bytes :: "bytes option \<Rightarrow> bytes" where
  "chunk_bytes request = (case request of None \<Rightarrow> [] | Some c \<Rightarrow> c)"

lemma heap_call_simps [simp]: "heap_call (Http (HeapAlloc n))" "heap_call (Http HeapFree)"
  by (simp_all add: heap_call_def no_heap_def)

lemma free_user_data_io: "only_io heap_call s (snd (free_user_data E ud s))"
  by (auto simp: free_user_data_def Let_def intro!: io_intro)

lemma alloc_user_data_io: "only_io heap_call s (snd (alloc_user_data E ud n s))"
  by (auto simp: alloc_user_data_def Let_def intro!: io_intro)

lemma accept_chunk_io: "only_io heap_call s (snd (snd (accept_chunk E request ud s)))"
proof -
  have "accept_chunk E request ud s = (ok, ud', s') \<Longrightarrow> only_io heap_call s s'" for ok ud' s'
    using alloc_user_data_io [of s E ud USER_DATA_BUFFER_POST_SIZE]
    by (auto simp: accept_chunk_def Let_def split: prod.splits if_splits)
  then show ?thesis
    by (metis prod.collapse)
qed

lemma validate_headers_result:
  assumes "validate_and_set_headers client methods rsp = (rc, rsp')"
  shows "rc = (if client_method client \<in> methods then 0 else - 1)"
    and "rsp_status rsp' = (if client_method client \<in> methods then rsp_status rsp
           else HTTP_405_METHOD_NOT_ALLOWED)"
    and "rsp_body rsp = [] \<Longrightarrow> rsp_body rsp' = []"
  using assms by (auto simp: validate_and_set_headers_def Let_def split: if_splits)

lemma set_unauth_result [simp]:
  "rsp_status (set_unauth_response client rsp) = HTTP_401_UNAUTHORIZED"
  "rsp_body (set_unauth_response client rsp) = []"
  by (simp_all add: set_unauth_response_def Let_def)

lemma handle_get_result:
  assumes h: "handle_get E status f rsp ud s = Some (rsp', ud', s')" and inv: "ud_inv ud"
    and body: "rsp_body rsp = []"
  shows "only_io heap_call s s' \<and> rsp_body rsp' = [] \<and> rsp_status rsp' = HTTP_400_BAD_REQUEST \<or>
    (\<exists>ud1 s1 ret. status = HTTP_SERVER_REQUEST_DATA_FINAL \<and> only_io heap_call s s1 \<and> ud_inv ud1 \<and>
       payload ud1 = [] \<and> ud_size ud1 = USER_DATA_BUFFER_GET_SIZE \<and> started ud1 \<and>
       f E ud1 s1 = Some (ret, ud', s') \<and> rsp_status rsp' = (if ret \<noteq> 0 then ret else HTTP_200_OK) \<and>
       rsp_body rsp' = (if ret \<noteq> 0 then [] else payload ud'))"
proof -
  let ?s = "snd (free_user_data E ud s)"
  have free: "(if started ud then free_user_data E ud s else (ud, s)) = (no_user_data, ?s)"
    using free_user_data_result [OF inv, of E s] inv by (auto simp: ud_inv_def split: if_splits)
  obtain ud1 s1 where a: "alloc_user_data E no_user_data USER_DATA_BUFFER_GET_SIZE ?s = (ud1, s1)"
    by fastforce
  note al = alloc_user_data_inv [OF a order_refl]
  have io: "only_io heap_call s ?s" "only_io heap_call s s1"
    using free_user_data_io alloc_user_data_io [of ?s] a by (metis snd_conv only_io_trans)+
  show ?thesis
  proof (cases "status = HTTP_SERVER_REQUEST_DATA_FINAL")
    case False
    then show ?thesis
      using h io(1) body unfolding handle_get_def free by auto
  next
    case True
    with h obtain ret where "f E ud1 s1 = Some (ret, ud', s')"
      and "rsp' = (if ret \<noteq> 0 then rsp\<lparr>rsp_status := ret\<rparr>
          else rsp\<lparr>rsp_body := payload ud', rsp_status := HTTP_200_OK\<rparr>)\<lparr>rsp_final := True\<rparr>"
      unfolding handle_get_def free by (auto simp: a split: option.splits)
    then show ?thesis
      using True io(2) al body by (intro disjI2 exI conjI) auto
  qed
qed

lemma handle_body_result:
  assumes h: "handle_body E client status request patch_fn post_fn rsp ud s = Some (rsp', ud', s')"
    and inv: "ud_inv ud" and body: "rsp_body rsp = []" "rsp_status rsp = 0"
  shows "only_io heap_call s s' \<and> rsp_body rsp' = [] \<and> rsp_status rsp' \<in> {0, HTTP_400_BAD_REQUEST} \<or>
    (\<exists>f ud1 s1 ret ud2 s2. (if client_method client = HTTP_PATCH then patch_fn else post_fn) = Some f \<and>
       status = HTTP_SERVER_REQUEST_DATA_FINAL \<and> only_io heap_call s s1 \<and> ud_inv ud1 \<and>
       payload ud1 = payload ud @ chunk_bytes request \<and> f E ud1 s1 = Some (ret, ud2, s2) \<and>
       only_io heap_call s2 s' \<and> rsp_status rsp' = (if ret \<noteq> 0 then ret else HTTP_204_NO_CONTENT) \<and>
       rsp_body rsp' = [])"
proof -
  obtain ok ud1 s1 where c: "accept_chunk E request ud s = (ok, ud1, s1)"
    by (metis prod_cases3)
  note ai = accept_chunk_inv [OF c inv]
  have io: "only_io heap_call s s1"
    using accept_chunk_io [of s E request ud] c by simp
  have free: "only_io heap_call s t" if "free_user_data E ud1 s1 = (u, t)" for u t
    using free_user_data_io [of s1 E ud1] that io by (auto intro: only_io_trans)
  show ?thesis
  proof (cases "ok \<and> status = HTTP_SERVER_REQUEST_DATA_FINAL")
    case False
    then show ?thesis
      using h io body by (auto simp: handle_body_def c split: prod.splits if_splits dest: free)
  next
    case True
    let ?fn = "if client_method client = HTTP_PATCH then patch_fn else post_fn"
    from True h obtain f ret ud2 s2 where f: "?fn = Some f" "f E ud1 s1 = Some (ret, ud2, s2)"
      and r: "free_user_data E ud2 s2 = (ud', s')"
        "rsp_status rsp' = (if ret \<noteq> 0 then ret else HTTP_204_NO_CONTENT)" "rsp_body rsp' = rsp_body rsp"
      by (auto simp: handle_body_def c call_method_def split: option.splits prod.splits)
    have "only_io heap_call s2 s'"
      using free_user_data_io [of s2 E ud2] r(1) by simp
    with True f r ai io body show ?thesis
      by (intro disjI2 exI [of _ f] exI [of _ ud1] exI [of _ s1] exI [of _ ret] exI [of _ ud2]
          exI [of _ s2]) (simp add: chunk_bytes_def)
  qed
qed

text \<open>The three kinds of request: no handler runs, a GET handler runs, or the handler of a
  complete PATCH or POST runs.\<close>

lemma redfish_request_cases:
  assumes req: "redfish_request E r client status request uds s = Some (rsp, uds', s')"
    and inv: "ud_inv (uds r)"
  obtains (quiet) "only_io heap_call s s'" and "rsp_body rsp = []"
      and "rsp_status rsp \<in> {0, HTTP_400_BAD_REQUEST, HTTP_401_UNAUTHORIZED,
        HTTP_405_METHOD_NOT_ALLOWED}"
    | (get) f s1 ud1 ret ud2 where "get_handler (resource r) = Some f" and "client_method client = HTTP_GET"
      and "status = HTTP_SERVER_REQUEST_DATA_FINAL" and "authorized E r client s"
      and "only_io heap_call s s1" and "ud_inv ud1" and "payload ud1 = []"
      and "ud_size ud1 = USER_DATA_BUFFER_GET_SIZE" and "started ud1"
      and "f E ud1 s1 = Some (ret, ud2, s')"
      and "rsp_status rsp = (if ret \<noteq> 0 then ret else HTTP_200_OK)"
      and "rsp_body rsp = (if ret \<noteq> 0 then [] else payload ud2)"
    | (body) f s1 ud1 ret ud2 s2 where
        "client_method client = HTTP_PATCH \<and> patch_handler (resource r) = Some f \<or>
         client_method client = HTTP_POST \<and> post_handler (resource r) = Some f"
      and "status = HTTP_SERVER_REQUEST_DATA_FINAL" and "authorized E r client s"
      and "only_io heap_call s s1" and "ud_inv ud1"
      and "payload ud1 = payload (uds r) @ chunk_bytes request"
      and "f E ud1 s1 = Some (ret, ud2, s2)" and "only_io heap_call s2 s'"
      and "rsp_status rsp = (if ret \<noteq> 0 then ret else HTTP_204_NO_CONTENT)" and "rsp_body rsp = []"
proof -
  obtain ud' where h: "redfish_handler E client status request fresh_response (uds r)
      (require_auth (resource r)) (get_handler (resource r)) (patch_handler (resource r))
      (post_handler (resource r)) s = Some (rsp, ud', s')"
    using req by (auto simp: redfish_request_def split: option.splits)
  let ?methods = "allow_methods (get_handler (resource r)) (patch_handler (resource r))
    (post_handler (resource r))"
  obtain rc rsp1 where v: "validate_and_set_headers client ?methods fresh_response = (rc, rsp1)"
    by fastforce
  note vr = validate_headers_result [OF v]
  have fresh: "rsp_body fresh_response = []" "rsp_status fresh_response = 0"
    by (simp_all add: fresh_response_def)
  have free: "only_io heap_call s t" if "free_user_data E (uds r) s = (u, t)" for u t
    using free_user_data_io [of s E "uds r"] that by simp
  show thesis
  proof (cases "status = HTTP_SERVER_TRANSACTION_COMPLETE \<or> status = HTTP_SERVER_TRANSACTION_ABORTED
      \<or> client_method client \<notin> ?methods \<or> \<not> authorized E r client s")
    case True
    then show thesis
      using h v vr fresh by (intro quiet) (auto simp: redfish_handler_def authorized_def
          split: if_splits prod.splits dest: free)
  next
    case False
    then have st: "status \<noteq> HTTP_SERVER_TRANSACTION_COMPLETE" "status \<noteq> HTTP_SERVER_TRANSACTION_ABORTED"
      and m: "client_method client \<in> ?methods" and au: "authorized E r client s"
      by auto
    have na: "(require_auth (resource r) \<and> validate_auth E client s < 0) = False"
      using au by (auto simp: authorized_def)
    have rc: "rc = 0" "rsp_status rsp1 = 0" "rsp_body rsp1 = []"
      using vr m fresh by simp_all
    consider (is_get) f where "client_method client = HTTP_GET" "get_handler (resource r) = Some f"
      | (is_body) "client_method client = HTTP_PATCH \<and> patch_handler (resource r) \<noteq> None \<or>
          client_method client = HTTP_POST \<and> post_handler (resource r) \<noteq> None"
      using m by (auto simp: allow_methods_def split: if_splits)
    then show thesis
    proof cases
      case (is_get f)
      then have "handle_get E status f rsp1 (uds r) s = Some (rsp, ud', s')"
        using h st rc(1) unfolding redfish_handler_def v na by simp
      from handle_get_result [OF this inv rc(3)] is_get au show thesis
        by (elim disjE) (auto intro: quiet get)
    next
      case is_body
      then have "handle_body E client status request (patch_handler (resource r))
          (post_handler (resource r)) rsp1 (uds r) s = Some (rsp, ud', s')"
        using h st rc(1) unfolding redfish_handler_def v na by auto
      from handle_body_result [OF this inv rc(3,2)] is_body au show thesis
        by (elim disjE) (auto intro: quiet body)
    qed
  qed
qed

end
