(* ===== verification/Redfish_Service.thy ===== *)
theory Redfish_Service
  imports Redfish_Routes
begin

text \<open>
  The Redfish service over time: any client may send any sequence of requests to any resource,
  between them the rest of the firmware may do anything that leaves the heap of the service
  alone. The properties of this theory hold in every state so reached, or of every single
  request.
\<close>

section \<open>The service over time\<close>

inductive redfish_step :: "env \<Rightarrow> buffers \<times> bmc \<Rightarrow> buffers \<times> bmc \<Rightarrow> bool" for E where
  step_request: "redfish_request E r client status request uds s = Some (rsp, uds', s') \<Longrightarrow>
    redfish_step E (uds, s) (uds', s')"
| step_other: "traced no_heap s s' \<Longrightarrow> redfish_step E (uds, s) (uds, s')"

inductive redfish_reach :: "env \<Rightarrow> buffers \<times> bmc \<Rightarrow> bool" for E where
  reach_start: "heap_live (trace s) = 0 \<Longrightarrow> redfish_reach E (\<lambda>r. no_user_data, s)"
| reach_more: "redfish_reach E x \<Longrightarrow> redfish_step E x y \<Longrightarrow> redfish_reach E y"

text \<open>The resources whose buffer is in use.\<close>

definition busy :: "buffers \<Rightarrow> redfish_resource set" where
  "busy uds = {r. started (uds r)}"

definition service_inv :: "buffers \<times> bmc \<Rightarrow> bool" where
  "service_inv x \<longleftrightarrow> (\<forall>r. ud_inv (fst x r)) \<and> heap_live (trace (snd x)) = int (card (busy (fst x)))"

lemma all_resources: "r \<in> set all_resources"
  by (cases r) (simp_all add: all_resources_def)

lemma finite_busy [simp]: "finite (busy uds)"
  by (rule finite_subset [of _ "set all_resources"]) (auto simp: all_resources)

lemma busy_upd: "busy (uds(r := ud)) = (if started ud then insert r (busy uds) else busy uds - {r})"
  by (auto simp: busy_def)

lemma in_busy: "r \<in> busy uds \<longleftrightarrow> started (uds r)"
  by (simp add: busy_def)

lemma redfish_request_fits:
  assumes "redfish_request E r client status request uds s = Some (rsp, uds', s')"
    and "ud_inv (uds r)"
  obtains ud' where "uds' = uds(r := ud')" and "ud_inv ud'"
    and "length (rsp_body rsp) \<le> USER_DATA_BUFFER_GET_SIZE"
    and "heap_live (trace s') - of_bool (started ud') =
      heap_live (trace s) - of_bool (started (uds r))"
proof -
  have "rsp_body fresh_response = []"
    by (simp add: fresh_response_def)
  from redfish_handler_fits [OF resource_good assms(2) this, of s E client status request
      "require_auth (resource r)" r r r] assms(1) that
  show thesis
    by (auto simp: redfish_request_def fits_buffer_def split: option.splits)
qed

lemma redfish_step_inv:
  assumes "redfish_step E x y" and "service_inv x"
  shows "service_inv y"
  using assms
proof (induction rule: redfish_step.induct)
  case (step_request r client status request uds s rsp uds' s')
  have inv: "ud_inv (uds q)" for q
    using step_request.prems by (simp add: service_inv_def)
  obtain ud' where u: "uds' = uds(r := ud')" "ud_inv ud'"
    and live: "heap_live (trace s') - of_bool (started ud') =
      heap_live (trace s) - of_bool (started (uds r))"
    using redfish_request_fits [OF step_request.hyps inv] by metis
  have "heap_live (trace s) = int (card (busy uds))"
    using step_request.prems by (simp add: service_inv_def)
  moreover have "int (card (busy uds')) - of_bool (started ud') =
      int (card (busy uds)) - of_bool (started (uds r))"
  proof (cases "r \<in> busy uds")
    case True
    then have "card (busy uds) = Suc (card (busy uds - {r}))"
      by (metis card_Suc_Diff1 finite_busy)
    then show ?thesis
      using True by (simp add: u(1) busy_upd in_busy insert_absorb)
  next
    case False
    then show ?thesis
      by (simp add: u(1) busy_upd in_busy)
  qed
  ultimately show ?case
    using live u inv by (simp add: service_inv_def)
next
  case (step_other s s' uds)
  then obtain cs where "trace s' = cs @ trace s" "\<forall>c \<in> set cs. no_heap c"
    by (auto simp: traced_def)
  with step_other.prems show ?case
    by (simp add: service_inv_def heap_live_append)
qed

lemma redfish_reach_inv: "redfish_reach E x \<Longrightarrow> service_inv x"
proof (induction rule: redfish_reach.induct)
  case (reach_start s)
  then show ?case
    by (simp add: service_inv_def busy_def)
next
  case (reach_more x y)
  then show ?case
    by (blast intro: redfish_step_inv)
qed

section \<open>What the encoder leaves in the buffer\<close>

text \<open>The specification of the accumulation: pieces are appended while they fit.\<close>

fun encoded :: "nat \<Rightarrow> bytes list \<Rightarrow> int \<Rightarrow> bytes \<Rightarrow> int \<times> bytes" where
  "encoded n [] ret acc = (ret, acc)"
| "encoded n (p # ps) ret acc =
     (if length acc + length p > n then (- ENOSPC, acc) else encoded n ps ret (acc @ p))"

lemma append_pieces_encoded:
  "ud_inv ud \<Longrightarrow> started ud \<Longrightarrow> append_pieces ps ret ud = (r, ud') \<Longrightarrow>
     (r, payload ud') = encoded (ud_size ud) ps ret (payload ud)"
proof (induction ps arbitrary: ud)
  case (Cons p ps)
  obtain ok ud1 where a: "append_user_data ud p = (ok, ud1)"
    by fastforce
  note inv = append_user_data_inv [OF a Cons.prems(1)]
  have size: "ud_size ud1 = ud_size ud" and same: "\<not> ok \<Longrightarrow> ud1 = ud"
    using a by (auto simp: append_user_data_def split: if_splits)
  show ?case
  proof (cases ok)
    case True
    then have "append_pieces ps ret ud1 = (r, ud')"
      using Cons.prems(3) by (simp add: user_data_json_append_def a)
    with Cons.IH [of ud1] inv size True Cons.prems(2) show ?thesis
      by (simp add: length_payload [OF Cons.prems(1)])
  next
    case False
    then show ?thesis
      using Cons.prems(3) inv same
      by (auto simp: user_data_json_append_def a length_payload)
  qed
qed simp

lemma encoded_fits:
  "length acc + length (concat ps) \<le> n \<Longrightarrow> encoded n ps ret acc = (ret, acc @ concat ps)"
  by (induction ps arbitrary: acc) auto

lemma encoded_overflow:
  "length acc \<le> n \<Longrightarrow> n < length acc + length (concat ps) \<Longrightarrow> fst (encoded n ps ret acc) = - ENOSPC"
  by (induction ps arbitrary: acc) auto

text \<open>What a GET of a document must answer.\<close>

definition get_answer :: "env \<Rightarrow> json \<Rightarrow> int \<times> bytes" where
  "get_answer E j =
     (let (ps, ret) = json_pieces E j in
      if ret < 0 \<or> length (concat ps) > USER_DATA_BUFFER_GET_SIZE
      then (HTTP_500_INTERNAL_SERVER_ERROR, []) else (HTTP_200_OK, concat ps))"

lemma get_document_answer:
  assumes "get_document j E ud s = Some (ret, ud', s')" and "ud_inv ud" and "started ud"
    and "payload ud = []" and "ud_size ud = USER_DATA_BUFFER_GET_SIZE"
  shows "(if ret \<noteq> 0 then (ret, []) else (HTTP_200_OK, payload ud')) = get_answer E j"
proof -
  obtain ps r where p: "json_pieces E j = (ps, r)"
    by fastforce
  obtain r' where a: "append_pieces ps r ud = (r', ud')"
    and ret: "ret = (if r' < 0 then HTTP_500_INTERNAL_SERVER_ERROR else 0)"
    using assms(1) p
    by (auto simp: get_document_def encode_reply_def json_obj_encode_def split: prod.splits if_splits)
  have e: "(r', payload ud') = encoded USER_DATA_BUFFER_GET_SIZE ps r []"
    using append_pieces_encoded [OF assms(2,3) a] assms(4,5) by simp
  show ?thesis
  proof (cases "length (concat ps) \<le> USER_DATA_BUFFER_GET_SIZE")
    case True
    then show ?thesis
      using e encoded_fits [of "[]" ps] p ret by (simp add: get_answer_def)
  next
    case False
    then have "r' = - ENOSPC"
      using e encoded_overflow [of "[]" USER_DATA_BUFFER_GET_SIZE ps r] by (metis add_0 fst_conv
          le0 list.size(3) not_le)
    then show ?thesis
      using p ret False by (simp add: get_answer_def)
  qed
qed

section \<open>The document of a resource\<close>

text \<open>What a GET of a resource encodes in a state; \<open>None\<close> where it has no GET handler or the
  handler's behaviour is not defined.\<close>

definition ethernet_document :: "env \<Rightarrow> bmc \<Rightarrow> json option" where
  "ethernet_document E s =
     (let doc = (\<lambda>xs. ethernet_json (hostname_now E (trace s)) (config_bmc_use_dhcp4 s) xs
            (static_addresses E s)) in
      case default_iface E (trace s) of
        None \<Rightarrow> Some (doc [])
      | Some iface \<Rightarrow>
          if NET_IF_MAX_IPV4_ADDR E > 0 \<and> \<not> has_ipv4 E (trace s) iface then None
          else Some (doc (current_addresses E iface s)))"

definition temperature :: "env \<Rightarrow> bmc \<Rightarrow> int" where
  "temperature E s =
     (case read_die_temperature E s of (ret, val, t) \<Rightarrow> if ret < 0 then - 1 else fst val)"

fun resource_document :: "env \<Rightarrow> redfish_resource \<Rightarrow> bmc \<Rightarrow> json option" where
  "resource_document E Res_redfish_version s = Some (JObj [(''v1'', str ''/redfish/v1/'')])"
| "resource_document E Res_service_root s = Some service_root_json"
| "resource_document E Res_session_service s = Some session_service_json"
| "resource_document E Res_sessions_collection s = Some sessions_collection_json"
| "resource_document E Res_odata s = Some odata_json"
| "resource_document E Res_account_service s = Some account_service_json"
| "resource_document E Res_accounts_collection s = Some accounts_collection_json"
| "resource_document E Res_account s = Some account_json"
| "resource_document E Res_managers_collection s = Some managers_collection_json"
| "resource_document E Res_manager s =
     Some (manager_json E (snd (get_bmc_uuid_string E s)) (fst (get_iso_time E s)))"
| "resource_document E Res_ethernet_interfaces s = Some ethernet_collection_json"
| "resource_document E Res_ethernet s = ethernet_document E s"
| "resource_document E Res_network_protocol s =
     Some (network_protocol_json (config_bmc_use_ntp s) (config_bmc_ntp_server s))"
| "resource_document E Res_systems_collection s = Some systems_collection_json"
| "resource_document E Res_system s =
     Some (system_json (product E) (config_host_auto_poweron s) (power_get_state s))"
| "resource_document E Res_system_reset s = None"
| "resource_document E Res_chassis_collection s = Some chassis_collection_json"
| "resource_document E Res_chassis s = Some (chassis_json (product E) (power_get_state s))"
| "resource_document E Res_sensors_collection s = Some (sensors_collection_json (CONFIG_APP_SENSORS E))"
| "resource_document E Res_sensor_temp_bmc s = Some (sensor_json (temperature E s))"

lemma resource_document_get:
  assumes "get_handler (resource r) = Some f"
  shows "case resource_document E r s of
      None \<Rightarrow> f E ud s = None
    | Some j \<Rightarrow> (\<exists>t. f E ud s = get_document j E ud t)"
proof (cases r)
  case Res_manager
  then show ?thesis
    using assms by (auto simp: resource_defs manager_get_handler_def get_bmc_uuid_string_def
        get_iso_time_def ext_ignore_eq Let_def)
next
  case Res_ethernet
  then show ?thesis
    using assms by (auto simp: resource_defs ethernet_get_handler_def ethernet_document_def Let_def
        split: option.split)
next
  case Res_sensor_temp_bmc
  then show ?thesis
    using assms by (auto simp: resource_defs sensor_temp_bmc_get_handler_def temperature_def
        split: prod.split)
qed (use assms in \<open>auto simp: resource_defs plain_get_handlers\<close>)

section \<open>Properties\<close>

text \<open>C7: The buffers of the service are safe and not leaked. In every state reached by any
  requests to any resources, with anything else happening between them, each further request
  that has a defined result leaves every buffer inside its allocated block, answers with at
  most the size of a block, and the blocks of the heap in use are exactly those of the
  resources with a transaction in progress.\<close>

theorem redfish_buffers_safe:
  assumes "redfish_reach E (uds, s)"
    and "redfish_request E r client status request uds s = Some (rsp, uds', s')"
  shows "(\<forall>q. ud_inv (uds' q)) \<and> length (rsp_body rsp) \<le> USER_DATA_BUFFER_GET_SIZE \<and>
    heap_live (trace s') = int (card {q. started (uds' q)})"
proof -
  have inv: "service_inv (uds, s)"
    by (rule redfish_reach_inv [OF assms(1)])
  then have "service_inv (uds', s')"
    by (rule redfish_step_inv [OF step_request [OF assms(2)]])
  moreover have "ud_inv (uds r)"
    using inv by (simp add: service_inv_def)
  ultimately show ?thesis
    using redfish_request_fits [OF assms(2)] by (auto simp: service_inv_def busy_def)
qed

text \<open>A request of a client without credentials, in the example environment.\<close>

definition plain_client :: "http_method \<Rightarrow> http_client" where
  "plain_client meth = \<lparr>client_method = meth, client_headers = []\<rparr>"

lemma root_request:
  "\<exists>uds' s'. redfish_request ideal_env Res_service_root (plain_client HTTP_GET)
     HTTP_SERVER_REQUEST_DATA_FINAL None (\<lambda>r. no_user_data) (reset_state []) =
     Some (\<lparr>rsp_status = 200,
        rsp_headers = [(''content-type'', ''application/json''), (''cache-control'', ''no-cache'')],
        rsp_body = ''{}'', rsp_final = True\<rparr>, uds', s')"
  by (simp add: redfish_request_def redfish_handler_def validate_and_set_headers_def plain_client_def
      resource_defs allow_methods_def handle_get_def alloc_user_data_def ext_dat_def
      service_root_get_handler_def get_document_def encode_reply_def json_obj_encode_def
      user_data_json_append_def append_user_data_def ideal_env_def fresh_response_def
      USER_DATA_BUFFER_GET_SIZE_def no_user_data_def payload_def memcpy_at_def zeros_def)

lemma redfish_buffers_safe_witness:
  "\<exists>rsp uds s. redfish_request ideal_env Res_service_root (plain_client HTTP_GET)
     HTTP_SERVER_REQUEST_DATA_FINAL None (\<lambda>r. no_user_data) (reset_state []) = Some (rsp, uds, s) \<and>
     heap_live (trace s) = int (card {q. started (uds q)})"
proof -
  have "redfish_reach ideal_env (\<lambda>r. no_user_data, reset_state [])"
    by (rule reach_start) (simp add: reset_state_def)
  from redfish_buffers_safe [OF this] root_request show ?thesis
    by blast
qed

text \<open>C2: A request without valid credentials has no effect. On a resource that requires
  authentication, whatever the method and the body, it is answered at once with 401 (or 405
  where the resource does not have the method) and an empty body; no buffer, no variable and
  no device is touched.\<close>

theorem unauthorized_request_inert:
  assumes "require_auth (resource r)" and "validate_auth E client s < 0"
    and "status \<in> {HTTP_SERVER_REQUEST_DATA_MORE, HTTP_SERVER_REQUEST_DATA_FINAL}"
  shows "\<exists>rsp. redfish_request E r client status request uds s = Some (rsp, uds, s) \<and>
    rsp_body rsp = [] \<and> rsp_final rsp \<and>
    rsp_status rsp =
      (if client_method client \<in> allow_methods (get_handler (resource r)) (patch_handler (resource r))
            (post_handler (resource r))
       then HTTP_401_UNAUTHORIZED else HTTP_405_METHOD_NOT_ALLOWED)"
  using assms
  by (auto simp: redfish_request_def redfish_handler_def validate_and_set_headers_def Let_def
      set_unauth_response_def fresh_response_def)

lemma unauthorized_request_inert_witness:
  "\<exists>rsp. redfish_request ideal_env Res_system_reset (plain_client HTTP_POST)
     HTTP_SERVER_REQUEST_DATA_FINAL (Some ''x'') (\<lambda>r. no_user_data) (reset_state []) =
     Some (rsp, \<lambda>r. no_user_data, reset_state []) \<and> rsp_status rsp = 401"
  using unauthorized_request_inert [of Res_system_reset ideal_env "plain_client HTTP_POST"
      "reset_state []" HTTP_SERVER_REQUEST_DATA_FINAL "Some ''x''" "\<lambda>r. no_user_data"]
  by (auto simp: resource_defs validate_auth_def plain_client_def allow_methods_def)

text \<open>The calls that change nothing in the firmware or its devices.\<close>

definition quiet_call :: "call \<Rightarrow> bool" where
  "quiet_call c \<longleftrightarrow> heap_call c \<or> read_call c"

lemma quiet_call_io: "only_io heap_call s t \<Longrightarrow> only_io quiet_call s t"
  "only_io read_call s t \<Longrightarrow> only_io quiet_call s t"
  by (auto elim!: only_io_mono simp: quiet_call_def)


text \<open>In the example environment a token decodes to itself, so this client knows the empty
  password of a zeroed configuration; its parser finds a \<open>ResetType\<close> in every body.\<close>

definition admin_client :: "http_method \<Rightarrow> http_client" where
  "admin_client meth = \<lparr>client_method = meth, client_headers = [(''authorization'', ''Basic admin:'')]\<rparr>"

definition reset_type_env :: "bytes \<Rightarrow> env" where
  "reset_type_env x = ideal_env\<lparr>json_obj_parse := (\<lambda>d b. Inr [(''ResetType'', str x)])\<rparr>"

lemma admin_client_valid: "validate_auth (reset_type_env x) (admin_client meth) (reset_state h) = 0"
  by (simp add: validate_auth_def admin_client_def reset_type_env_def ideal_env_def snprintf_def
      CREDENTIALS_MAX_LEN_def getters reset_state_def zero_config_def c_str_def zeros_def)

lemma reset_request:
  "\<exists>rsp uds' s'. redfish_request (reset_type_env ''On'') Res_system_reset (admin_client HTTP_POST)
     HTTP_SERVER_REQUEST_DATA_FINAL (Some ''x'') (\<lambda>r. no_user_data) (reset_state []) =
     Some (rsp, uds', s') \<and> rsp_status rsp = 204 \<and> system_power_state s'"
proof -
  have "method_handler system_reset_post_handler"
    by (rule system_reset_post.is_method_handler)
  have meth: "client_method (admin_client HTTP_POST) = HTTP_POST"
    by (simp add: admin_client_def)
  have pw: "system_power_state (power_set_state (reset_type_env x) True s)" for x s
    by (simp add: power_set_state_def power_on_def reset_type_env_def ideal_env_def numeral_2_eq_2
        ext_def ideal_ret_def)
  have parse: "json_obj_parse (reset_type_env ''On'') d b = Inr [(''ResetType'', str ''On'')]" for d b
    by (simp add: reset_type_env_def)
  show ?thesis
    by (auto simp: redfish_request_def redfish_handler_def validate_and_set_headers_def meth
        admin_client_valid resource_defs allow_methods_def handle_body_def accept_chunk_def
        alloc_user_data_def ext_dat_def append_user_data_def no_user_data_def fresh_response_def
        USER_DATA_BUFFER_POST_SIZE_def call_method_def system_reset_post_handler_def parse
        str_member_def c_str_def free_user_data_def ext_ignore_eq pw)
qed


text \<open>A GET from someone who may: the handler runs on a new buffer, and nothing but its reply is
  added to the response.\<close>

lemma get_request:
  assumes f: "get_handler (resource r) = Some f" and "client_method client = HTTP_GET"
    and "authorized E r client s" and "ud_inv (uds r)"
  obtains ud1 t rsp0 where "ud_inv ud1" and "payload ud1 = []" and "ud_size ud1 = USER_DATA_BUFFER_GET_SIZE"
    and "started ud1" and "only_io heap_call s t" and "rsp_status rsp0 = 0" and "rsp_body rsp0 = []"
    and "redfish_request E r client HTTP_SERVER_REQUEST_DATA_FINAL request uds s =
      (case f E ud1 t of None \<Rightarrow> None
       | Some (ret, ud, s') \<Rightarrow>
           Some ((if ret \<noteq> 0 then rsp0\<lparr>rsp_status := ret\<rparr>
             else rsp0\<lparr>rsp_body := payload ud, rsp_status := HTTP_200_OK\<rparr>)\<lparr>rsp_final := True\<rparr>,
             uds(r := ud), s'))"
proof -
  let ?s = "snd (free_user_data E (uds r) s)"
  have free: "(if started (uds r) then free_user_data E (uds r) s else (uds r, s)) = (no_user_data, ?s)"
    using free_user_data_result [OF assms(4), of E s] assms(4) by (auto simp: ud_inv_def split: if_splits)
  obtain ud1 t where a: "alloc_user_data E no_user_data USER_DATA_BUFFER_GET_SIZE ?s = (ud1, t)"
    by fastforce
  note al = alloc_user_data_inv [OF a order_refl]
  have io: "only_io heap_call s t"
    using free_user_data_io alloc_user_data_io [of ?s] a by (metis snd_conv only_io_trans)
  have "HTTP_GET \<in> allow_methods (get_handler (resource r)) (patch_handler (resource r))
      (post_handler (resource r))"
    using f by (simp add: allow_methods_def)
  then obtain rsp0 where v: "validate_and_set_headers client (allow_methods (get_handler (resource r))
      (patch_handler (resource r)) (post_handler (resource r))) fresh_response = (0, rsp0)"
    and rsp0: "rsp_status rsp0 = 0" "rsp_body rsp0 = []"
    using assms(2) by (simp add: validate_and_set_headers_def fresh_response_def)
  have na: "(require_auth (resource r) \<and> validate_auth E client s < 0) = False"
    using assms(3) by (auto simp: authorized_def)
  have req: "redfish_request E r client HTTP_SERVER_REQUEST_DATA_FINAL request uds s =
      (case f E ud1 t of None \<Rightarrow> None
       | Some (ret, ud, s') \<Rightarrow>
           Some ((if ret \<noteq> 0 then rsp0\<lparr>rsp_status := ret\<rparr>
             else rsp0\<lparr>rsp_body := payload ud, rsp_status := HTTP_200_OK\<rparr>)\<lparr>rsp_final := True\<rparr>,
             uds(r := ud), s'))"
    unfolding redfish_request_def redfish_handler_def v na
    using assms(2) f a by (simp add: handle_get_def free split: option.split)
  show thesis
    by (rule that [OF _ _ _ _ io rsp0 req]) (use al in \<open>simp_all\<close>)
qed

text \<open>C21: A GET answers with the document of its resource, whole or not at all. An authorized
  complete GET has a defined result exactly where the resource's document is defined in the
  state after the allocation; the answer is 200 with the text the JSON encoder produces for
  that document when it has at most 1024 bytes, and 500 with no body otherwise. No byte of
  the memory the heap hands out reaches the client.\<close>

theorem get_reply_exact:
  assumes "get_handler (resource r) \<noteq> None" and "client_method client = HTTP_GET"
    and "authorized E r client s" and "ud_inv (uds r)"
  shows "\<exists>t. only_io heap_call s t \<and>
    (case redfish_request E r client HTTP_SERVER_REQUEST_DATA_FINAL request uds s of
       None \<Rightarrow> resource_document E r t = None
     | Some (rsp, uds', s') \<Rightarrow> (\<exists>j. resource_document E r t = Some j \<and>
         (rsp_status rsp, rsp_body rsp) = get_answer E j \<and> only_io quiet_call s s'))"
proof -
  obtain f where f: "get_handler (resource r) = Some f"
    using assms(1) by blast
  obtain ud1 t rsp0 where al: "ud_inv ud1" "payload ud1 = []" "ud_size ud1 = USER_DATA_BUFFER_GET_SIZE" "started ud1"
    and io: "only_io heap_call s t" and rsp0: "rsp_status rsp0 = 0" "rsp_body rsp0 = []"
    and req: "redfish_request E r client HTTP_SERVER_REQUEST_DATA_FINAL request uds s =
      (case f E ud1 t of None \<Rightarrow> None
       | Some (ret, ud, s') \<Rightarrow>
           Some ((if ret \<noteq> 0 then rsp0\<lparr>rsp_status := ret\<rparr>
             else rsp0\<lparr>rsp_body := payload ud, rsp_status := HTTP_200_OK\<rparr>)\<lparr>rsp_final := True\<rparr>,
             uds(r := ud), s'))"
    by (rule get_request [where uds = uds, OF f assms(2-4)])
  show ?thesis
  proof (cases "resource_document E r t")
    case None
    then show ?thesis
      using resource_document_get [OF f, of E ud1 t] io req by (intro exI [of _ t]) simp
  next
    case (Some j)
    then obtain t' where d: "f E ud1 t = get_document j E ud1 t'"
      using resource_document_get [OF f, of E ud1 t] by auto
    obtain ret ud' s' where g: "get_document j E ud1 t' = Some (ret, ud', s')"
      unfolding get_document_def by (cases "encode_reply E j ud1") simp
    have "get_fn f"
      using f by (rule resource_get)
    then have "only_io read_call t s'"
      using get_fn.safe d g by metis
    then have "only_io quiet_call s s'"
      using io quiet_call_io only_io_trans by blast
    then show ?thesis
      using get_document_answer [OF g al(1,4,2,3)] Some io req d g rsp0
      by (intro exI [of _ t]) (auto split: if_splits)
  qed
qed

lemma get_reply_exact_witness:
  "get_answer ideal_env service_root_json = (200, ''{}'')"
proof -
  obtain uds' s' where r: "redfish_request ideal_env Res_service_root (plain_client HTTP_GET)
     HTTP_SERVER_REQUEST_DATA_FINAL None (\<lambda>r. no_user_data) (reset_state []) =
     Some (\<lparr>rsp_status = 200,
        rsp_headers = [(''content-type'', ''application/json''), (''cache-control'', ''no-cache'')],
        rsp_body = ''{}'', rsp_final = True\<rparr>, uds', s')"
    using root_request by blast
  have "get_handler (resource Res_service_root) \<noteq> None"
    "client_method (plain_client HTTP_GET) = HTTP_GET"
    "authorized ideal_env Res_service_root (plain_client HTTP_GET) (reset_state [])"
    "ud_inv ((\<lambda>r. no_user_data) Res_service_root)"
    by (simp_all add: resource_defs plain_client_def authorized_def)
  from get_reply_exact [OF this, of None] r show ?thesis
    by auto
qed

end
