(* ===== verification/Redfish_Bodies.thy ===== *)
theory Redfish_Bodies
  imports Redfish_Service
begin

text \<open>
  Whole transactions of the Redfish service: the body of a PATCH or POST that arrives in
  several parts, and what the documents of the resources promise a client (their form, their
  links, and that the public ones tell nothing about the firmware's state).
\<close>

section \<open>Bodies in parts\<close>

text \<open>The HTTP server hands over a body part by part, the last one marked as final; it stops at
  a final response.\<close>

fun deliver ::
  "env \<Rightarrow> redfish_resource \<Rightarrow> http_client \<Rightarrow> bytes list \<Rightarrow> buffers \<Rightarrow> bmc \<Rightarrow>
    (response \<times> buffers \<times> bmc) option" where
  "deliver E r client [] uds s = None"
| "deliver E r client [c] uds s =
     redfish_request E r client HTTP_SERVER_REQUEST_DATA_FINAL (Some c) uds s"
| "deliver E r client (c # d # cs) uds s =
     (case redfish_request E r client HTTP_SERVER_REQUEST_DATA_MORE (Some c) uds s of
        None \<Rightarrow> None
      | Some (rsp, uds, s) \<Rightarrow>
          if rsp_final rsp then Some (rsp, uds, s) else deliver E r client (d # cs) uds s)"

definition body_handler :: "redfish_resource \<Rightarrow> http_method \<Rightarrow> method_fn option" where
  "body_handler r meth =
     (if meth = HTTP_PATCH then patch_handler (resource r)
      else if meth = HTTP_POST then post_handler (resource r) else None)"

text \<open>The parts arrive in a buffer whose size is that of a body.\<close>

definition body_ud :: "user_data \<Rightarrow> bool" where
  "body_ud ud \<longleftrightarrow> ud_inv ud \<and> (started ud \<longrightarrow> ud_size ud = USER_DATA_BUFFER_POST_SIZE)"

lemma body_ud_no [simp]: "body_ud no_user_data"
  by (simp add: body_ud_def)

lemma payload_body_le: "body_ud ud \<Longrightarrow> length (payload ud) \<le> USER_DATA_BUFFER_POST_SIZE"
  by (auto simp: body_ud_def ud_inv_def length_payload no_user_data_def payload_def split: if_splits)

lemma body_buffer:
  assumes "(if \<not> started ud then alloc_user_data E ud USER_DATA_BUFFER_POST_SIZE s
      else (ud, s)) = (ud1, s1)" and "body_ud ud"
  shows "ud_inv ud1 \<and> started ud1 \<and> payload ud1 = payload ud \<and>
      ud_size ud1 = USER_DATA_BUFFER_POST_SIZE"
proof (cases "started ud")
  case True
  then show ?thesis
    using assms by (auto simp: body_ud_def)
next
  case False
  then have "ud = no_user_data"
    using assms(2) by (simp add: body_ud_def ud_inv_def)
  moreover have "USER_DATA_BUFFER_POST_SIZE \<le> USER_DATA_BUFFER_GET_SIZE"
    by (simp add: USER_DATA_BUFFER_POST_SIZE_def USER_DATA_BUFFER_GET_SIZE_def)
  ultimately show ?thesis
    using alloc_user_data_inv [of E USER_DATA_BUFFER_POST_SIZE s ud1 s1] assms(1) False by auto
qed

lemma accept_chunk_body:
  assumes "accept_chunk E (Some c) ud s = (ok, ud', s')" and "body_ud ud"
  shows "ok \<longleftrightarrow> length (payload ud) + length c \<le> USER_DATA_BUFFER_POST_SIZE"
    and "body_ud ud'" and "started ud'" and "ok \<Longrightarrow> payload ud' = payload ud @ c"
    and "only_io heap_call s s'"
proof -
  have inv: "ud_inv ud"
    using assms(2) by (simp add: body_ud_def)
  note ai = accept_chunk_inv [OF assms(1) inv]
  show "started ud'" and "ok \<Longrightarrow> payload ud' = payload ud @ c"
    using ai by simp_all
  show "only_io heap_call s s'"
    using accept_chunk_io [of s E "Some c" ud] assms(1) by simp
  obtain ud1 s1 where a: "(if \<not> started ud then alloc_user_data E ud USER_DATA_BUFFER_POST_SIZE s
      else (ud, s)) = (ud1, s1)"
    by fastforce
  note one = body_buffer [OF a assms(2)]
  have res: "(ok, ud') = (if length c > 0 then append_user_data ud1 c else (True, ud1))"
    using assms(1) a by (auto simp: accept_chunk_def split: prod.splits)
  have size: "ud_size ud' = ud_size ud1"
    using res by (auto simp: append_user_data_def split: if_splits)
  show "body_ud ud'"
    using ai(1) size one by (simp add: body_ud_def)
  show "ok \<longleftrightarrow> length (payload ud) + length c \<le> USER_DATA_BUFFER_POST_SIZE"
  proof (cases "c = []")
    case True
    then show ?thesis
      using res payload_body_le [OF assms(2)] by simp
  next
    case False
    moreover have "length (payload ud) = data_len ud1"
      using one length_payload [of ud1] by simp
    ultimately show ?thesis
      using res append_user_data_inv [of ud1 c ok ud'] one by simp
  qed
qed

lemma validate_auth_only_io: "only_io P s t \<Longrightarrow> validate_auth E client t = validate_auth E client s"
proof -
  assume "only_io P s t"
  then have pw: "config_bmc_admin_password t = config_bmc_admin_password s"
    by (simp add: config_bmc_admin_password_def only_io_fields(2))
  show "validate_auth E client t = validate_auth E client s"
    unfolding validate_auth_def pw ..
qed

text \<open>One request with a part of a body.\<close>

lemma body_request:
  assumes f: "body_handler r (client_method client) = Some f" and au: "authorized E r client s"
    and ud: "body_ud (uds r)" and a: "accept_chunk E (Some c) (uds r) s = (ok, ud1, s1)"
    and st: "status \<in> {HTTP_SERVER_REQUEST_DATA_MORE, HTTP_SERVER_REQUEST_DATA_FINAL}"
  shows "redfish_request E r client status (Some c) uds s =
    (if \<not> ok then
       Some (fresh_response\<lparr>rsp_status := HTTP_400_BAD_REQUEST, rsp_final := True\<rparr>,
         uds(r := no_user_data), s1\<lparr>trace := Http HeapFree # trace s1\<rparr>)
     else if status = HTTP_SERVER_REQUEST_DATA_MORE then Some (fresh_response, uds(r := ud1), s1)
     else case f E ud1 s1 of None \<Rightarrow> None
       | Some (ret, ud2, s2) \<Rightarrow>
           Some (fresh_response\<lparr>rsp_status := (if ret \<noteq> 0 then ret else HTTP_204_NO_CONTENT),
               rsp_final := True\<rparr>,
             uds(r := no_user_data), s2\<lparr>trace := Http HeapFree # trace s2\<rparr>))"
proof -
  note ac = accept_chunk_body [OF a ud]
  have inv1: "ud_inv ud1"
    using ac(2) by (simp add: body_ud_def)
  have meth: "client_method client = HTTP_PATCH \<and> patch_handler (resource r) = Some f \<or>
      client_method client = HTTP_POST \<and> post_handler (resource r) = Some f"
    using f by (auto simp: body_handler_def split: if_splits)
  then have fn: "method_handler f"
    using resource_body [of r f] by (auto simp: body_fn_def intro: effect_handler.is_method_handler)
  let ?methods = "allow_methods (get_handler (resource r)) (patch_handler (resource r))
      (post_handler (resource r))"
  have v: "validate_and_set_headers client ?methods fresh_response = (0, fresh_response)"
    using meth by (auto simp: validate_and_set_headers_def allow_methods_def)
  have na: "(require_auth (resource r) \<and> validate_auth E client s < 0) = False"
    using au by (auto simp: authorized_def)
  have free: "f E ud1 s1 = Some (ret, ud2, s2) \<Longrightarrow> free_user_data E ud2 s2 =
      (no_user_data, s2\<lparr>trace := Http HeapFree # trace s2\<rparr>)" for ret ud2 s2
    using method_handler.buffer [OF fn _ inv1] free_user_data_result ac(3) by metis
  have h: "(if client_method client = HTTP_PATCH then patch_handler (resource r)
      else post_handler (resource r)) = Some f" "client_method client = HTTP_PATCH \<or>
      client_method client = HTTP_POST"
    using meth by auto
  show ?thesis
    unfolding redfish_request_def redfish_handler_def v na
    using st h ac(3) free free_user_data_result [OF inv1, of E s1]
    by (auto simp: handle_body_def a call_method_def split: option.split)
qed

text \<open>What became of a body: the handler \<open>f\<close> got it and gave the answer, or it was refused.\<close>

definition delivered ::
  "env \<Rightarrow> redfish_resource \<Rightarrow> method_fn \<Rightarrow> buffers \<Rightarrow> bytes \<Rightarrow> bmc \<Rightarrow>
    (response \<times> buffers \<times> bmc) option \<Rightarrow> bool" where
  "delivered E r f uds body s result \<longleftrightarrow>
     (\<exists>ud t. only_io heap_call s t \<and>
       (if length body \<le> USER_DATA_BUFFER_POST_SIZE
        then payload ud = body \<and> ud_inv ud \<and>
          (case result of
             None \<Rightarrow> f E ud t = None
           | Some (rsp, uds', s') \<Rightarrow> (\<exists>ret ud' u. f E ud t = Some (ret, ud', u) \<and>
               rsp_status rsp = (if ret \<noteq> 0 then ret else HTTP_204_NO_CONTENT) \<and>
               uds' = uds(r := no_user_data) \<and> s' = u\<lparr>trace := Http HeapFree # trace u\<rparr>))
        else \<exists>rsp. result = Some (rsp, uds(r := no_user_data), t) \<and>
          rsp_status rsp = HTTP_400_BAD_REQUEST))"

lemma delivered_later:
  assumes "delivered E r f (uds(r := ud)) body t result" and "only_io heap_call s t"
  shows "delivered E r f uds body s result"
proof -
  from assms(1) obtain ud' t' where "only_io heap_call t t'"
    and res: "if length body \<le> USER_DATA_BUFFER_POST_SIZE
        then payload ud' = body \<and> ud_inv ud' \<and>
          (case result of
             None \<Rightarrow> f E ud' t' = None
           | Some (rsp, uds', s') \<Rightarrow> (\<exists>ret ud'' u. f E ud' t' = Some (ret, ud'', u) \<and>
               rsp_status rsp = (if ret \<noteq> 0 then ret else HTTP_204_NO_CONTENT) \<and>
               uds' = uds(r := no_user_data) \<and> s' = u\<lparr>trace := Http HeapFree # trace u\<rparr>))
        else \<exists>rsp. result = Some (rsp, uds(r := no_user_data), t') \<and>
          rsp_status rsp = HTTP_400_BAD_REQUEST"
    unfolding delivered_def by (simp only: fun_upd_upd) blast
  with only_io_trans [OF assms(2)] show ?thesis
    unfolding delivered_def by blast
qed

lemma delivered_refused:
  "only_io heap_call s t \<Longrightarrow> length body > USER_DATA_BUFFER_POST_SIZE \<Longrightarrow>
     rsp_status rsp = HTTP_400_BAD_REQUEST \<Longrightarrow>
     delivered E r f uds body s (Some (rsp, uds(r := no_user_data), t))"
  unfolding delivered_def by (intro exI conjI) (assumption, simp)

text \<open>The request with a part of the body: the part that does not fit, and the last part.\<close>

lemma deliver_refused:
  assumes "body_handler r (client_method client) = Some f" and "authorized E r client s" and "body_ud (uds r)"
    and a: "accept_chunk E (Some c) (uds r) s = (False, ud1, s1)"
    and st: "status \<in> {HTTP_SERVER_REQUEST_DATA_MORE, HTTP_SERVER_REQUEST_DATA_FINAL}"
  shows "delivered E r f uds (payload (uds r) @ c @ rest) s
    (redfish_request E r client status (Some c) uds s)"
proof -
  note ac = accept_chunk_body [OF a assms(3)]
  have "only_io heap_call s (s1\<lparr>trace := Http HeapFree # trace s1\<rparr>)"
    by (rule only_io_push [OF _ ac(5)]) simp
  from delivered_refused [OF this] show ?thesis
    using body_request [where uds = uds, OF assms] ac(1) by simp
qed

lemma deliver_last:
  assumes "body_handler r (client_method client) = Some f" and "authorized E r client s" and "body_ud (uds r)"
    and a: "accept_chunk E (Some c) (uds r) s = (True, ud1, s1)"
  shows "delivered E r f uds (payload (uds r) @ c) s
    (redfish_request E r client HTTP_SERVER_REQUEST_DATA_FINAL (Some c) uds s)"
proof -
  note ac = accept_chunk_body [OF a assms(3)]
  have "payload ud1 = payload (uds r) @ c" "ud_inv ud1"
    using ac by (simp_all add: body_ud_def)
  moreover have "length (payload (uds r) @ c) \<le> USER_DATA_BUFFER_POST_SIZE"
    using ac(1) by simp
  ultimately show ?thesis
    unfolding delivered_def using ac(5) body_request [where uds = uds and status = HTTP_SERVER_REQUEST_DATA_FINAL, OF assms]
    by (intro exI [of _ ud1] exI [of _ s1]) (simp split: option.split, metis)
qed

section \<open>Properties\<close>

text \<open>C8: A body that arrives in parts reaches its handler whole, or not at all. Sent by an
  authorized client to a resource with no transaction in progress, a body of at most 512
  bytes in any division into parts is handed to the handler of the method exactly once and as
  the concatenation of the parts, and the answer is the handler's status, or 204. A longer
  one is refused with 400 and the handler never runs. In both cases the buffer is free
  afterwards.\<close>

theorem body_delivered:
  assumes "cs \<noteq> []" and "body_handler r (client_method client) = Some f"
    and "authorized E r client s" and "body_ud (uds r)"
  shows "delivered E r f uds (payload (uds r) @ concat cs) s (deliver E r client cs uds s)"
  using assms
proof (induction E r client cs uds s rule: deliver.induct)
  case (2 E r client c uds s)
  obtain ok ud1 s1 where a: "accept_chunk E (Some c) (uds r) s = (ok, ud1, s1)"
    by (metis prod_cases3)
  then show ?case
    using deliver_last [where uds = uds, OF "2.prems"(2-4), of c ud1 s1]
      deliver_refused [where uds = uds, OF "2.prems"(2-4), of c ud1 s1 HTTP_SERVER_REQUEST_DATA_FINAL "[]"]
    by (cases ok) simp_all
next
  case (3 E r client c d cs uds s)
  obtain ok ud1 s1 where a: "accept_chunk E (Some c) (uds r) s = (ok, ud1, s1)"
    by (metis prod_cases3)
  note req = body_request [where uds = uds and status = HTTP_SERVER_REQUEST_DATA_MORE, OF "3.prems"(2,3,4) a]
  note ac = accept_chunk_body [OF a "3.prems"(4)]
  show ?case
  proof (cases ok)
    case True
    have au: "authorized E r client s1"
      using "3.prems"(3) validate_auth_only_io [OF ac(5)] by (simp add: authorized_def)
    have run: "deliver E r client (c # d # cs) uds s = deliver E r client (d # cs) (uds(r := ud1)) s1"
      using req True by (simp add: fresh_response_def)
    have pay: "payload ((uds(r := ud1)) r) @ concat (d # cs) = payload (uds r) @ concat (c # d # cs)"
      using ac(4) True by simp
    have "redfish_request E r client HTTP_SERVER_REQUEST_DATA_MORE (Some c) uds s =
        Some (fresh_response, uds(r := ud1), s1)"
      using req True by simp
    from "3.IH" [OF this refl refl _ _ "3.prems"(2) au]
    have "delivered E r f (uds(r := ud1)) (payload (uds r) @ concat (c # d # cs)) s1
        (deliver E r client (c # d # cs) uds s)"
      using ac(2) unfolding run pay by (simp add: fresh_response_def flip: fun_upd_def)
    then show ?thesis
      using ac(5) by (rule delivered_later)
  next
    case False
    then show ?thesis
      using deliver_refused [where uds = uds, OF "3.prems"(2-4), of c ud1 s1 HTTP_SERVER_REQUEST_DATA_MORE "concat (d # cs)"]
        a req by simp
  qed
qed simp

lemma body_delivered_witness:
  "delivered ideal_env Res_account account_patch_handler (\<lambda>r. no_user_data) ''ab'' (reset_state [])
     (deliver ideal_env Res_account (admin_client HTTP_PATCH) [''a'', ''b''] (\<lambda>r. no_user_data)
       (reset_state []))"
proof -
  have "validate_auth ideal_env (admin_client HTTP_PATCH) (reset_state []) = 0"
    by (simp add: validate_auth_def admin_client_def ideal_env_def snprintf_def
        CREDENTIALS_MAX_LEN_def getters reset_state_def zero_config_def c_str_def zeros_def)
  then have "authorized ideal_env Res_account (admin_client HTTP_PATCH) (reset_state [])"
    by (simp add: authorized_def)
  from body_delivered [OF _ _ this, of "[''a'', ''b'']" account_patch_handler "\<lambda>r. no_user_data"]
  show ?thesis
    by (simp add: body_handler_def resource_defs admin_client_def)
qed

section \<open>What the documents promise\<close>

text \<open>Every \<open>@odata.id\<close>, \<open>url\<close> and \<open>target\<close> in a document.\<close>

fun links :: "json \<Rightarrow> bytes list"
  and member_links :: "(bytes \<times> json) list \<Rightarrow> bytes list"
  and element_links :: "json list \<Rightarrow> bytes list" where
  "links (JObj ms) = member_links ms"
| "links (JArr js) = element_links js"
| "links (JStr x) = []"
| "links (JNum n) = []"
| "links (JBool b) = []"
| "member_links [] = []"
| "member_links ((n, j) # ms) =
     (if n \<in> {''@odata.id'', ''url'', ''target''}
      then (case j of JStr (Some x) \<Rightarrow> [x] | _ \<Rightarrow> []) else []) @ links j @ member_links ms"
| "element_links [] = []"
| "element_links (j # js) = links j @ element_links js"

fun resource_descr :: "redfish_resource \<Rightarrow> json_descr" where
  "resource_descr Res_redfish_version = version_descr"
| "resource_descr Res_service_root = service_root_descr"
| "resource_descr Res_session_service = session_service_descr"
| "resource_descr Res_odata = odata_descr"
| "resource_descr Res_account_service = account_service_descr"
| "resource_descr Res_account = account_descr"
| "resource_descr Res_manager = manager_descr"
| "resource_descr Res_ethernet = ethernet_interface_descr"
| "resource_descr Res_network_protocol = network_protocol_descr"
| "resource_descr Res_system = computer_system_descr"
| "resource_descr Res_system_reset = reset_descr"
| "resource_descr Res_chassis = chassis_descr"
| "resource_descr Res_sensor_temp_bmc = sensor_descr"
| "resource_descr r = collection_descr"

lemmas documents = collection_def service_root_json_def session_service_json_def
  sessions_collection_json_def odata_entry_def odata_json_def account_service_json_def
  accounts_collection_json_def account_json_def managers_collection_json_def manager_json_def
  ethernet_collection_json_def ethernet_json_def ethernet_document_def ipv4_json_def
  current_addresses_def static_addresses_def network_protocol_json_def
  systems_collection_json_def system_json_def chassis_collection_json_def chassis_json_def
  sensors_collection_json_def sensor_json_def



lemma registered_url: "registered E q \<Longrightarrow> url (resource q) \<in> fst ` set (http_urls E)"
proof -
  assume "registered E q"
  then have "(url (resource q), q) \<in> set (http_urls E)"
    using all_resources [of q] by (simp add: http_urls_def)
  then show ?thesis
    by (metis fst_conv image_eqI)
qed

text \<open>The URLs, one by one.\<close>

lemmas url_instances =
  registered_url [of _ Res_redfish_version]
  registered_url [of _ Res_service_root]
  registered_url [of _ Res_session_service]
  registered_url [of _ Res_sessions_collection]
  registered_url [of _ Res_odata]
  registered_url [of _ Res_account_service]
  registered_url [of _ Res_accounts_collection]
  registered_url [of _ Res_account]
  registered_url [of _ Res_managers_collection]
  registered_url [of _ Res_manager]
  registered_url [of _ Res_ethernet_interfaces]
  registered_url [of _ Res_ethernet]
  registered_url [of _ Res_network_protocol]
  registered_url [of _ Res_systems_collection]
  registered_url [of _ Res_system]
  registered_url [of _ Res_system_reset]
  registered_url [of _ Res_chassis_collection]
  registered_url [of _ Res_chassis]
  registered_url [of _ Res_sensors_collection]
  registered_url [of _ Res_sensor_temp_bmc]

lemmas url_facts = url_instances [unfolded registered_def, simplified, unfolded resource_defs, simplified]

lemma known_urls:
  shows "''/redfish/'' \<in> fst ` set (http_urls E)"
    and "''/redfish/v1/'' \<in> fst ` set (http_urls E)"
    and "''/redfish/v1/SessionService'' \<in> fst ` set (http_urls E)"
    and "''/redfish/v1/SessionService/Sessions'' \<in> fst ` set (http_urls E)"
    and "''/redfish/v1/odata'' \<in> fst ` set (http_urls E)"
    and "''/redfish/v1/AccountService'' \<in> fst ` set (http_urls E)"
    and "''/redfish/v1/AccountService/Accounts'' \<in> fst ` set (http_urls E)"
    and "''/redfish/v1/AccountService/Accounts/1'' \<in> fst ` set (http_urls E)"
    and "''/redfish/v1/Managers'' \<in> fst ` set (http_urls E)"
    and "''/redfish/v1/Managers/bmc'' \<in> fst ` set (http_urls E)"
    and "''/redfish/v1/Managers/bmc/EthernetInterfaces'' \<in> fst ` set (http_urls E)"
    and "''/redfish/v1/Managers/bmc/EthernetInterfaces/eth0'' \<in> fst ` set (http_urls E)"
    and "''/redfish/v1/Managers/bmc/NetworkProtocol'' \<in> fst ` set (http_urls E)"
    and "''/redfish/v1/Systems'' \<in> fst ` set (http_urls E)"
    and "''/redfish/v1/Systems/system'' \<in> fst ` set (http_urls E)"
    and "''/redfish/v1/Systems/system/Actions/ComputerSystem.Reset'' \<in> fst ` set (http_urls E)"
    and "''/redfish/v1/Chassis'' \<in> fst ` set (http_urls E)"
    and "''/redfish/v1/Chassis/1'' \<in> fst ` set (http_urls E)"
    and "''/redfish/v1/Chassis/1/Sensors'' \<in> fst ` set (http_urls E)"
    and "CONFIG_APP_SENSORS E \<Longrightarrow> ''/redfish/v1/Chassis/1/Sensors/TempBmc'' \<in> fst ` set (http_urls E)"
  by (simp_all add: url_facts)

text \<open>C30: Every link of a document leads to a resource of the service: each \<open>@odata.id\<close>,
  \<open>url\<close> and \<open>target\<close> in the document of a registered resource is a registered URL, whatever
  the options of the build.\<close>

theorem links_resolve:
  assumes "registered E r" and "resource_document E r s = Some j"
  shows "set (links j) \<subseteq> fst ` set (http_urls E)"
  using assms
  by (cases r) (auto simp: documents known_urls registered_def Let_def simp del: in_image_insert_iff image_iff
      split: option.splits if_splits)

lemma links_resolve_witness:
  "''/redfish/v1/Chassis'' \<in> fst ` set (http_urls ideal_env)"
  using links_resolve [of ideal_env Res_service_root "reset_state []" service_root_json]
  by (simp add: registered_def service_root_json_def)

text \<open>The resources open to everyone tell nothing about the firmware. The answer to a GET of
  a resource that requires no authentication is fixed by the build: it is the same status and
  the same body in every state, for every client and with any leftover of an earlier request.\<close>

lemma public_resources_constant:
  assumes "\<not> require_auth (resource r)"
  shows "\<exists>answer. \<forall>client request uds s. client_method client = HTTP_GET \<longrightarrow> ud_inv (uds r) \<longrightarrow>
    (\<exists>rsp uds' s'.
       redfish_request E r client HTTP_SERVER_REQUEST_DATA_FINAL request uds s = Some (rsp, uds', s') \<and>
       (rsp_status rsp, rsp_body rsp) = answer)"
proof -
  have g: "get_handler (resource r) \<noteq> None"
    using assms by (cases r) (simp_all add: resource_defs)
  obtain j where j: "\<And>t. resource_document E r t = Some j"
    using assms by (cases r) (auto simp: resource_defs)
  have "authorized E r client s" for client s
    using assms by (simp add: authorized_def)
  from get_reply_exact [OF g _ this] j show ?thesis
    by (intro exI [of _ "get_answer E j"]) (fastforce split: option.splits)
qed

lemma public_resources_constant_witness:
  "\<exists>answer. \<forall>s. \<exists>rsp uds' s'.
     redfish_request ideal_env Res_odata (plain_client HTTP_GET) HTTP_SERVER_REQUEST_DATA_FINAL None
       (\<lambda>r. no_user_data) s = Some (rsp, uds', s') \<and> (rsp_status rsp, rsp_body rsp) = answer"
proof -
  have "\<not> require_auth (resource Res_odata)"
    by (simp add: resource_defs)
  from public_resources_constant [OF this, of ideal_env] show ?thesis
    by (auto simp: plain_client_def) (metis http_client.select_convs(1) ud_inv_no)
qed

end
