(* ===== verification/Redfish_Actions.thy ===== *)
theory Redfish_Actions
  imports Redfish_Bodies
begin

text \<open>
  What the PATCH and POST requests of the Redfish service mean for the firmware: the reset
  action, and the requests whose behaviour is not defined.
\<close>

section \<open>A complete request with a body that fits\<close>

lemma complete_request:
  assumes "body_handler r (client_method client) = Some f" and "authorized E r client s"
    and "body_ud (uds r)" and "length (payload (uds r) @ c) \<le> USER_DATA_BUFFER_POST_SIZE"
  obtains ud t where "only_io heap_call s t" and "payload ud = payload (uds r) @ c"
    and "redfish_request E r client HTTP_SERVER_REQUEST_DATA_FINAL (Some c) uds s =
      (case f E ud t of None \<Rightarrow> None
       | Some (ret, ud2, s2) \<Rightarrow>
           Some (fresh_response\<lparr>rsp_status := (if ret \<noteq> 0 then ret else HTTP_204_NO_CONTENT),
               rsp_final := True\<rparr>,
             uds(r := no_user_data), s2\<lparr>trace := Http HeapFree # trace s2\<rparr>))"
proof -
  obtain ok ud t where a: "accept_chunk E (Some c) (uds r) s = (ok, ud, t)"
    by (metis prod_cases3)
  note req = body_request [where uds = uds and status = HTTP_SERVER_REQUEST_DATA_FINAL,
      OF assms(1,2,3) a]
  note ac = accept_chunk_body [OF a assms(3)]
  have ok
    using ac(1) assms(4) by simp
  with req ac(4,5) show thesis
    by (intro that) simp_all
qed

section \<open>Properties\<close>

text \<open>C26: The reset action. A complete authorized POST to the reset action whose body the parser
  accepts with a \<open>ResetType\<close> switches the host on for On, off for ForceOff and pulses the
  reset line for PowerCycle, in each case with answer 204, whether the switch or the pulse
  succeeded or not; any other type is answered with 400 and does nothing.\<close>

theorem system_reset_action:
  assumes "client_method client = HTTP_POST" and "authorized E Res_system_reset client s"
    and "body_ud (uds Res_system_reset)"
    and "length (payload (uds Res_system_reset) @ c) \<le> USER_DATA_BUFFER_POST_SIZE"
    and "json_obj_parse E reset_descr (payload (uds Res_system_reset) @ c) = Inr ms"
    and "str_member ''ResetType'' ms = Some x"
  shows "\<exists>t rsp s'. only_io heap_call s t \<and>
    redfish_request E Res_system_reset client HTTP_SERVER_REQUEST_DATA_FINAL (Some c) uds s =
      Some (rsp, uds(Res_system_reset := no_user_data), s'\<lparr>trace := Http HeapFree # trace s'\<rparr>) \<and>
    (if c_str x = ''On'' then rsp_status rsp = 204 \<and> s' = power_set_state E True t
     else if c_str x = ''ForceOff'' then rsp_status rsp = 204 \<and> s' = power_set_state E False t
     else if c_str x = ''PowerCycle'' then rsp_status rsp = 204 \<and> s' = snd (power_reset E t)
     else rsp_status rsp = 400 \<and> s' = t)"
proof -
  have f: "body_handler Res_system_reset (client_method client) = Some system_reset_post_handler"
    using assms(1) by (simp add: body_handler_def resource_defs)
  obtain ud t where io: "only_io heap_call s t" and pay: "payload ud = payload (uds Res_system_reset) @ c"
    and req: "redfish_request E Res_system_reset client HTTP_SERVER_REQUEST_DATA_FINAL (Some c) uds s =
      (case system_reset_post_handler E ud t of None \<Rightarrow> None
       | Some (ret, ud2, s2) \<Rightarrow>
           Some (fresh_response\<lparr>rsp_status := (if ret \<noteq> 0 then ret else HTTP_204_NO_CONTENT),
               rsp_final := True\<rparr>,
             uds(Res_system_reset := no_user_data), s2\<lparr>trace := Http HeapFree # trace s2\<rparr>))"
    by (rule complete_request [where uds = uds and c = c, OF f assms(2-4)])
  show ?thesis
    using io req pay assms(5,6)
    by (intro exI [of _ t]) (auto simp: system_reset_post_handler_def)
qed

lemma system_reset_action_witness:
  "\<exists>rsp uds s'. redfish_request (reset_type_env ''Sleep'') Res_system_reset (admin_client HTTP_POST)
     HTTP_SERVER_REQUEST_DATA_FINAL (Some ''x'') (\<lambda>r. no_user_data) (reset_state []) =
     Some (rsp, uds, s') \<and> rsp_status rsp = 400"
proof -
  have au: "authorized (reset_type_env ''Sleep'') Res_system_reset (admin_client HTTP_POST) (reset_state [])"
    by (simp add: authorized_def admin_client_valid)
  have parse: "json_obj_parse (reset_type_env ''Sleep'') d b = Inr [(''ResetType'', str ''Sleep'')]" for d b
    by (simp add: reset_type_env_def)
  have mem: "str_member ''ResetType'' [(''ResetType'', str ''Sleep'')] = Some ''Sleep''"
    by (simp add: str_member_def)
  show ?thesis
    using system_reset_action [OF _ au _ _ parse mem, of "\<lambda>r. no_user_data" "''x''"]
    by (auto simp: admin_client_def USER_DATA_BUFFER_POST_SIZE_def c_str_def)
qed



end
