(* ===== verification/Console_Logger.thy ===== *)
theory Console_Logger
  imports Ideal_Env
begin

text \<open>
  The log of the host's console (console_logger.c): a ring buffer that the UART fills by DMA
  in chunks handed out by the event callback, readers that follow it with positions of their
  own, and the writer that sends to the host. The spin lock makes the operations on the
  positions atomic, so that each is one step here. What the UART driver does between the
  events is Zephyr's; the step relation \<open>rx_step\<close> states what Zephyr documents of it.
\<close>

section \<open>Events of the consoles (synch.h) and sizes\<close>

definition EVENT_CONSOLE_LOG_DATA :: nat where "EVENT_CONSOLE_LOG_DATA = 1"
definition EVENT_WEBSOCKET_CLIENT :: nat where "EVENT_WEBSOCKET_CLIENT = 2"
definition EVENT_TELNET_CLIENT :: nat where "EVENT_TELNET_CLIENT = 4"

definition UART_RX_DELAY_US :: nat where "UART_RX_DELAY_US = 50000"

definition UART_RX_BUF_SIZE :: "env \<Rightarrow> nat" where
  "UART_RX_BUF_SIZE E = CONFIG_APP_CONSOLE_LOG_SIZE E div 16"

definition UART_TX_BUF_SIZE :: nat where "UART_TX_BUF_SIZE = 32"

abbreviation host_log :: "bmc \<Rightarrow> console_log" where
  "host_log s \<equiv> host_console_log (daemons s)"

abbreviation log_update :: "(console_log \<Rightarrow> console_log) \<Rightarrow> bmc \<Rightarrow> bmc" where
  "log_update f s \<equiv> s\<lparr>daemons := (daemons s)\<lparr>host_console_log := f (host_log s)\<rparr>\<rparr>"

section \<open>Events of the UART\<close>

datatype uart_event =
    UART_TX_DONE
  | UART_TX_ABORTED
  | UART_RX_RDY nat                 \<comment> \<open>data.rx.len\<close>
  | UART_RX_BUF_REQUEST
  | UART_RX_BUF_RELEASED
  | UART_RX_DISABLED
  | UART_RX_STOPPED

definition uart_rx_ready :: "env \<Rightarrow> nat \<Rightarrow> bmc \<Rightarrow> bmc" where
  "uart_rx_ready E len s =
     (let s = log_update (\<lambda>l. l\<lparr>received := received l + of_nat len\<rparr>) s
      in ext_ignore E (Kernel (EventPost EVENT_CONSOLE_LOG_DATA)) s)"

definition uart_rx_allocate :: "env \<Rightarrow> bmc \<Rightarrow> bmc" where
  "uart_rx_allocate E s =
     (let off = unat (allocated (host_log s)) mod log_size (host_log s);
          s = log_update (\<lambda>l. l\<lparr>allocated := allocated l + of_nat (UART_RX_BUF_SIZE E)\<rparr>) s
      in ext_ignore E (Uart (UartRxBufRsp off (UART_RX_BUF_SIZE E))) s)"

definition uart_rx_start :: "env \<Rightarrow> bmc \<Rightarrow> bmc" where
  "uart_rx_start E s =
     (let off = unat (allocated (host_log s)) mod log_size (host_log s);
          s = log_update (\<lambda>l. l\<lparr>allocated := allocated l + of_nat (UART_RX_BUF_SIZE E)\<rparr>) s
      in ext_ignore E (Uart (UartRxEnable off (UART_RX_BUF_SIZE E) UART_RX_DELAY_US)) s)"

fun uart_callback :: "env \<Rightarrow> uart_event \<Rightarrow> bmc \<Rightarrow> bmc" where
  "uart_callback E (UART_RX_RDY len) s = uart_rx_ready E len s"
| "uart_callback E UART_RX_DISABLED s = uart_rx_start E s"
| "uart_callback E UART_RX_BUF_REQUEST s = uart_rx_allocate E s"
| "uart_callback E UART_RX_STOPPED s = s"
| "uart_callback E UART_TX_DONE s = ext_ignore E (Uart TxSemGive) s"
| "uart_callback E UART_TX_ABORTED s = s"
| "uart_callback E UART_RX_BUF_RELEASED s = s"

section \<open>Reading the log\<close>

text \<open>The loop of \<open>console_log_read\<close>, with what has been copied so far.\<close>

function read_loop :: "console_log \<Rightarrow> nat \<Rightarrow> 64 word \<Rightarrow> nat \<Rightarrow> bytes \<Rightarrow> nat \<times> bytes \<times> 64 word" where
  "read_loop log n pos copied out =
     (if copied < n then
        let off = unat pos mod log_size log;
            len = min (unat (received log - pos)) (log_size log - off);
            len = min len (n - copied)
        in if len = 0 then (copied, out, pos)
           else read_loop log n (pos + of_nat len) (copied + len)
                  (out @ take len (drop off (log_buffer log)))
      else (copied, out, pos))"
  by pat_completeness auto
termination
  by (relation "measure (\<lambda>(log, n, pos, copied, out). n - copied)") auto

declare read_loop.simps [simp del]

text \<open>Returns the count or error, the bytes copied, and the new position.\<close>

definition console_log_read :: "console_log \<Rightarrow> nat \<Rightarrow> 64 word \<Rightarrow> int \<times> bytes \<times> 64 word" where
  "console_log_read log n pos =
     (if pos > received log then (- EINVAL, [], pos)
      else
        let start = (if unat (received log) < log_size log then 0
                     else allocated log - of_nat (log_size log));
            pos = (if start > pos then start else pos);
            (copied, out, pos) = read_loop log n pos 0 []
        in (int copied, out, pos))"

definition host_console_read :: "nat \<Rightarrow> 64 word \<Rightarrow> bmc \<Rightarrow> int \<times> bytes \<times> 64 word" where
  "host_console_read n pos s = console_log_read (host_log s) n pos"

definition host_console_seek_end :: "bmc \<Rightarrow> 64 word" where
  "host_console_seek_end s = received (host_log s)"

section \<open>Writing to the host\<close>

text \<open>The transfer buffer is free when the semaphore is taken; UART_TX_DONE gives it back.\<close>

function write_loop :: "env \<Rightarrow> bytes \<Rightarrow> nat \<Rightarrow> bmc \<Rightarrow> int \<times> bmc" where
  "write_loop E buf copied s =
     (if copied < length buf then
        let len = min (length buf - copied) UART_TX_BUF_SIZE;
            s = ext_ignore E (Uart TxSemTake) s;
            tx_buffer = take len (drop copied buf);
            (ret, s) = ext E (Uart (UartTx tx_buffer)) s
        in if ret < 0 then
             let s = ext_ignore E (Uart TxSemGive) s
             in (if copied \<noteq> 0 then int copied else ret, s)
           else write_loop E buf (copied + len) s
      else (int copied, s))"
  by pat_completeness auto
termination
  by (relation "measure (\<lambda>(E, buf, copied, s). length buf - copied)")
    (auto simp: UART_TX_BUF_SIZE_def)

declare write_loop.simps [simp del]

definition console_log_write :: "env \<Rightarrow> bytes \<Rightarrow> bmc \<Rightarrow> int \<times> bmc" where
  "console_log_write E buf s = write_loop E buf 0 s"

definition host_console_write :: "env \<Rightarrow> bytes \<Rightarrow> bmc \<Rightarrow> int \<times> bmc" where
  "host_console_write E buf s = console_log_write E buf s"

section \<open>Initialisation\<close>

definition uartmuxsel_init :: "env \<Rightarrow> bmc \<Rightarrow> int \<times> bmc" where
  "uartmuxsel_init E s =
     (let (ready, s) = ext E (Gpio (GpioReady UartMuxSel)) s in
      if ready = 0 then (- 1, s)
      else
        let (ret, s) = ext E (Gpio (GpioConfigure UartMuxSel GPIO_OUTPUT_INACTIVE)) s in
        if ret < 0 then (ret, s)
        else (let s = ext_ignore E (Gpio (GpioSet UartMuxSel 1)) s in (0, s)))"

text \<open>The array of the log is static storage, which is zero when the firmware starts; this
  function runs once, and nothing writes to the array before it. Without the option for the
  logger it is a stub.\<close>

definition console_logger_init :: "env \<Rightarrow> bmc \<Rightarrow> int \<times> bmc" where
  "console_logger_init E s =
     (if \<not> CONFIG_APP_CONSOLE_LOGGER E then (0, s)
      else
        let (ready, s) = ext E (Uart UartReady) s in
        if ready = 0 then (- 1, s)
        else
          let s = log_update (\<lambda>l. \<lparr>allocated = 0, received = 0,
                    log_size = CONFIG_APP_CONSOLE_LOG_SIZE E,
                    log_buffer = zeros (CONFIG_APP_CONSOLE_LOG_SIZE E)\<rparr>) s;
              s = ext_ignore E (Uart TxSemInit) s;
              (ret, s) = (if HAS_UARTMUXSEL E then uartmuxsel_init E s else (0, s))
          in if ret < 0 then (ret, s)
          else
            let (ret, s) = ext E (Uart UartConfigure) s in
            if ret < 0 then (- 1, s)
            else
              let (ret, s) = ext E (Uart UartCallbackSet) s in
              if ret < 0 then (ret, s) else (0, uart_rx_start E s))"

section \<open>The UART over time\<close>

text \<open>The firmware, the buffers the driver holds (offset and size, the current one first),
  how much of the current one is filled and how much of that has been reported, and every
  byte received so far.\<close>

record uart_sys =
  firmware :: bmc
  bufs :: "(nat \<times> nat) list"
  fill :: nat
  reported :: nat
  stream :: bytes

definition dma_write :: "nat \<Rightarrow> byte \<Rightarrow> bmc \<Rightarrow> bmc" where
  "dma_write i c s = log_update (\<lambda>l. l\<lparr>log_buffer := (log_buffer l)[i := c]\<rparr>) s"

text \<open>Zephyr's asynchronous UART: reception starts in the buffer of \<open>uart_rx_enable\<close>; a
  second buffer is requested while one is in use, and the driver takes the one of
  \<open>uart_rx_buf_rsp\<close>; a received byte is written to the current buffer; what has been written
  is reported before the buffer is left; a full buffer is released, after which the next one
  is in use, or reception is disabled when there is none. Everything else the firmware does
  leaves the log alone.\<close>

inductive rx_step :: "env \<Rightarrow> uart_sys \<Rightarrow> uart_sys \<Rightarrow> bool" for E where
  rx_request: "bufs b = [x] \<Longrightarrow> t = uart_callback E UART_RX_BUF_REQUEST (firmware b) \<Longrightarrow>
    trace t = Uart (UartRxBufRsp off n) # h \<Longrightarrow>
    rx_step E b (b\<lparr>firmware := t, bufs := [x, (off, n)]\<rparr>)"
| rx_byte: "bufs b = (off, n) # rest \<Longrightarrow> fill b < n \<Longrightarrow>
    rx_step E b (b\<lparr>firmware := dma_write (off + fill b) c (firmware b), fill := Suc (fill b),
      stream := stream b @ [c]\<rparr>)"
| rx_ready: "reported b < fill b \<Longrightarrow>
    rx_step E b (b\<lparr>firmware := uart_callback E (UART_RX_RDY (fill b - reported b)) (firmware b),
      reported := fill b\<rparr>)"
| rx_next: "bufs b = (off, n) # y # rest \<Longrightarrow> fill b = n \<Longrightarrow> reported b = n \<Longrightarrow>
    rx_step E b (b\<lparr>firmware := uart_callback E UART_RX_BUF_RELEASED (firmware b),
      bufs := y # rest, fill := 0, reported := 0\<rparr>)"
| rx_restart: "bufs b = [(off, n)] \<Longrightarrow> fill b = n \<Longrightarrow> reported b = n \<Longrightarrow>
    t = uart_callback E UART_RX_DISABLED
      (uart_callback E UART_RX_BUF_RELEASED (firmware b)) \<Longrightarrow>
    trace t = Uart (UartRxEnable off' n' delay) # h \<Longrightarrow>
    rx_step E b (b\<lparr>firmware := t, bufs := [(off', n')], fill := 0, reported := 0\<rparr>)"
| rx_other: "host_log t = host_log (firmware b) \<Longrightarrow> rx_step E b (b\<lparr>firmware := t\<rparr>)"

inductive_cases rx_stepE: "rx_step E b c"

text \<open>From the end of a successful initialisation.\<close>

inductive rx_reach :: "env \<Rightarrow> uart_sys \<Rightarrow> bool" for E where
  rx_init: "CONFIG_APP_CONSOLE_LOGGER E \<Longrightarrow> console_logger_init E s = (0, t) \<Longrightarrow>
    trace t = Uart (UartRxEnable off n delay) # h \<Longrightarrow>
    rx_reach E \<lparr>firmware = t, bufs = [(off, n)], fill = 0, reported = 0, stream = []\<rparr>"
| rx_more: "rx_reach E b \<Longrightarrow> rx_step E b c \<Longrightarrow> rx_reach E c"

section \<open>The invariant of the ring\<close>

text \<open>The position in the stream at which the current buffer begins.\<close>

definition chunk_start :: "uart_sys \<Rightarrow> nat" where
  "chunk_start b = length (stream b) - fill b"

text \<open>The build's sizes: a multiple of the chunk, so that no chunk crosses the end.\<close>

definition log_sizes_ok :: "env \<Rightarrow> bool" where
  "log_sizes_ok E \<longleftrightarrow> 16 \<le> CONFIG_APP_CONSOLE_LOG_SIZE E \<and>
     UART_RX_BUF_SIZE E dvd CONFIG_APP_CONSOLE_LOG_SIZE E"

definition ring_inv :: "env \<Rightarrow> uart_sys \<Rightarrow> bool" where
  "ring_inv E b \<longleftrightarrow>
     (let l = host_log (firmware b); n = CONFIG_APP_CONSOLE_LOG_SIZE E; c = UART_RX_BUF_SIZE E
      in log_size l = n \<and> length (log_buffer l) = n \<and> c dvd chunk_start b \<and>
        reported b \<le> fill b \<and> fill b \<le> c \<and> fill b \<le> length (stream b) \<and>
        (bufs b = [(chunk_start b mod n, c)] \<or>
         bufs b = [(chunk_start b mod n, c), ((chunk_start b + c) mod n, c)]) \<and>
        allocated l = of_nat (chunk_start b + c * length (bufs b)) \<and>
        received l = of_nat (chunk_start b + reported b) \<and>
        (\<forall>p. p < length (stream b) \<longrightarrow> length (stream b) \<le> p + n \<longrightarrow>
           log_buffer l ! (p mod n) = stream b ! p))"

lemma chunk_fits:
  assumes "log_sizes_ok E" and "UART_RX_BUF_SIZE E dvd p"
  shows "p mod CONFIG_APP_CONSOLE_LOG_SIZE E + UART_RX_BUF_SIZE E \<le> CONFIG_APP_CONSOLE_LOG_SIZE E"
proof -
  let ?n = "CONFIG_APP_CONSOLE_LOG_SIZE E" and ?c = "UART_RX_BUF_SIZE E"
  have pos: "0 < ?c"
    using assms(1) by (auto simp: log_sizes_ok_def UART_RX_BUF_SIZE_def div_greater_zero_iff)
  obtain k where k: "?n = ?c * k"
    using assms(1) by (auto simp: log_sizes_ok_def)
  obtain j where j: "p mod ?n = ?c * j"
    using assms by (metis dvdE dvd_mod log_sizes_ok_def)
  have "p mod ?n < ?n"
    using assms(1) by (intro mod_less_divisor) (simp add: log_sizes_ok_def)
  then have "j < k"
    using k j pos by simp
  then have "?c * Suc j \<le> ?c * k"
    by (intro mult_le_mono2) simp
  then show ?thesis
    using j k by simp
qed

lemma uartmuxsel_daemons: "daemons (snd (uartmuxsel_init E s)) = daemons s"
  by (simp add: uartmuxsel_init_def ext_def ext_ignore_eq)

lemma console_logger_init_result:
  assumes "CONFIG_APP_CONSOLE_LOGGER E" and "console_logger_init E s = (0, t)"
  shows "host_log t = \<lparr>allocated = of_nat (UART_RX_BUF_SIZE E), received = 0,
      log_size = CONFIG_APP_CONSOLE_LOG_SIZE E,
      log_buffer = zeros (CONFIG_APP_CONSOLE_LOG_SIZE E)\<rparr> \<and>
    (\<exists>h. trace t = Uart (UartRxEnable 0 (UART_RX_BUF_SIZE E) UART_RX_DELAY_US) # h)"
proof -
  let ?init = "\<lparr>allocated = 0, received = 0, log_size = CONFIG_APP_CONSOLE_LOG_SIZE E,
    log_buffer = zeros (CONFIG_APP_CONSOLE_LOG_SIZE E)\<rparr>"
  have mux: "host_log v = host_log u" if "uartmuxsel_init E u = (rc, v)" for u v rc
    using uartmuxsel_daemons [of E u] that by simp
  have "\<exists>u. t = uart_rx_start E u \<and> host_log u = ?init"
    using assms
    by (auto simp: console_logger_init_def ext_def ext_ignore_eq Let_def dest!: mux
        split: if_splits prod.splits intro!: exI)
  then show ?thesis
    by (auto simp: uart_rx_start_def ext_ignore_eq)
qed

lemma ring_init:
  assumes "log_sizes_ok E" and "CONFIG_APP_CONSOLE_LOGGER E" and "console_logger_init E s = (0, t)"
    and "trace t = Uart (UartRxEnable off n delay) # h"
  shows "ring_inv E \<lparr>firmware = t, bufs = [(off, n)], fill = 0, reported = 0, stream = []\<rparr>"
  using console_logger_init_result [OF assms(2,3)] assms(4)
  by (auto simp: ring_inv_def Let_def chunk_start_def)

text \<open>The positions are numbers below the wrap.\<close>

lemma ring_positions:
  assumes "ring_inv E b" and "log_sizes_ok E"
    and "length (stream b) + CONFIG_APP_CONSOLE_LOG_SIZE E < 2 ^ 64"
  shows "unat (allocated (host_log (firmware b))) = chunk_start b + UART_RX_BUF_SIZE E * length (bufs b)"
    and "unat (received (host_log (firmware b))) = chunk_start b + reported b"
    and "length (bufs b) \<le> 2" and "length (stream b) = chunk_start b + fill b"
    and "chunk_start b + UART_RX_BUF_SIZE E * length (bufs b) < 2 ^ 64"
    and "2 * UART_RX_BUF_SIZE E \<le> CONFIG_APP_CONSOLE_LOG_SIZE E"
proof -
  show two: "length (bufs b) \<le> 2" and len: "length (stream b) = chunk_start b + fill b"
    using assms(1) by (auto simp: ring_inv_def Let_def chunk_start_def)
  show half: "2 * UART_RX_BUF_SIZE E \<le> CONFIG_APP_CONSOLE_LOG_SIZE E"
    by (simp add: UART_RX_BUF_SIZE_def)
  have "UART_RX_BUF_SIZE E * length (bufs b) \<le> UART_RX_BUF_SIZE E * 2"
    using two by (rule mult_le_mono2)
  then show small: "chunk_start b + UART_RX_BUF_SIZE E * length (bufs b) < 2 ^ 64"
    using half assms(3) len by linarith
  then show "unat (allocated (host_log (firmware b))) = chunk_start b + UART_RX_BUF_SIZE E * length (bufs b)"
    using assms(1) by (simp add: ring_inv_def Let_def unat_of_nat del: of_nat_add of_nat_mult)
  have "reported b \<le> fill b"
    using assms(1) by (simp add: ring_inv_def Let_def)
  then have "chunk_start b + reported b < 2 ^ 64"
    using assms(3) len by linarith
  then show "unat (received (host_log (firmware b))) = chunk_start b + reported b"
    using assms(1) by (simp add: ring_inv_def Let_def unat_of_nat del: of_nat_add of_nat_mult)
qed

lemma mod_distinct: "p < w \<Longrightarrow> w < p + n \<Longrightarrow> p mod n \<noteq> w mod (n::nat)"
  by (metis add_diff_cancel_left' less_diff_conv2 less_imp_le_nat mod_eq_dvd_iff_nat
      nat_dvd_not_less zero_less_diff add.commute)

lemma ring_request:
  assumes "ring_inv E b" and "log_sizes_ok E"
    and "length (stream b) + CONFIG_APP_CONSOLE_LOG_SIZE E < 2 ^ 64"
    and "bufs b = [x]" and "t = uart_callback E UART_RX_BUF_REQUEST (firmware b)"
    and "trace t = Uart (UartRxBufRsp off n) # h"
  shows "ring_inv E (b\<lparr>firmware := t, bufs := [x, (off, n)]\<rparr>)"
  using assms(1,4-) ring_positions(1) [OF assms(1-3)]
  by (auto simp: ring_inv_def Let_def chunk_start_def uart_rx_allocate_def ext_ignore_eq)

lemma ring_byte:
  assumes "ring_inv E b" and "log_sizes_ok E"
    and "bufs b = (off, n) # rest" and "fill b < n"
  shows "ring_inv E (b\<lparr>firmware := dma_write (off + fill b) c (firmware b), fill := Suc (fill b),
      stream := stream b @ [c]\<rparr>)"
proof -
  let ?n = "CONFIG_APP_CONSOLE_LOG_SIZE E"
  have n: "n = UART_RX_BUF_SIZE E" and off: "off = chunk_start b mod ?n"
    and len: "length (stream b) = chunk_start b + fill b" and dvd: "UART_RX_BUF_SIZE E dvd chunk_start b"
    using assms(1,3) by (auto simp: ring_inv_def Let_def chunk_start_def)
  have start: "chunk_start (b\<lparr>firmware := t, fill := Suc (fill b), stream := stream b @ [c]\<rparr>) =
      chunk_start b" for t
    by (simp add: chunk_start_def)
  have fits: "off + fill b < ?n"
    using chunk_fits [OF assms(2) dvd] assms(4) n off by simp
  then have pos: "length (stream b) mod ?n = off + fill b"
    unfolding off len by (metis mod_add_left_eq mod_less)
  have content: "(log_buffer (host_log (firmware b)))[off + fill b := c] ! (p mod ?n) =
      (stream b @ [c]) ! p" if "p < Suc (length (stream b))" and "Suc (length (stream b)) \<le> p + ?n" for p
  proof (cases "p = length (stream b)")
    case True
    then show ?thesis
      using fits pos assms(1) by (simp add: ring_inv_def Let_def)
  next
    case False
    then have "p < length (stream b)" and "p mod ?n \<noteq> off + fill b"
      using that mod_distinct [of p "length (stream b)" ?n] pos by auto
    then show ?thesis
      using that assms(1) by (simp add: ring_inv_def Let_def nth_append)
  qed
  show ?thesis
    using assms(1,3,4) content n
    unfolding ring_inv_def Let_def start dma_write_def by auto
qed

lemma ring_ready:
  assumes "ring_inv E b" and "reported b < fill b"
  shows "ring_inv E (b\<lparr>firmware := uart_callback E (UART_RX_RDY (fill b - reported b)) (firmware b),
      reported := fill b\<rparr>)"
  using assms
  by (auto simp: ring_inv_def Let_def chunk_start_def uart_rx_ready_def ext_ignore_eq of_nat_diff)

lemma ring_next:
  assumes "ring_inv E b" and "bufs b = (off, n) # y # rest" and "fill b = n" and "reported b = n"
  shows "ring_inv E (b\<lparr>firmware := uart_callback E UART_RX_BUF_RELEASED (firmware b),
      bufs := y # rest, fill := 0, reported := 0\<rparr>)"
  using assms by (auto simp: ring_inv_def Let_def chunk_start_def dest: dvd_diffD)

lemma ring_restart:
  assumes "ring_inv E b" and "log_sizes_ok E"
    and "length (stream b) + CONFIG_APP_CONSOLE_LOG_SIZE E < 2 ^ 64"
    and "bufs b = [(off, n)]" and "fill b = n" and "reported b = n"
    and "t = uart_callback E UART_RX_DISABLED (uart_callback E UART_RX_BUF_RELEASED (firmware b))"
    and "trace t = Uart (UartRxEnable off' n' delay) # h"
  shows "ring_inv E (b\<lparr>firmware := t, bufs := [(off', n')], fill := 0, reported := 0\<rparr>)"
  using assms(1,4-) ring_positions(1) [OF assms(1-3)]
  by (auto simp: ring_inv_def Let_def chunk_start_def uart_rx_start_def ext_ignore_eq
      dest: dvd_diffD)

lemma ring_other:
  "ring_inv E b \<Longrightarrow> host_log t = host_log (firmware b) \<Longrightarrow> ring_inv E (b\<lparr>firmware := t\<rparr>)"
  unfolding ring_inv_def chunk_start_def by simp

lemma stream_grows: "rx_step E b c \<Longrightarrow> length (stream b) \<le> length (stream c)"
  by (erule rx_stepE) auto

lemma ring_reach:
  assumes "rx_reach E b" and "log_sizes_ok E"
    and "length (stream b) + CONFIG_APP_CONSOLE_LOG_SIZE E < 2 ^ 64"
  shows "ring_inv E b"
  using assms(1,3)
proof (induction rule: rx_reach.induct)
  case (rx_init s t off n delay h)
  then show ?case
    using ring_init [OF assms(2)] by blast
next
  case (rx_more b c)
  then have inv: "ring_inv E b" and bound: "length (stream b) + CONFIG_APP_CONSOLE_LOG_SIZE E < 2 ^ 64"
    using stream_grows [of E b c] by simp_all
  note ring = ring_request [OF inv assms(2) bound] ring_byte [OF inv assms(2)] ring_ready [OF inv]
    ring_next [OF inv] ring_restart [OF inv assms(2) bound] ring_other [OF inv]
  from rx_more.hyps(2) show ?case
    by (cases rule: rx_step.cases) (auto simp del: uart_callback.simps intro: ring)
qed

section \<open>What a reader gets\<close>

lemma unat_shift: "unat pos = p \<Longrightarrow> p + d < 2 ^ 64 \<Longrightarrow> unat (pos + of_nat d) = p + d"
  for pos :: "64 word"
proof -
  assume "unat pos = p" and "p + d < 2 ^ 64"
  moreover from this have "pos + of_nat d = of_nat (p + d)"
    by auto
  ultimately show ?thesis
    by (simp add: unat_of_nat del: of_nat_add)
qed

text \<open>A piece of the log that does not wrap is a piece of the stream.\<close>

lemma ring_piece:
  assumes "\<forall>q. p \<le> q \<longrightarrow> q < r \<longrightarrow> buf ! (q mod n) = st ! q" and "r \<le> length st"
    and "p + k \<le> r" and "p mod n + k \<le> n" and "length buf = n"
  shows "take k (drop (p mod n) buf) = take k (drop p st)"
proof (rule nth_equalityI)
  show "length (take k (drop (p mod n) buf)) = length (take k (drop p st))"
    using assms(2-5) by simp
  fix i
  assume "i < length (take k (drop (p mod n) buf))"
  then have i: "i < k"
    by simp
  then have "(p + i) mod n = p mod n + i"
    using assms(4) by (metis add_less_cancel_left mod_add_left_eq mod_less order.strict_trans2)
  moreover have "buf ! ((p + i) mod n) = st ! (p + i)"
    using assms(1,3) i by simp
  ultimately show "take k (drop (p mod n) buf) ! i = take k (drop p st) ! i"
    using i assms(2-5) by (simp add: nth_drop)
qed

lemma advance_within: "p + d \<le> unat r \<Longrightarrow> unat (pos + of_nat d) = p + d" if "unat pos = p"
  for pos r :: "64 word"
  using unat_shift [OF that, of d] unsigned_less [of r, where ?'a = nat] by simp

text \<open>Two reads in a row are one longer read.\<close>

lemma read_pieces:
  assumes "copied + d \<le> m" and "p + d \<le> r"
  shows "(let k = min (m - (copied + d)) (r - (p + d))
      in (copied + d + k, (out @ take d (drop p st)) @ take k (drop (p + d) st), of_nat (p + d + k))) =
    (let k = min (m - copied) (r - p) in (copied + k, out @ take k (drop p st), of_nat (p + k)))"
proof -
  have "min (m - copied) (r - p) = d + min (m - (copied + d)) (r - (p + d))"
    using assms by simp
  then show ?thesis
    by (simp add: Let_def take_add add.assoc add.commute [of d p] add.left_commute [of d p]
        add.commute [of "of_nat d :: 64 word"])
qed

lemma read_loop_ring:
  assumes "log_size log = n" and "length (log_buffer log) = n" and "0 < n"
    and "\<forall>q. p \<le> q \<longrightarrow> q < unat (received log) \<longrightarrow> log_buffer log ! (q mod n) = st ! q"
    and "unat (received log) \<le> length st" and "p \<le> unat (received log)" and "unat pos = p"
  shows "read_loop log m pos copied out =
    (let k = min (m - copied) (unat (received log) - p)
     in (copied + k, out @ take k (drop p st), of_nat (p + k)))"
  using assms(4-)
proof (induction "m - copied" arbitrary: copied pos p out rule: less_induct)
  case less
  let ?r = "unat (received log)"
  let ?len = "min (min (?r - p) (n - p mod n)) (m - copied)"
  have sub: "unat (received log - pos) = ?r - p"
    using less.prems(3,4) by (simp add: unat_sub word_le_nat_alt)
  have room: "p mod n < n"
    using assms(3) by simp
  show ?case
  proof (cases "copied < m \<and> ?len \<noteq> 0")
    case False
    then have "min (m - copied) (?r - p) = 0"
      using room by auto
    moreover have "read_loop log m pos copied out = (copied, out, pos)"
      using False by (subst read_loop.simps) (auto simp: Let_def sub assms(1) less.prems(4))
    ultimately show ?thesis
      using less.prems(4) by auto
  next
    case True
    have piece: "take ?len (drop (p mod n) (log_buffer log)) = take ?len (drop p st)"
      by (rule ring_piece [OF less.prems(1,2)]) (use less.prems(3) room assms(2) in auto)
    have next_pos: "unat (pos + of_nat ?len) = p + ?len"
      by (rule advance_within [OF less.prems(4), of _ "received log"]) (use less.prems(3) in auto)
    have step: "read_loop log m pos copied out =
        read_loop log m (pos + of_nat ?len) (copied + ?len) (out @ take ?len (drop p st))"
      using True by (subst read_loop.simps)
        (simp only: Let_def sub assms(1) less.prems(4) piece simp_thms if_True if_False)
    define d where "d = ?len"
    have d: "0 < d" "copied < m" "copied + d \<le> m" "p + d \<le> ?r"
      using True less.prems(3) by (auto simp: d_def)
    have rest: "read_loop log m (pos + of_nat d) (copied + d) (out @ take d (drop p st)) =
        (let k = min (m - (copied + d)) (?r - (p + d))
         in (copied + d + k, (out @ take d (drop p st)) @ take k (drop (p + d) st),
             of_nat (p + d + k)))"
    proof (rule less.hyps)
      show "m - (copied + d) < m - copied"
        using d(1,2) by simp
      show "\<forall>q. p + d \<le> q \<longrightarrow> q < ?r \<longrightarrow> log_buffer log ! (q mod n) = st ! q"
        using less.prems(1) by simp
    qed (use less.prems(2) d(4) next_pos in \<open>simp_all only: d_def\<close>)
    show ?thesis
      unfolding step d_def [symmetric] rest by (rule read_pieces [OF d(3,4)])
  qed
qed

text \<open>While the log has not been filled once, it is the array.\<close>

lemma read_unwrapped:
  assumes "length (log_buffer (host_log s)) = log_size (host_log s)"
    and "unat (received (host_log s)) < log_size (host_log s)" and "pos \<le> received (host_log s)"
  shows "host_console_read m pos s =
    (let k = min m (unat (received (host_log s)) - unat pos)
     in (int k, take k (drop (unat pos) (log_buffer (host_log s))), of_nat (unat pos + k)))"
proof -
  have "unat pos \<le> unat (received (host_log s))"
    using assms(3) by (simp add: word_le_nat_alt)
  then have "read_loop (host_log s) m pos 0 [] =
      (let k = min (m - 0) (unat (received (host_log s)) - unat pos)
       in (0 + k, [] @ take k (drop (unat pos) (log_buffer (host_log s))), of_nat (unat pos + k)))"
    using assms by (intro read_loop_ring [OF refl]) auto
  then show ?thesis
    using assms(2,3) by (simp add: host_console_read_def console_log_read_def Let_def)
qed

text \<open>The bytes the driver has reported.\<close>

definition reported_stream :: "uart_sys \<Rightarrow> bytes" where
  "reported_stream b = take (chunk_start b + reported b) (stream b)"

text \<open>The oldest position a reader can have: nothing newer has been overwritten, and at most
  an eighth of the log is out of reach.\<close>

definition oldest :: "env \<Rightarrow> uart_sys \<Rightarrow> nat" where
  "oldest E b =
     (if chunk_start b + reported b < CONFIG_APP_CONSOLE_LOG_SIZE E then 0
      else chunk_start b + UART_RX_BUF_SIZE E * length (bufs b) - CONFIG_APP_CONSOLE_LOG_SIZE E)"

lemma oldest_bounds:
  assumes "ring_inv E b" and "log_sizes_ok E"
    and "length (stream b) + CONFIG_APP_CONSOLE_LOG_SIZE E < 2 ^ 64"
  shows "length (stream b) \<le> oldest E b + CONFIG_APP_CONSOLE_LOG_SIZE E"
    and "oldest E b \<le> chunk_start b + reported b"
    and "oldest E b = 0 \<or> oldest E b + CONFIG_APP_CONSOLE_LOG_SIZE E \<le>
      chunk_start b + reported b + 2 * UART_RX_BUF_SIZE E"
proof -
  let ?n = "CONFIG_APP_CONSOLE_LOG_SIZE E" and ?c = "UART_RX_BUF_SIZE E"
  let ?a = "chunk_start b + ?c * length (bufs b)"
  note pos = ring_positions [OF assms]
  have l: "reported b \<le> fill b" "fill b \<le> ?c" "?c dvd chunk_start b" "length (bufs b) \<ge> 1"
    using assms(1) by (auto simp: ring_inv_def Let_def)
  have chunks: "?c \<le> ?c * length (bufs b)" "?c * length (bufs b) \<le> 2 * ?c"
    using l(4) pos(3) by (simp_all add: mult.commute)
  have filled: "chunk_start b + fill b \<le> ?a"
    using l(2) chunks(1) by linarith
  show "length (stream b) \<le> oldest E b + ?n"
  proof (cases "chunk_start b + reported b < ?n")
    case True
    then have "chunk_start b + ?c \<le> ?n"
      using chunk_fits [OF assms(2) l(3)] by simp
    then show ?thesis
      using True pos(4) l(2) by (simp add: oldest_def)
  next
    case False
    then show ?thesis
      using pos(4) filled by (simp add: oldest_def)
  qed
  have eq: "oldest E b = 0 \<or> oldest E b + ?n = ?a \<or> oldest E b = 0 \<and> ?a < ?n"
    by (auto simp: oldest_def)
  show "oldest E b \<le> chunk_start b + reported b"
    using eq chunks(2) pos(6) by linarith
  show "oldest E b = 0 \<or> oldest E b + ?n \<le> chunk_start b + reported b + 2 * ?c"
    using eq chunks(2) by linarith
qed

text \<open>The code's computation of it on wrapping integers.\<close>

lemma oldest_word:
  assumes "ring_inv E b" and "log_sizes_ok E"
    and "length (stream b) + CONFIG_APP_CONSOLE_LOG_SIZE E < 2 ^ 64"
  shows "unat (if unat (received (host_log (firmware b))) < log_size (host_log (firmware b)) then 0
      else allocated (host_log (firmware b)) - of_nat (log_size (host_log (firmware b)))) = oldest E b"
proof (cases "chunk_start b + reported b < CONFIG_APP_CONSOLE_LOG_SIZE E")
  case True
  then show ?thesis
    using assms(1) ring_positions(2) [OF assms] by (simp add: oldest_def ring_inv_def Let_def)
next
  case False
  have l: "log_size (host_log (firmware b)) = CONFIG_APP_CONSOLE_LOG_SIZE E" "reported b \<le> fill b"
    "fill b \<le> UART_RX_BUF_SIZE E * length (bufs b)"
    using assms(1) by (auto simp: ring_inv_def Let_def)
  then have "CONFIG_APP_CONSOLE_LOG_SIZE E \<le> chunk_start b + UART_RX_BUF_SIZE E * length (bufs b)"
    using False by linarith
  moreover have "unat (of_nat (CONFIG_APP_CONSOLE_LOG_SIZE E) :: 64 word) = CONFIG_APP_CONSOLE_LOG_SIZE E"
    using assms(3) by (simp add: unat_of_nat)
  ultimately show ?thesis
    using False ring_positions(1,2) [OF assms] l(1)
    by (simp add: oldest_def unat_sub word_le_nat_alt)
qed

lemma ring_read:
  assumes "ring_inv E b" and "log_sizes_ok E"
    and "length (stream b) + CONFIG_APP_CONSOLE_LOG_SIZE E < 2 ^ 64"
    and "unat pos \<le> length (reported_stream b)"
  shows "\<exists>start out.
    host_console_read m pos (firmware b) = (int (length out), out, of_nat (start + length out)) \<and>
    out = take m (drop start (reported_stream b)) \<and>
    unat pos \<le> start \<and> start \<le> length (reported_stream b) \<and>
    (start = unat pos \<or> start + CONFIG_APP_CONSOLE_LOG_SIZE E \<le>
       length (reported_stream b) + 2 * UART_RX_BUF_SIZE E)"
proof -
  let ?l = "host_log (firmware b)" and ?r = "chunk_start b + reported b"
  let ?start = "max (unat pos) (oldest E b)"
  note rpos = ring_positions [OF assms(1-3)] and old = oldest_bounds [OF assms(1-3)]
  have l: "log_size ?l = CONFIG_APP_CONSOLE_LOG_SIZE E" "length (log_buffer ?l) = CONFIG_APP_CONSOLE_LOG_SIZE E"
      "reported b \<le> fill b" "0 < CONFIG_APP_CONSOLE_LOG_SIZE E"
    and content: "\<And>p. p < length (stream b) \<Longrightarrow> length (stream b) \<le> p + CONFIG_APP_CONSOLE_LOG_SIZE E \<Longrightarrow>
       log_buffer ?l ! (p mod CONFIG_APP_CONSOLE_LOG_SIZE E) = stream b ! p"
    using assms(1,2) by (auto simp: ring_inv_def Let_def log_sizes_ok_def)
  have r: "length (reported_stream b) = ?r" "?r \<le> length (stream b)"
    using rpos(4) l(3) by (simp_all add: reported_stream_def)
  have start: "?start \<le> ?r" "length (stream b) \<le> ?start + CONFIG_APP_CONSOLE_LOG_SIZE E"
    using old(1,2) assms(4) r(1) by auto
  define w where "w = (if unat (received ?l) < log_size ?l then 0 else allocated ?l - of_nat (log_size ?l))"
  have uw: "unat (if pos < w then w else pos) = ?start"
    using oldest_word [OF assms(1-3)] by (auto simp: w_def [symmetric] word_less_nat_alt)
  have "read_loop ?l m (if pos < w then w else pos) 0 [] =
      (let k = min (m - 0) (unat (received ?l) - ?start)
       in (0 + k, [] @ take k (drop ?start (stream b)), of_nat (?start + k)))"
    using start r(2) content uw
    by (intro read_loop_ring [OF l(1,2,4)]) (auto simp: rpos(2))
  moreover have "take (min m (?r - ?start)) (drop ?start (stream b)) =
      take m (drop ?start (reported_stream b))"
    by (simp add: reported_stream_def drop_take)
  moreover have "\<not> received ?l < pos"
    using assms(4) r(1) rpos(2) by (simp add: word_less_nat_alt)
  ultimately have "host_console_read m pos (firmware b) =
      (int (length (take m (drop ?start (reported_stream b)))),
       take m (drop ?start (reported_stream b)),
       of_nat (?start + length (take m (drop ?start (reported_stream b)))))"
    unfolding host_console_read_def console_log_read_def Let_def w_def [symmetric]
    by (simp add: rpos(2) r(1) min.commute)
  then show ?thesis
    using start(1) old(3) r(1) by (intro exI [of _ ?start]) auto
qed

text \<open>C4: A reader follows the host's output exactly. Whatever the UART receives and however
  its events fall, \<open>host_console_read\<close> at any position it has reached returns the next bytes
  the host sent, in order and unaltered, and the position after them; it can only skip bytes
  that are older than seven eighths of the log, and it returns nothing only when it has
  caught up. This needs a log size that the chunk size divides.\<close>

theorem console_read_exact:
  assumes "rx_reach E b" and "log_sizes_ok E"
    and "length (stream b) + CONFIG_APP_CONSOLE_LOG_SIZE E < 2 ^ 64"
    and "unat pos \<le> length (reported_stream b)"
  shows "\<exists>start out.
    host_console_read m pos (firmware b) = (int (length out), out, of_nat (start + length out)) \<and>
    out = take m (drop start (reported_stream b)) \<and>
    unat pos \<le> start \<and> start \<le> length (reported_stream b) \<and>
    (start = unat pos \<or> start + CONFIG_APP_CONSOLE_LOG_SIZE E \<le>
       length (reported_stream b) + 2 * UART_RX_BUF_SIZE E)"
  by (rule ring_read [OF ring_reach [OF assms(1-3)] assms(2-4)])

text \<open>A host that has sent one byte.\<close>

definition one_byte :: uart_sys where
  "one_byte =
     \<lparr>firmware = uart_callback ideal_env (UART_RX_RDY 1)
        (dma_write 0 (CHR ''A'') (snd (console_logger_init ideal_env (reset_state [])))),
      bufs = [(0, 128)], fill = 1, reported = 1, stream = ''A''\<rparr>"

lemma one_byte_reach: "rx_reach ideal_env one_byte"
proof -
  let ?t = "snd (console_logger_init ideal_env (reset_state []))"
  let ?b = "\<lparr>firmware = ?t, bufs = [(0, 128)], fill = 0, reported = 0, stream = []\<rparr>"
  let ?c = "?b\<lparr>firmware := dma_write (0 + fill ?b) (CHR ''A'') (firmware ?b), fill := Suc (fill ?b),
      stream := stream ?b @ ''A''\<rparr>"
  have ok: "console_logger_init ideal_env (reset_state []) = (0, ?t)"
    by (simp add: console_logger_init_def ext_def ext_ignore_eq Let_def ideal_env_def ideal_ret_def)
  have "UART_RX_BUF_SIZE ideal_env = 128" and on: "CONFIG_APP_CONSOLE_LOGGER ideal_env"
    by (simp_all add: UART_RX_BUF_SIZE_def ideal_env_def)
  then obtain h where "trace ?t = Uart (UartRxEnable 0 128 UART_RX_DELAY_US) # h"
    using console_logger_init_result [OF on ok] by auto
  then have "rx_reach ideal_env ?b"
    by (rule rx_init [OF on ok])
  moreover have "rx_step ideal_env ?b ?c"
    by (rule rx_byte [where off = 0 and n = 128 and rest = "[]"]) simp_all
  moreover have "rx_step ideal_env ?c (?c\<lparr>firmware := uart_callback ideal_env
      (UART_RX_RDY (fill ?c - reported ?c)) (firmware ?c), reported := fill ?c\<rparr>)"
    by (rule rx_ready) simp
  ultimately have "rx_reach ideal_env (?c\<lparr>firmware := uart_callback ideal_env
      (UART_RX_RDY (fill ?c - reported ?c)) (firmware ?c), reported := fill ?c\<rparr>)"
    by (blast intro: rx_more)
  then show ?thesis
    by (simp add: one_byte_def)
qed

lemma console_read_exact_witness:
  "host_console_read 64 0 (firmware one_byte) = (1, ''A'', 1)"
proof -
  have sizes: "CONFIG_APP_CONSOLE_LOG_SIZE ideal_env = 2048" "log_sizes_ok ideal_env"
    "UART_RX_BUF_SIZE ideal_env = 128"
    by (simp_all add: ideal_env_def log_sizes_ok_def UART_RX_BUF_SIZE_def)
  have rep: "reported_stream one_byte = ''A''" "stream one_byte = ''A''"
    by (simp_all add: one_byte_def reported_stream_def chunk_start_def)
  show ?thesis
    using console_read_exact [OF one_byte_reach sizes(2), of 0 64] by (auto simp: sizes rep)
qed

section \<open>The DMA's chunks\<close>

text \<open>C34: The UART is only given memory of the log exactly when the chunk size divides the log
  size. With any other size that Kconfig accepts, the sequence of chunks reaches one that
  crosses the end of the array, and the DMA writes past it.\<close>

theorem dma_inside_iff:
  assumes "16 \<le> CONFIG_APP_CONSOLE_LOG_SIZE E" and "CONFIG_APP_CONSOLE_LOG_SIZE E \<le> 65536"
  shows "(\<forall>s k. log_size (host_log s) = CONFIG_APP_CONSOLE_LOG_SIZE E \<longrightarrow>
       k * UART_RX_BUF_SIZE E < 2 ^ 64 \<longrightarrow>
       allocated (host_log s) = of_nat (k * UART_RX_BUF_SIZE E) \<longrightarrow>
       (\<exists>off. trace (uart_callback E UART_RX_BUF_REQUEST s) =
          Uart (UartRxBufRsp off (UART_RX_BUF_SIZE E)) # trace s \<and>
        off + UART_RX_BUF_SIZE E \<le> CONFIG_APP_CONSOLE_LOG_SIZE E)) \<longleftrightarrow>
     UART_RX_BUF_SIZE E dvd CONFIG_APP_CONSOLE_LOG_SIZE E"
    (is "?inside \<longleftrightarrow> ?c dvd ?n")
proof
  assume "?c dvd ?n"
  then have "log_sizes_ok E"
    using assms(1) by (simp add: log_sizes_ok_def)
  then show ?inside
    by (auto simp: uart_rx_allocate_def ext_ignore_eq unat_of_nat chunk_fits
        simp del: of_nat_mult)
next
  assume inside: ?inside
  let ?k = "?n div ?c"
  let ?s = "log_update (\<lambda>l. l\<lparr>log_size := ?n, allocated := of_nat (?k * ?c)\<rparr>) (reset_state [])"
  have le: "?k * ?c \<le> ?n"
    by simp
  then have "?k * ?c \<le> 65536"
    using assms(2) by (rule order_trans)
  then have "?k * ?c < 2 ^ 64"
    by (rule order.strict_trans1) simp
  with inside have "?k * ?c mod ?n + ?c \<le> ?n"
    by (elim allE [of _ ?s] allE [of _ ?k])
      (simp add: uart_rx_allocate_def ext_ignore_eq unat_of_nat del: of_nat_mult)
  moreover have "?n < ?k * ?c + ?c"
    using dividend_less_div_times [of ?c ?n] assms(1)
    by (simp add: UART_RX_BUF_SIZE_def div_greater_zero_iff add.commute)
  ultimately have "\<not> ?k * ?c < ?n"
    by auto
  then have "?k * ?c = ?n"
    using le by simp
  then show "?c dvd ?n"
    by (metis dvd_triv_right)
qed

text \<open>The default size is sound, and 100 is not.\<close>

lemma dma_inside_iff_witness:
  "\<exists>s off. log_size (host_log s) = 100 \<and>
     trace (uart_callback (ideal_env\<lparr>CONFIG_APP_CONSOLE_LOG_SIZE := 100\<rparr>) UART_RX_BUF_REQUEST s) =
       Uart (UartRxBufRsp off 6) # trace s \<and> 100 < off + 6"
proof -
  let ?E = "ideal_env\<lparr>CONFIG_APP_CONSOLE_LOG_SIZE := 100\<rparr>"
  have c: "UART_RX_BUF_SIZE ?E = 6"
    by (simp add: UART_RX_BUF_SIZE_def)
  then obtain s where "log_size (host_log s) = 100"
    and "\<not> (\<exists>off. trace (uart_callback ?E UART_RX_BUF_REQUEST s) =
          Uart (UartRxBufRsp off 6) # trace s \<and> off + 6 \<le> 100)"
    using dma_inside_iff [of ?E] by auto
  moreover have "\<exists>off. trace (uart_callback ?E UART_RX_BUF_REQUEST s) = Uart (UartRxBufRsp off 6) # trace s"
    by (simp add: uart_rx_allocate_def ext_ignore_eq c)
  ultimately show ?thesis
    by (meson not_le)
qed

section \<open>What the host gets\<close>

text \<open>The pieces in which a buffer is sent, and the calls that send them (latest first).\<close>

function chunks :: "bytes \<Rightarrow> bytes list" where
  "chunks buf = (if buf = [] then [] else take UART_TX_BUF_SIZE buf # chunks (drop UART_TX_BUF_SIZE buf))"
  by pat_completeness auto
termination
  by (relation "measure length") (auto simp: UART_TX_BUF_SIZE_def)

declare chunks.simps [simp del]

lemma concat_chunks: "concat (chunks buf) = buf"
  by (induction buf rule: chunks.induct) (subst chunks.simps, simp)

lemma chunks_length: "c \<in> set (chunks buf) \<Longrightarrow> 0 < length c \<and> length c \<le> UART_TX_BUF_SIZE"
proof (induction buf rule: chunks.induct)
  case (1 buf)
  then show ?case
    by (subst (asm) (2) chunks.simps) (auto simp: UART_TX_BUF_SIZE_def split: if_splits)
qed

definition send_calls :: "bytes list \<Rightarrow> call list" where
  "send_calls cs = rev (concat (map (\<lambda>c. [Uart TxSemTake, Uart (UartTx c)]) cs))"

lemma send_calls_simps:
  "send_calls [] = []" "send_calls (c # cs) = send_calls cs @ [Uart (UartTx c), Uart TxSemTake]"
  by (simp_all add: send_calls_def)

text \<open>The result of sending the pieces: the number of bytes handed over (or the error of the
  first piece), and the calls.\<close>

fun send_pieces :: "env \<Rightarrow> bytes list \<Rightarrow> nat \<Rightarrow> call list \<Rightarrow> int \<times> call list" where
  "send_pieces E [] done h = (int done, h)"
| "send_pieces E (c # cs) done h =
     (let rc = zret E (Uart TxSemTake # h) (Uart (UartTx c)) in
      if rc < 0
      then (if done = 0 then rc else int done, Uart TxSemGive # Uart (UartTx c) # Uart TxSemTake # h)
      else send_pieces E cs (done + length c) (Uart (UartTx c) # Uart TxSemTake # h))"

lemma write_loop_pieces:
  "copied \<le> length buf \<Longrightarrow> write_loop E buf copied s =
     (let (rc, h) = send_pieces E (chunks (drop copied buf)) copied (trace s) in (rc, s\<lparr>trace := h\<rparr>))"
proof (induction "length buf - copied" arbitrary: copied s rule: less_induct)
  case less
  show ?case
  proof (cases "copied < length buf")
    case True
    let ?len = "min (length buf - copied) UART_TX_BUF_SIZE"
    let ?t = "s\<lparr>trace := Uart (UartTx (take ?len (drop copied buf))) # Uart TxSemTake # trace s\<rparr>"
    have len: "take ?len (drop copied buf) = take UART_TX_BUF_SIZE (drop copied buf)"
      "length (take ?len (drop copied buf)) = ?len"
      by (simp_all add: min_def)
    have "chunks (drop copied buf) =
        take ?len (drop copied buf) # chunks (drop (copied + ?len) buf)"
      using True by (subst chunks.simps) (auto simp: min_def add.commute intro!: arg_cong [where f = chunks])
    moreover have "write_loop E buf (copied + ?len) ?t =
        (let (rc, h) = send_pieces E (chunks (drop (copied + ?len) buf)) (copied + ?len) (trace ?t)
         in (rc, ?t\<lparr>trace := h\<rparr>))"
      using True by (intro less.hyps) (auto simp: UART_TX_BUF_SIZE_def)
    ultimately show ?thesis
      using True len(2) by (subst write_loop.simps) (simp add: Let_def ext_def ext_ignore_eq)
  next
    case False
    then have "copied = length buf"
      using less.prems by simp
    then show ?thesis
      by (simp add: write_loop.simps [of E buf] chunks.simps [of "[]"])
  qed
qed

text \<open>The answer of the UART to the piece number \<open>i\<close> when those before it were accepted.\<close>

definition uart_answer :: "env \<Rightarrow> bytes list \<Rightarrow> call list \<Rightarrow> nat \<Rightarrow> int" where
  "uart_answer E cs h i = zret E (Uart TxSemTake # send_calls (take i cs) @ h) (Uart (UartTx (cs ! i)))"

definition first_refused :: "env \<Rightarrow> bytes list \<Rightarrow> call list \<Rightarrow> nat \<Rightarrow> bool" where
  "first_refused E cs h k \<longleftrightarrow> k \<le> length cs \<and> (\<forall>i<k. 0 \<le> uart_answer E cs h i) \<and>
     (k = length cs \<or> uart_answer E cs h k < 0)"

lemma uart_answer_Cons:
  "uart_answer E (c # cs) h (Suc i) = uart_answer E cs (Uart (UartTx c) # Uart TxSemTake # h) i"
  "uart_answer E (c # cs) h 0 = zret E (Uart TxSemTake # h) (Uart (UartTx c))"
  by (simp_all add: uart_answer_def send_calls_simps)

lemma send_pieces_result:
  "\<exists>k. first_refused E cs h k \<and>
     send_pieces E cs done h =
       (if k < length cs \<and> done + length (concat (take k cs)) = 0 then uart_answer E cs h k
        else int (done + length (concat (take k cs))),
        (if k < length cs then [Uart TxSemGive] else []) @ send_calls (take (Suc k) cs) @ h)"
proof (induction cs arbitrary: "done" h)
  case Nil
  show ?case
    by (simp add: first_refused_def send_calls_simps)
next
  case (Cons c cs)
  show ?case
  proof (cases "zret E (Uart TxSemTake # h) (Uart (UartTx c)) < 0")
    case True
    then show ?thesis
      by (intro exI [of _ 0]) (simp add: first_refused_def uart_answer_Cons send_calls_simps)
  next
    case False
    let ?h = "Uart (UartTx c) # Uart TxSemTake # h"
    obtain k where k: "first_refused E cs ?h k" and r: "send_pieces E cs (done + length c) ?h =
       (if k < length cs \<and> done + length c + length (concat (take k cs)) = 0
        then uart_answer E cs ?h k else int (done + length c + length (concat (take k cs))),
        (if k < length cs then [Uart TxSemGive] else []) @ send_calls (take (Suc k) cs) @ ?h)"
      using Cons.IH by blast
    have "first_refused E (c # cs) h (Suc k)"
      using k False by (auto simp: first_refused_def uart_answer_Cons less_Suc_eq_0_disj)
    moreover have "send_pieces E (c # cs) done h = send_pieces E cs (done + length c) ?h"
      using False by simp
    ultimately show ?thesis
      unfolding r by (intro exI [of _ "Suc k"]) (simp add: uart_answer_Cons send_calls_simps add.assoc)
  qed
qed

text \<open>C33: Writing to the host's console. The buffer is cut into pieces of at most 32 bytes,
  which are handed to the UART in order, each after the transfer buffer has been waited for;
  the first piece the UART refuses ends the write and gives the transfer buffer back. The
  result is the number of bytes handed over, or the UART's error when there are none; all of
  the buffer is sent when no piece is refused. Never is a byte lost, repeated or moved.\<close>

theorem host_write_exact:
  "concat (chunks buf) = buf \<and>
   list_all (\<lambda>c. 0 < length c \<and> length c \<le> UART_TX_BUF_SIZE) (chunks buf) \<and>
   (\<exists>k. first_refused E (chunks buf) (trace s) k \<and>
      host_console_write E buf s =
        (if k < length (chunks buf) \<and> k = 0 then uart_answer E (chunks buf) (trace s) 0
         else int (length (concat (take k (chunks buf)))),
         s\<lparr>trace := (if k < length (chunks buf) then [Uart TxSemGive] else []) @
           send_calls (take (Suc k) (chunks buf)) @ trace s\<rparr>))"
proof (intro conjI)
  show "concat (chunks buf) = buf"
    by (rule concat_chunks)
  show pieces: "list_all (\<lambda>c. 0 < length c \<and> length c \<le> UART_TX_BUF_SIZE) (chunks buf)"
    using chunks_length by (auto simp: list_all_iff)
  obtain k where k: "first_refused E (chunks buf) (trace s) k" and r: "send_pieces E (chunks buf) 0 (trace s) =
       (if k < length (chunks buf) \<and> 0 + length (concat (take k (chunks buf))) = 0
        then uart_answer E (chunks buf) (trace s) k else int (0 + length (concat (take k (chunks buf)))),
        (if k < length (chunks buf) then [Uart TxSemGive] else []) @
        send_calls (take (Suc k) (chunks buf)) @ trace s)"
    using send_pieces_result by blast
  have "k < length (chunks buf) \<Longrightarrow> length (concat (take k (chunks buf))) = 0 \<longleftrightarrow> k = 0"
    using pieces by (cases k; cases "chunks buf") auto
  then show "\<exists>k. first_refused E (chunks buf) (trace s) k \<and>
      host_console_write E buf s =
        (if k < length (chunks buf) \<and> k = 0 then uart_answer E (chunks buf) (trace s) 0
         else int (length (concat (take k (chunks buf)))),
         s\<lparr>trace := (if k < length (chunks buf) then [Uart TxSemGive] else []) @
           send_calls (take (Suc k) (chunks buf)) @ trace s\<rparr>)"
    using k r by (intro exI [of _ k])
      (auto simp: host_console_write_def console_log_write_def write_loop_pieces)
qed

section \<open>A receiver that stops\<close>


end
