(* ===== verification/Console_Bridge.thy ===== *)
theory Console_Bridge
  imports Console_Logger "HOL-Library.Sublist"
begin

text \<open>
  The host's console over TCP (console_bridge.c): a daemon that serves one client at a time
  on port 22 and sends what it types to the host, and a thread that sends the client the
  console's output from the moment it connects. Each loop is modelled by one round of it; the
  two threads have the same priority, and rounds are the unit of interleaving. The locale
  \<open>console_output\<close> is the contract of the log with whoever follows it; the websocket
  (theory Console_Bridge_Ws) uses it too.
\<close>

unbundle bit_operations_syntax

section \<open>Following the log\<close>

text \<open>A log that can be read from positions: the law is what reading returns.\<close>

locale console_output =
  fixes ok :: "'s \<Rightarrow> bool" and printed :: "'s \<Rightarrow> bytes"
    and read :: "nat \<Rightarrow> 64 word \<Rightarrow> 's \<Rightarrow> int \<times> bytes \<times> 64 word" and lag :: nat
  assumes read_exact: "ok s \<Longrightarrow> unat pos \<le> length (printed s) \<Longrightarrow>
      \<exists>start out. read m pos s = (int (length out), out, of_nat (start + length out)) \<and>
        out = take m (drop start (printed s)) \<and> unat pos \<le> start \<and> start \<le> length (printed s) \<and>
        (start = unat pos \<or> start + lag \<le> length (printed s))"
    and numbered: "ok s \<Longrightarrow> length (printed s) < 2 ^ 64"
begin

text \<open>What a follower that began at \<open>from\<close> has got when it is at \<open>pos\<close>: a subsequence of the
  output since then; all of it, if it has never fallen behind by more than \<open>lag\<close>.\<close>

definition followed :: "'s \<Rightarrow> nat \<Rightarrow> 64 word \<Rightarrow> bytes \<Rightarrow> bool" where
  "followed s from pos got \<longleftrightarrow> from \<le> unat pos \<and> unat pos \<le> length (printed s) \<and>
     subseq got (drop from (take (unat pos) (printed s)))"

lemma read_result:
  assumes "ok s" and "followed s from pos got" and "read m pos s = (ret, out, pos')"
  shows "ret = int (length out)" and "followed s from pos' (got @ out)"
    and "ret = 0 \<Longrightarrow> followed s from pos' got"
    and "length (printed s) < unat pos + lag \<Longrightarrow>
      out = take m (drop (unat pos) (printed s)) \<and> unat pos' = unat pos + length out"
proof -
  have "unat pos \<le> length (printed s)"
    using assms(2) by (simp add: followed_def)
  from read_exact [OF assms(1) this, of m] obtain start where
    r: "ret = int (length out)" "pos' = of_nat (start + length out)"
      "out = take m (drop start (printed s))" "unat pos \<le> start" "start \<le> length (printed s)"
      "start = unat pos \<or> start + lag \<le> length (printed s)"
    unfolding assms(3) prod.inject by blast
  then show "ret = int (length out)"
    by simp
  have le: "start + length out \<le> length (printed s)"
    using r(3,5) by auto
  then have pos': "unat pos' = start + length out"
    using numbered [OF assms(1)] r(2) by (simp add: unat_of_nat del: of_nat_add)
  have out: "out = take (length out) (drop start (printed s))"
    using r(3) by (metis append_eq_conv_conj append_take_drop_id)
  have base: "from \<le> unat pos" "subseq got (drop from (take (unat pos) (printed s)))"
    using assms(2) by (simp_all add: followed_def)
  have "take (unat pos') (printed s) = take (unat pos) (printed s) @
      take (start - unat pos) (drop (unat pos) (printed s)) @ out"
    using r(4) out unfolding pos' by (metis add_diff_inverse_nat append.assoc drop_drop le_add_diff_inverse2
      not_le take_add add.commute)
  then have "drop from (take (unat pos') (printed s)) = drop from (take (unat pos) (printed s)) @
      take (start - unat pos) (drop (unat pos) (printed s)) @ out"
    using base(1) assms(2) by (simp add: followed_def)
  moreover have "subseq (got @ out) (xs @ ys @ out)" if "subseq got xs" for xs ys
    using list_emb_append_mono [OF that list_emb_append_mono [OF list_emb_Nil [of "(=)" ys]
      subseq_order.order_refl [of out]]] by simp
  ultimately show all: "followed s from pos' (got @ out)"
    using base r(4) le pos' by (simp add: followed_def)
  show "followed s from pos' got" if "ret = 0"
    using that all r(1) by simp
  show "out = take m (drop (unat pos) (printed s)) \<and> unat pos' = unat pos + length out"
    if "length (printed s) < unat pos + lag"
    using that r(3,4,6) pos' by auto
qed

text \<open>The log only grows.\<close>

lemma followed_grow:
  "followed s from pos got \<Longrightarrow> prefix (printed s) (printed t) \<Longrightarrow> followed t from pos got"
  by (auto simp: followed_def prefix_def)

lemma followed_start: "unat pos \<le> length (printed s) \<Longrightarrow> followed s (unat pos) pos []"
  by (simp add: followed_def)

end

text \<open>The log of the console is such a log: up to seven eighths of it are kept.\<close>

definition log_ok :: "env \<Rightarrow> uart_sys \<Rightarrow> bool" where
  "log_ok E b \<longleftrightarrow> ring_inv E b \<and> log_sizes_ok E \<and>
     length (stream b) + CONFIG_APP_CONSOLE_LOG_SIZE E < 2 ^ 64"

definition log_kept :: "env \<Rightarrow> nat" where
  "log_kept E = CONFIG_APP_CONSOLE_LOG_SIZE E - 2 * UART_RX_BUF_SIZE E"

interpretation console: console_output "log_ok E" reported_stream
    "\<lambda>m pos b. host_console_read m pos (firmware b)" "log_kept E" for E
proof
  fix b and pos :: "64 word" and m
  assume ok: "log_ok E b" and pos: "unat pos \<le> length (reported_stream b)"
  have "2 * UART_RX_BUF_SIZE E \<le> CONFIG_APP_CONSOLE_LOG_SIZE E"
    by (simp add: UART_RX_BUF_SIZE_def)
  then have "start + CONFIG_APP_CONSOLE_LOG_SIZE E \<le> n + 2 * UART_RX_BUF_SIZE E \<Longrightarrow>
      start + log_kept E \<le> n" for start n
    by (simp add: log_kept_def)
  then show "\<exists>start out. host_console_read m pos (firmware b) = (int (length out), out, of_nat (start + length out)) \<and>
      out = take m (drop start (reported_stream b)) \<and> unat pos \<le> start \<and>
      start \<le> length (reported_stream b) \<and>
      (start = unat pos \<or> start + log_kept E \<le> length (reported_stream b))"
    using ring_read [of E b pos m] ok pos unfolding log_ok_def by blast
next
  fix b assume "log_ok E b"
  moreover have "length (reported_stream b) \<le> length (stream b)"
    by (simp add: reported_stream_def)
  ultimately show "length (reported_stream b) < 2 ^ 64"
    by (simp add: log_ok_def)
qed

section \<open>The sending thread\<close>

abbreviation dm_update :: "(daemons \<Rightarrow> daemons) \<Rightarrow> bmc \<Rightarrow> bmc" where
  "dm_update f s \<equiv> s\<lparr>daemons := f (daemons s)\<rparr>"

abbreviation client_fd :: "bmc \<Rightarrow> int" where
  "client_fd s \<equiv> active_client_fd (daemons s)"

text \<open>One round of the loop of \<open>socket_send_thread\<close>, with its local \<open>pos\<close>.\<close>

definition socket_send_round :: "env \<Rightarrow> 64 word \<Rightarrow> bmc \<Rightarrow> 64 word \<times> bmc" where
  "socket_send_round E pos s =
     (if client_fd s = - 1
      then (pos, ext_ignore E (Kernel (EventWait EVENT_TELNET_CLIENT)) s)
      else
        let (pos, s) =
              (if new_client (daemons s)
               then (host_console_seek_end s, dm_update (\<lambda>d. d\<lparr>new_client := False\<rparr>) s)
               else (pos, s));
            (ret, buf, pos) = host_console_read 64 pos s
        in if ret < 0 then (pos, s)
        else if ret = 0 then
          (pos, ext_ignore E (Kernel (EventWait (EVENT_TELNET_CLIENT OR EVENT_CONSOLE_LOG_DATA))) s)
        else if client_fd s = - 1 then (pos, s)
        else
          let (ret, s) = ext E (Sock (SockSend (client_fd s) buf)) s in
          if ret \<le> 0 then
            let s = ext_ignore E (Sock (SockShutdown (client_fd s))) s
            in (pos, dm_update (\<lambda>d. d\<lparr>active_client_fd := - 1\<rparr>) s)
          else (pos, s))"

section \<open>The daemon\<close>

definition CONSOLE_BRIDGE_PORT :: nat where "CONSOLE_BRIDGE_PORT = 22"

text \<open>\<open>handle_client\<close> up to its loop.\<close>

definition handle_client_start :: "env \<Rightarrow> int \<Rightarrow> bmc \<Rightarrow> bmc" where
  "handle_client_start E fd s =
     (let s = ext_ignore E (Sock (SockSetopt fd)) s;
          s = dm_update (\<lambda>d. d\<lparr>active_client_fd := fd\<rparr>) s;
          s = dm_update (\<lambda>d. d\<lparr>new_client := True\<rparr>) s
      in ext_ignore E (Kernel (EventPost EVENT_TELNET_CLIENT)) s)"

text \<open>One round of its loop. The socket's buffer has 64 bytes.\<close>

definition handle_client_round :: "env \<Rightarrow> bmc \<Rightarrow> bmc" where
  "handle_client_round E s =
     (let (rc, socket_buf, s) = ext_dat E (Sock (SockRecv (client_fd s) 64)) s in
      if rc \<le> 0 then
        let s = ext_ignore E (Sock (SockShutdown (client_fd s))) s
        in dm_update (\<lambda>d. d\<lparr>active_client_fd := - 1\<rparr>) s
      else snd (host_console_write E (take (nat rc) socket_buf) s))"

text \<open>The daemon before its loop; None where it gives up.\<close>

definition console_bridge_listen :: "env \<Rightarrow> bmc \<Rightarrow> int option \<times> bmc" where
  "console_bridge_listen E s =
     (let (server_fd, s) = ext E (Sock SockSocket) s in
      if server_fd < 0 then (None, s)
      else
        let s = ext_ignore E (Sock (SockSetopt server_fd)) s;
            (rc, s) = ext E (Sock (SockBind server_fd CONSOLE_BRIDGE_PORT)) s
        in if rc < 0 then (None, ext_ignore E (Sock (SockClose server_fd)) s)
        else
          let (rc, s) = ext E (Sock (SockListen server_fd 1)) s in
          if rc < 0 then (None, ext_ignore E (Sock (SockClose server_fd)) s)
          else (Some server_fd, s))"

text \<open>Where the daemon's thread is.\<close>

datatype daemon_pc = Listening | Accepting int | Serving int int | Ended

fun console_bridge_daemon_step :: "env \<Rightarrow> daemon_pc \<Rightarrow> bmc \<Rightarrow> daemon_pc \<times> bmc" where
  "console_bridge_daemon_step E Listening s =
     (case console_bridge_listen E s of
        (None, s) \<Rightarrow> (Ended, s)
      | (Some server_fd, s) \<Rightarrow> (Accepting server_fd, s))"
| "console_bridge_daemon_step E (Accepting server_fd) s =
     (let (client_fd, s) = ext E (Sock (SockAccept server_fd)) s in
      if client_fd < 0 then (Accepting server_fd, s)
      else (Serving server_fd client_fd, handle_client_start E client_fd s))"
| "console_bridge_daemon_step E (Serving server_fd fd) s =
     (if client_fd s \<noteq> - 1 then (Serving server_fd fd, handle_client_round E s)
      else (Accepting server_fd, ext_ignore E (Sock (SockClose fd)) s))"
| "console_bridge_daemon_step E Ended s = (Ended, s)"

text \<open>Without the option for it this is a stub.\<close>

definition console_bridge_init :: "env \<Rightarrow> bmc \<Rightarrow> int \<times> bmc" where
  "console_bridge_init E s =
     (if \<not> CONFIG_CONSOLE_BRIDGE E then (0, s)
      else
        let s = ext_ignore E (Kernel (ThreadCreate ''console_bridge'')) s;
            s = ext_ignore E (Kernel (ThreadCreate ''socket_send'')) s
        in (0, s))"

section \<open>The two threads and the UART together\<close>

text \<open>The UART with the firmware, the sending thread's position, where the daemon is; and of
  the present client the number of bytes the host had sent when it was noticed, what its
  socket has taken since then, and whether the thread has ever been further behind than the
  log reaches.\<close>

record telnet_sys =
  dev :: uart_sys
  tx_pos :: "64 word"
  dpc :: daemon_pc
  joined :: nat
  got :: bytes
  behind :: bool

text \<open>What the last call of a round has put into a socket.\<close>

definition sent_now :: "env \<Rightarrow> bmc \<Rightarrow> bmc \<Rightarrow> bytes" where
  "sent_now E s s' =
     (case trace s' of
        Sock (SockSend fd buf) # h \<Rightarrow>
          if length h = length (trace s) then take (nat (zret E h (Sock (SockSend fd buf)))) buf else []
      | _ \<Rightarrow> [])"

definition notices :: "bmc \<Rightarrow> bool" where
  "notices s \<longleftrightarrow> client_fd s \<noteq> - 1 \<and> new_client (daemons s)"

definition send_round :: "env \<Rightarrow> telnet_sys \<Rightarrow> telnet_sys" where
  "send_round E t =
     (let s = firmware (dev t); (pos, s') = socket_send_round E (tx_pos t) s in
      t\<lparr>dev := (dev t)\<lparr>firmware := s'\<rparr>, tx_pos := pos,
        joined := (if notices s then length (reported_stream (dev t)) else joined t),
        got := (if notices s then [] else got t) @ sent_now E s s',
        behind := (\<not> notices s \<and>
          (behind t \<or> unat (tx_pos t) + log_kept E \<le> length (reported_stream (dev t))))\<rparr>)"

inductive telnet_step :: "env \<Rightarrow> telnet_sys \<Rightarrow> telnet_sys \<Rightarrow> bool" for E where
  t_rest: "rx_step E (dev t) b \<Longrightarrow> client_fd (firmware b) = client_fd (firmware (dev t)) \<Longrightarrow>
    new_client (daemons (firmware b)) = new_client (daemons (firmware (dev t))) \<Longrightarrow>
    telnet_step E t (t\<lparr>dev := b\<rparr>)"
| t_send: "telnet_step E t (send_round E t)"
| t_daemon: "console_bridge_daemon_step E (dpc t) (firmware (dev t)) = (pc, s) \<Longrightarrow>
    telnet_step E t (t\<lparr>dev := (dev t)\<lparr>firmware := s\<rparr>, dpc := pc\<rparr>)"

text \<open>From a state in which the threads have just been started.\<close>

inductive telnet_reach :: "env \<Rightarrow> telnet_sys \<Rightarrow> bool" for E where
  telnet_init: "rx_reach E b \<Longrightarrow> client_fd (firmware b) = - 1 \<Longrightarrow>
    telnet_reach E \<lparr>dev = b, tx_pos = 0, dpc = Listening, joined = 0, got = [], behind = False\<rparr>"
| telnet_more: "telnet_reach E t \<Longrightarrow> telnet_step E t u \<Longrightarrow> telnet_reach E u"

section \<open>What the client gets\<close>

lemma host_console_write_log: "daemons (snd (host_console_write E buf s)) = daemons s"
  by (simp add: host_console_write_def console_log_write_def write_loop_pieces split: prod.split)

lemma handle_client_round_log: "host_log (handle_client_round E s) = host_log s"
  by (auto simp: handle_client_round_def ext_dat_def ext_ignore_eq host_console_write_log Let_def)

lemma daemon_step_log:
  "console_bridge_daemon_step E pc s = (pc', s') \<Longrightarrow> host_log s' = host_log s"
  by (cases pc) (auto simp: console_bridge_listen_def handle_client_start_def ext_def ext_ignore_eq
      handle_client_round_log Let_def split: if_splits prod.splits option.splits)

lemma daemon_step_client:
  "console_bridge_daemon_step E pc s = (pc', s') \<Longrightarrow> client_fd s' \<noteq> - 1 \<Longrightarrow>
     new_client (daemons s') \<or> client_fd s \<noteq> - 1 \<and> new_client (daemons s') = new_client (daemons s)"
  by (cases pc) (auto simp: console_bridge_listen_def handle_client_start_def ext_def ext_ignore_eq
      handle_client_round_def ext_dat_def host_console_write_log Let_def
      split: if_splits prod.splits option.splits)

lemma send_round_log: "host_log (snd (socket_send_round E pos s)) = host_log s"
  by (auto simp: socket_send_round_def ext_def ext_ignore_eq Let_def split: prod.split)

lemma telnet_rx: "telnet_reach E t \<Longrightarrow> rx_reach E (dev t)"
proof (induction rule: telnet_reach.induct)
  case (telnet_more t u)
  from telnet_more.hyps(2) have "rx_step E (dev t) (dev u)"
  proof (cases rule: telnet_step.cases)
    case t_send
    then show ?thesis
      using rx_other [OF send_round_log] by (simp add: send_round_def Let_def split_def)
  next
    case (t_daemon pc s)
    then show ?thesis
      using rx_other [of s "dev t"] daemon_step_log by simp
  qed simp
  with telnet_more.IH show ?case
    by (rule rx_more)
qed simp

lemma reported_grows:
  assumes "rx_step E b c" and "ring_inv E b"
  shows "prefix (reported_stream b) (reported_stream c)"
  using assms(1)
proof (cases rule: rx_step.cases)
  case rx_byte
  then show ?thesis
    using assms(2) by (auto simp: reported_stream_def chunk_start_def ring_inv_def Let_def)
next
  case rx_ready
  then show ?thesis
    by (simp add: reported_stream_def chunk_start_def) (metis add_le_cancel_left less_imp_le_nat take_is_prefix prefix_order.trans take_take min.absorb1)
qed (use assms(2) in \<open>auto simp: reported_stream_def chunk_start_def ring_inv_def Let_def\<close>)

text \<open>A socket that takes what it is given, or fails.\<close>

definition sends_whole :: "env \<Rightarrow> bool" where
  "sends_whole E \<longleftrightarrow> (\<forall>h fd buf. zret E h (Sock (SockSend fd buf)) = int (length buf) \<or>
     zret E h (Sock (SockSend fd buf)) \<le> 0)"

text \<open>The effect of a round for a client: what is read, and what of it is sent.\<close>

lemma socket_send_round_client:
  assumes "client_fd s \<noteq> - 1"
    and "host_console_read 64 (if new_client (daemons s) then received (host_log s) else pos) s =
      (int (length out), out, pos1)"
    and "socket_send_round E pos s = (pos', s')"
  shows "pos' = pos1" and "\<not> new_client (daemons s')"
    and "\<exists>k. sent_now E s s' = take k out"
    and "sends_whole E \<Longrightarrow> client_fd s' \<noteq> - 1 \<Longrightarrow> sent_now E s s' = out"
proof -
  let ?s = "if new_client (daemons s) then dm_update (\<lambda>d. d\<lparr>new_client := False\<rparr>) s else s"
  have same: "host_log ?s = host_log s" "client_fd ?s = client_fd s" "trace ?s = trace s"
    "\<not> new_client (daemons ?s)"
    by simp_all
  have read: "host_console_read 64 p ?s = host_console_read 64 p s" for p
    by (simp add: host_console_read_def)
  have round: "socket_send_round E pos s =
     (if out = []
      then (pos1, ext_ignore E (Kernel (EventWait (EVENT_TELNET_CLIENT OR EVENT_CONSOLE_LOG_DATA))) ?s)
      else let (ret, t) = ext E (Sock (SockSend (client_fd s) out)) ?s in
        if ret \<le> 0
        then (pos1, dm_update (\<lambda>d. d\<lparr>active_client_fd := - 1\<rparr>)
          (ext_ignore E (Sock (SockShutdown (client_fd s))) t))
        else (pos1, t))"
    using assms(1,2)
    by (auto simp: socket_send_round_def host_console_seek_end_def host_console_read_def
        ext_def ext_ignore_eq Let_def)
  let ?rc = "zret E (trace s) (Sock (SockSend (client_fd s) out))"
  have result: "pos' = pos1 \<and> \<not> new_client (daemons s') \<and>
      sent_now E s s' = (if out = [] \<or> ?rc \<le> 0 then [] else take (nat ?rc) out) \<and>
      (client_fd s' \<noteq> - 1 \<longrightarrow> out = [] \<or> 0 < ?rc)"
    using assms(1,3) same unfolding round
    by (auto simp: ext_def ext_ignore_eq sent_now_def Let_def split: if_splits)
  show "pos' = pos1" and "\<not> new_client (daemons s')"
    using result by simp_all
  show "\<exists>k. sent_now E s s' = take k out"
    using result by (metis take_Nil take0)
  show "sends_whole E \<Longrightarrow> client_fd s' \<noteq> - 1 \<Longrightarrow> sent_now E s s' = out"
    using result unfolding sends_whole_def
    by (smt (verit) nat_int take_all order_refl)
qed

lemma socket_send_round_no_client:
  "client_fd s = - 1 \<Longrightarrow> socket_send_round E pos s = (pos', s') \<Longrightarrow> client_fd s' = - 1"
  by (auto simp: socket_send_round_def ext_ignore_eq)

text \<open>The invariant: for a client that has been noticed, \<open>got\<close> follows the log from where it
  joined.\<close>

definition telnet_inv :: "env \<Rightarrow> telnet_sys \<Rightarrow> bool" where
  "telnet_inv E t \<longleftrightarrow>
     (client_fd (firmware (dev t)) \<noteq> - 1 \<longrightarrow> \<not> new_client (daemons (firmware (dev t))) \<longrightarrow>
        console.followed (dev t) (joined t) (tx_pos t) (got t) \<and>
        (sends_whole E \<longrightarrow> \<not> behind t \<longrightarrow>
           got t = drop (joined t) (take (unat (tx_pos t)) (reported_stream (dev t)))))"

text \<open>A reader that has got less has still got it in order; one that reads to the end misses nothing.\<close>

lemma followed_less:
  "console.followed d j pos (g @ out) \<Longrightarrow> console.followed d j pos (g @ take k out)"
  unfolding console.followed_def
  by (metis append_take_drop_id append.assoc list_emb_append2 list_emb_append_mono
      subseq_order.order_refl subseq_order.order_trans prefix_def prefix_imp_subseq take_is_prefix)

lemma followed_exact:
  assumes "console.followed d j pos0 g" and "g = drop j (take (unat pos0) (reported_stream d))"
    and "out = take m (drop (unat pos0) (reported_stream d)) \<and> unat pos1 = unat pos0 + length out"
  shows "g @ out = drop j (take (unat pos1) (reported_stream d))"
proof -
  have "take (unat pos1) (reported_stream d) = take (unat pos0) (reported_stream d) @ out"
    using assms(3) by (metis append_eq_conv_conj append_take_drop_id take_add)
  moreover have "j \<le> unat pos0" "unat pos0 \<le> length (reported_stream d)"
    using assms(1) by (simp_all add: console.followed_def)
  ultimately show ?thesis
    using assms(2) by simp
qed

lemma send_round_inv:
  assumes "telnet_inv E t" and "log_ok E (dev t)"
  shows "telnet_inv E (send_round E t)"
proof -
  let ?s = "firmware (dev t)" and ?r = "reported_stream (dev t)"
  obtain pos' s' where round: "socket_send_round E (tx_pos t) ?s = (pos', s')"
    by fastforce
  have same: "reported_stream ((dev t)\<lparr>firmware := s'\<rparr>) = ?r"
    by (simp add: reported_stream_def chunk_start_def)
  show ?thesis
  proof (cases "client_fd ?s = - 1")
    case True
    then show ?thesis
      using socket_send_round_no_client [OF True round]
      by (simp add: telnet_inv_def send_round_def round Let_def)
  next
    case client: False
    define p0 j g where "p0 = (if new_client (daemons ?s) then received (host_log ?s) else tx_pos t)"
      and "j = (if notices ?s then length ?r else joined t)"
      and "g = (if notices ?s then [] else got t)"
    obtain ret out pos1 where read: "host_console_read 64 p0 ?s = (ret, out, pos1)"
      by (metis prod_cases3)
    have end_pos: "unat (received (host_log ?s)) = length ?r"
      using assms(2) ring_positions [of E "dev t"]
      by (auto simp: log_ok_def reported_stream_def ring_inv_def Let_def)
    have fol: "console.followed (dev t) j p0 g"
      using assms(1) client end_pos console.followed_start [of "received (host_log ?s)" "dev t"]
      by (simp add: telnet_inv_def p0_def j_def g_def notices_def)
    note rr = console.read_result [OF assms(2) fol read]
    note cl = socket_send_round_client [OF client _ round, folded p0_def, OF read [unfolded rr(1)]]
    obtain k where k: "sent_now E ?s s' = take k out"
      using cl(3) by blast
    have fol': "console.followed (dev t) j pos1 (g @ sent_now E ?s s')"
      unfolding k by (rule followed_less [OF rr(2)])
    have exact: "g @ sent_now E ?s s' = drop j (take (unat pos1) ?r)"
      if whole: "sends_whole E" "client_fd s' \<noteq> - 1"
        and near: "\<not> (\<not> notices ?s \<and> (behind t \<or> unat (tx_pos t) + log_kept E \<le> length ?r))"
    proof -
      have g: "g = drop j (take (unat p0) ?r)"
        using assms(1) client near whole(1) end_pos
        by (auto simp: telnet_inv_def p0_def j_def g_def notices_def)
      have "0 < log_kept E"
        using assms(2) by (auto simp: log_ok_def log_sizes_ok_def log_kept_def UART_RX_BUF_SIZE_def)
      then have less: "length ?r < unat p0 + log_kept E"
        using near client end_pos by (auto simp: p0_def notices_def)
      show ?thesis
        using followed_exact [OF fol g rr(4) [OF less]] cl(4) [OF whole] by simp
    qed
    show ?thesis
      using fol' exact cl(1)
      by (simp add: telnet_inv_def send_round_def round Let_def same j_def g_def console.followed_def)
  qed
qed

lemma telnet_inv_reach:
  assumes "telnet_reach E t" and "log_sizes_ok E"
    and "length (stream (dev t)) + CONFIG_APP_CONSOLE_LOG_SIZE E < 2 ^ 64"
  shows "telnet_inv E t"
  using assms(1,3)
proof (induction rule: telnet_reach.induct)
  case (telnet_init b)
  then show ?case
    by (simp add: telnet_inv_def)
next
  case (telnet_more t u)
  have rx: "rx_reach E (dev t)"
    by (rule telnet_rx [OF telnet_more.hyps(1)])
  from telnet_more.hyps(2) show ?case
  proof (cases rule: telnet_step.cases)
    case (t_rest b)
    then have bound: "length (stream (dev t)) + CONFIG_APP_CONSOLE_LOG_SIZE E < 2 ^ 64"
      using telnet_more.prems stream_grows [of E "dev t" b] by simp
    then have "prefix (reported_stream (dev t)) (reported_stream b)"
      by (intro reported_grows [OF t_rest(2) ring_reach [OF rx assms(2)]])
    moreover from this have "take (unat pos) (reported_stream b) = take (unat pos) (reported_stream (dev t))"
      if "console.followed (dev t) j pos g" for j pos g
      using that by (auto simp: prefix_def console.followed_def)
    ultimately show ?thesis
      using telnet_more.IH [OF bound] t_rest console.followed_grow [of "dev t" _ _ _ b]
      by (auto simp: telnet_inv_def)
  next
    case t_send
    then have bound: "length (stream (dev t)) + CONFIG_APP_CONSOLE_LOG_SIZE E < 2 ^ 64"
      using telnet_more.prems by (simp add: send_round_def Let_def split_def)
    then have "log_ok E (dev t)"
      using ring_reach [OF rx assms(2)] assms(2) by (simp add: log_ok_def)
    then show ?thesis
      unfolding t_send using send_round_inv telnet_more.IH [OF bound] by blast
  next
    case (t_daemon pc s)
    then have bound: "length (stream (dev t)) + CONFIG_APP_CONSOLE_LOG_SIZE E < 2 ^ 64"
      using telnet_more.prems by simp
    have "reported_stream (dev t\<lparr>firmware := s\<rparr>) = reported_stream (dev t)"
      by (simp add: reported_stream_def chunk_start_def)
    then show ?thesis
      using telnet_more.IH [OF bound] daemon_step_client [OF t_daemon(2)] t_daemon(1)
      by (auto simp: telnet_inv_def console.followed_def)
  qed
qed


text \<open>A client connects, the host prints one byte, and the client gets it.\<close>

definition ex_boot :: bmc where
  "ex_boot = snd (console_logger_init ideal_env (reset_state []))"

definition ex_accepting :: bmc where
  "ex_accepting = snd (console_bridge_daemon_step ideal_env Listening ex_boot)"

definition ex_served :: bmc where
  "ex_served = snd (console_bridge_daemon_step ideal_env (Accepting 0) ex_accepting)"

definition ex_sys :: "bmc \<Rightarrow> daemon_pc \<Rightarrow> telnet_sys" where
  "ex_sys s pc = \<lparr>dev = \<lparr>firmware = s, bufs = [(0, 128)], fill = 0, reported = 0, stream = []\<rparr>,
     tx_pos = 0, dpc = pc, joined = 0, got = [], behind = False\<rparr>"

definition ex_joined :: telnet_sys where
  "ex_joined = send_round ideal_env (ex_sys ex_served (Serving 0 0))"

definition ex_dev1 :: uart_sys where
  "ex_dev1 = (dev ex_joined)\<lparr>firmware := dma_write 0 (CHR ''A'') (firmware (dev ex_joined)),
     fill := 1, stream := ''A''\<rparr>"

definition ex_dev2 :: uart_sys where
  "ex_dev2 = ex_dev1\<lparr>firmware := uart_callback ideal_env (UART_RX_RDY 1) (firmware ex_dev1),
     reported := 1\<rparr>"

definition telnet_example :: telnet_sys where
  "telnet_example = send_round ideal_env (ex_joined\<lparr>dev := ex_dev2\<rparr>)"

lemma telnet_example_reach: "telnet_reach ideal_env telnet_example"
proof -
  have ok: "console_logger_init ideal_env (reset_state []) = (0, ex_boot)" and fd: "client_fd ex_boot = - 1"
    by (simp_all add: ex_boot_def console_logger_init_def ext_def ext_ignore_eq Let_def ideal_env_def
        ideal_ret_def uart_rx_start_def reset_state_def zero_daemons_def)
  have on: "CONFIG_APP_CONSOLE_LOGGER ideal_env" and size: "UART_RX_BUF_SIZE ideal_env = 128"
    by (simp_all add: ideal_env_def UART_RX_BUF_SIZE_def)
  have "rx_reach ideal_env (\<lparr>firmware = ex_boot, bufs = [(0, 128)], fill = 0, reported = 0, stream = []\<rparr>)"
    using rx_init [OF on ok] console_logger_init_result [OF on ok] by (auto simp:  size)
  then have r: "telnet_reach ideal_env (ex_sys ex_boot Listening)"
    using fd unfolding ex_sys_def by (intro telnet_init) simp_all
  have s1: "telnet_step ideal_env (ex_sys ex_boot Listening) (ex_sys ex_accepting (Accepting 0))"
    using telnet_step.t_daemon [of ideal_env "ex_sys ex_boot Listening" "Accepting 0" ex_accepting]
    by (simp add: ex_sys_def ex_accepting_def console_bridge_listen_def ext_def ext_ignore_eq Let_def
        ideal_env_def ideal_ret_def)
  have s2: "telnet_step ideal_env (ex_sys ex_accepting (Accepting 0)) (ex_sys ex_served (Serving 0 0))"
    using telnet_step.t_daemon [of ideal_env "ex_sys ex_accepting (Accepting 0)" "Serving 0 0" ex_served]
    by (simp add: ex_sys_def ex_served_def ext_def Let_def ideal_env_def ideal_ret_def)
  have s3: "telnet_step ideal_env (ex_sys ex_served (Serving 0 0)) ex_joined"
    unfolding ex_joined_def by (rule t_send)
  have dev: "bufs (dev ex_joined) = [(0, 128)]" "fill (dev ex_joined) = 0" "reported (dev ex_joined) = 0"
      "stream (dev ex_joined) = []"
    by (simp_all add: ex_joined_def send_round_def ex_sys_def  Let_def split_def)
  have "rx_step ideal_env (dev ex_joined) ex_dev1"
    using rx_byte [of "dev ex_joined" 0 128 "[]" ideal_env "CHR ''A''"] by (simp add: dev ex_dev1_def)
  then have s4: "telnet_step ideal_env ex_joined (ex_joined\<lparr>dev := ex_dev1\<rparr>)"
    by (rule t_rest) (simp_all add: ex_dev1_def dma_write_def)
  have "rx_step ideal_env ex_dev1 ex_dev2"
    using rx_ready [of ex_dev1 ideal_env] by (simp add: ex_dev1_def ex_dev2_def dev)
  then have s5: "telnet_step ideal_env (ex_joined\<lparr>dev := ex_dev1\<rparr>) (ex_joined\<lparr>dev := ex_dev2\<rparr>)"
    using t_rest [of ideal_env "ex_joined\<lparr>dev := ex_dev1\<rparr>" ex_dev2] by (simp add: ex_dev2_def uart_rx_ready_def ext_ignore_eq)
  have s6: "telnet_step ideal_env (ex_joined\<lparr>dev := ex_dev2\<rparr>) (send_round ideal_env (ex_joined\<lparr>dev := ex_dev2\<rparr>))"
    by (rule t_send)
  have "telnet_reach ideal_env (send_round ideal_env (ex_joined\<lparr>dev := ex_dev2\<rparr>))"
    by (rule r [THEN telnet_more, OF s1, THEN telnet_more, OF s2, THEN telnet_more, OF s3,
        THEN telnet_more, OF s4, THEN telnet_more, OF s5, THEN telnet_more, OF s6])
  then show ?thesis
    by (simp add: telnet_example_def)
qed

lemma ex_boot_log:
  "host_log ex_boot = \<lparr>allocated = 128, received = 0, log_size = 2048, log_buffer = zeros 2048\<rparr>"
proof -
  have "console_logger_init ideal_env (reset_state []) = (0, ex_boot)"
    by (simp add: ex_boot_def console_logger_init_def ext_def ext_ignore_eq Let_def ideal_env_def
        ideal_ret_def)
  then show ?thesis
    using console_logger_init_result [of ideal_env "reset_state []" ex_boot]
    by (simp add: ideal_env_def UART_RX_BUF_SIZE_def)
qed

lemma ex_served_simps:
  "host_log ex_served = host_log ex_boot" "client_fd ex_served = 0" "new_client (daemons ex_served)"
  by (simp_all add: ex_served_def ex_accepting_def console_bridge_listen_def handle_client_start_def
      ext_def ext_ignore_eq Let_def ideal_env_def ideal_ret_def)

lemma ex_joined_simps:
  "host_log (firmware (dev ex_joined)) = host_log ex_boot" "client_fd (firmware (dev ex_joined)) = 0"
  "\<not> new_client (daemons (firmware (dev ex_joined)))" "tx_pos ex_joined = 0" "got ex_joined = []"
  "\<not> behind ex_joined" "joined ex_joined = 0"
proof -
  have "socket_send_round ideal_env 0 ex_served =
      (0, ext_ignore ideal_env (Kernel (EventWait (EVENT_TELNET_CLIENT OR EVENT_CONSOLE_LOG_DATA)))
        (dm_update (\<lambda>d. d\<lparr>new_client := False\<rparr>) ex_served))"
    by (simp add: socket_send_round_def host_console_seek_end_def read_unwrapped ex_served_simps
        ex_boot_log)
  then show "host_log (firmware (dev ex_joined)) = host_log ex_boot"
    "client_fd (firmware (dev ex_joined)) = 0" "\<not> new_client (daemons (firmware (dev ex_joined)))"
    "tx_pos ex_joined = 0" "got ex_joined = []" "\<not> behind ex_joined" "joined ex_joined = 0"
    by (simp_all add: ex_joined_def ex_sys_def send_round_def ex_served_simps ext_ignore_eq
        sent_now_def notices_def reported_stream_def)
qed

lemma telnet_example_simps:
  "client_fd (firmware (dev telnet_example)) = 0"
  "\<not> new_client (daemons (firmware (dev telnet_example)))" "got telnet_example = ''A''"
  "stream (dev telnet_example) = ''A''" "joined telnet_example = 0"
proof -
  have buffer: "take (Suc 0) ((zeros 2048)[0 := c]) = [c]" for c
    by (cases "zeros 2048") (auto dest: arg_cong [where f = length])
  have send: "zret ideal_env h (Sock (SockSend fd b)) = int (length b)" for h fd b
    by (simp add: ideal_env_def ideal_ret_def)
  let ?s = "firmware ex_dev2"
  have log: "host_log ?s = \<lparr>allocated = 128, received = 1, log_size = 2048,
      log_buffer = (zeros 2048)[0 := CHR ''A'']\<rparr>" "client_fd ?s = 0" "\<not> new_client (daemons ?s)"
    by (simp_all add: ex_dev2_def ex_dev1_def uart_rx_ready_def dma_write_def ext_ignore_eq
        ex_joined_simps ex_boot_log)
  have stream: "stream ex_dev2 = ''A''"
    by (simp add: ex_dev2_def ex_dev1_def)
  have "host_console_read 64 0 ?s = (1, ''A'', 1)"
    by (simp add: read_unwrapped log buffer)
  then have "socket_send_round ideal_env 0 ?s =
      (1, ?s\<lparr>trace := Sock (SockSend 0 ''A'') # trace ?s\<rparr>)"
    by (simp add: socket_send_round_def log ext_def Let_def send)
  then show "client_fd (firmware (dev telnet_example)) = 0"
    "\<not> new_client (daemons (firmware (dev telnet_example)))" "got telnet_example = ''A''"
    "stream (dev telnet_example) = ''A''" "joined telnet_example = 0"
    by (simp_all add: telnet_example_def send_round_def ex_joined_simps log sent_now_def
        notices_def Let_def stream send)
qed


end
