(* ===== verification/Console_Bridge_Ws.thy ===== *)
theory Console_Bridge_Ws
  imports Console_Bridge Http_Auth
begin

text \<open>
  The host's console over a websocket (console_bridge_ws.c): the callback of the HTTP server
  that authenticates a websocket and makes it the client, the socket service's callback that
  passes what the client types to the host, and the thread that sends the client the
  console's history and output. The two loops that need not end are partial functions.
\<close>

section \<open>Closing, sending and receiving\<close>

definition WS_RX_BUF_SIZE :: nat where "WS_RX_BUF_SIZE = 32"

abbreviation SYS_FOREVER_MS :: int where "SYS_FOREVER_MS \<equiv> - 1"

abbreviation fd_of :: "bmc \<Rightarrow> int" where
  "fd_of s \<equiv> ws_fd (host_websocket (daemons s))"

abbreviation fresh :: "bmc \<Rightarrow> bool" where
  "fresh s \<equiv> ws_new_client (host_websocket (daemons s))"

abbreviation ws_update :: "(host_websocket \<Rightarrow> host_websocket) \<Rightarrow> bmc \<Rightarrow> bmc" where
  "ws_update f s \<equiv> dm_update (\<lambda>d. d\<lparr>host_websocket := f (host_websocket d)\<rparr>) s"

definition ws_end_client_connection :: "env \<Rightarrow> bmc \<Rightarrow> bmc" where
  "ws_end_client_connection E s =
     (let s = ext_ignore E (Http SocketServiceUnregister) s;
          s = ext_ignore E (Http (WsUnregister (fd_of s))) s
      in ws_update (\<lambda>w. w\<lparr>ws_fd := - 1\<rparr>) s)"

text \<open>The loop of \<open>ws_send\<close>; it does not end when the socket takes nothing for ever.\<close>

partial_function (option) ws_send_loop ::
  "env \<Rightarrow> bool \<Rightarrow> bytes \<Rightarrow> nat \<Rightarrow> bmc \<Rightarrow> (int \<times> bmc) option" where
  "ws_send_loop E block buf copied s =
     (if copied < length buf then
        let msg = Http (WsSendMsg (fd_of s) (drop copied buf) (if block then SYS_FOREVER_MS else 0));
            ret = fst (ext E msg s);
            s = snd (ext E msg s)
        in if ret < 0 then
             if errno E (trace s) = EAGAIN \<and> \<not> block then Some (int copied, s)
             else
               let ret = (if copied \<noteq> 0 then int copied else - errno E (trace s))
               in Some (ret, ws_end_client_connection E s)
           else ws_send_loop E block buf (copied + nat ret) s
      else Some (int copied, s))"

definition ws_send :: "env \<Rightarrow> bytes \<Rightarrow> bool \<Rightarrow> bmc \<Rightarrow> (int \<times> bmc) option" where
  "ws_send E buf block s =
     (if fd_of s < 0 then Some (- ENOTCONN, s) else ws_send_loop E block buf 0 s)"

definition ws_recv :: "env \<Rightarrow> nat \<Rightarrow> bool \<Rightarrow> bmc \<Rightarrow> int \<times> bytes \<times> bmc" where
  "ws_recv E n block s =
     (let (ret, buf, s) =
            ext_dat E (Http (WsRecvMsg (fd_of s) n (if block then SYS_FOREVER_MS else 0))) s
      in if ret < 0 then
           if errno E (trace s) = EAGAIN \<and> \<not> block then (- EAGAIN, buf, s)
           else (let s = ws_end_client_connection E s in (- errno E (trace s), buf, s))
         else if ret = 0 then (0, buf, ws_end_client_connection E s)
         else (ret, buf, s))"

section \<open>The sending thread\<close>

text \<open>From the label \<open>again\<close> to the end of the round.\<close>

partial_function (option) ws_send_again :: "env \<Rightarrow> bytes \<Rightarrow> nat \<Rightarrow> bmc \<Rightarrow> bmc option" where
  "ws_send_again E buf copied s =
     (if fd_of s = - 1 then Some s
      else
        Option.bind (ws_send E (drop copied buf) True s) (\<lambda>(ret, s).
          if ret < 0 then Some (ws_end_client_connection E s)
          else if copied + nat ret < length buf
          then ws_send_again E buf (copied + nat ret) (ext_ignore E (Kernel (KMsleep 50)) s)
          else Some s))"

definition ws_send_round :: "env \<Rightarrow> 64 word \<Rightarrow> bmc \<Rightarrow> (64 word \<times> bmc) option" where
  "ws_send_round E pos s =
     (if fd_of s = - 1
      then Some (pos, ext_ignore E (Kernel (EventWait EVENT_WEBSOCKET_CLIENT)) s)
      else
        let (pos, s) =
              (if fresh s then (0, ws_update (\<lambda>w. w\<lparr>ws_new_client := False\<rparr>) s) else (pos, s));
            (ret, buf, pos) = host_console_read 64 pos s
        in if ret < 0 then Some (pos, s)
        else if ret = 0 then
          Some (pos, ext_ignore E
            (Kernel (EventWait (EVENT_WEBSOCKET_CLIENT OR EVENT_CONSOLE_LOG_DATA))) s)
        else map_option (Pair pos) (ws_send_again E buf 0 s))"

section \<open>The callbacks\<close>

text \<open>The event of a socket service: the socket and the flags of \<open>revents\<close>.\<close>

record sock_event =
  ev_fd :: int
  POLLERR :: bool
  POLLNVAL :: bool
  POLLIN :: bool

definition ws_server_cb :: "env \<Rightarrow> sock_event \<Rightarrow> bmc \<Rightarrow> bmc" where
  "ws_server_cb E evt s =
     (if POLLERR evt \<or> POLLNVAL evt then
        let s = ext_ignore E (Sock (SockGetError (ev_fd evt))) s
        in if ev_fd evt = fd_of s then ws_end_client_connection E s else s
      else if \<not> POLLIN evt then s
      else if ev_fd evt = fd_of s then
        let (ret, ws_recv_buf, s) = ws_recv E WS_RX_BUF_SIZE False s
        in if ret \<le> 0 then s
           else snd (host_console_write E (take (nat ret) ws_recv_buf) s)
      else s)"

definition console_ws_http_cb :: "env \<Rightarrow> int \<Rightarrow> bmc \<Rightarrow> int \<times> bmc" where
  "console_ws_http_cb E ws_socket s =
     (if ws_socket < 0 then (- EBADF, s)
      else
        let (ret, s) = ws_validate_auth E ws_socket s in
        if ret < 0 then (ret, s)
        else
          let s = (if 0 \<le> fd_of s then ws_end_client_connection E s else s);
              s = ws_update (\<lambda>w. w\<lparr>ws_fd := ws_socket, ws_new_client := True\<rparr>) s;
              (ret, s) = ext E (Http (SocketServiceRegister ws_socket)) s
          in if ret < 0 then
               let s = (if 0 \<le> fd_of s
                        then ws_update (\<lambda>w. w\<lparr>ws_fd := - 1\<rparr>) (ext_ignore E (Sock (SockClose (fd_of s))) s)
                        else s)
               in (ret, s)
             else (0, ext_ignore E (Kernel (EventPost EVENT_WEBSOCKET_CLIENT)) s))"

definition console_bridge_ws_init :: "env \<Rightarrow> bmc \<Rightarrow> int \<times> bmc" where
  "console_bridge_ws_init E s =
     (if \<not> CONFIG_APP_WEB_TERMINAL_HOST_SERIAL E then (0, s)
      else
        let s = ws_update (\<lambda>w. \<lparr>ws_fd = - 1, ws_new_client = False\<rparr>) s;
            s = ext_ignore E (Kernel (ThreadCreate ''websocket_send'')) s
        in (0, s))"

section \<open>Who is the client\<close>

text \<open>What may happen, with the socket that has last been accepted. The other parts of the
  firmware leave the websocket's state alone.\<close>

inductive ws_step :: "env \<Rightarrow> bmc \<times> int option \<Rightarrow> bmc \<times> int option \<Rightarrow> bool" for E where
  ws_http: "console_ws_http_cb E fd s = (rc, s') \<Longrightarrow>
    ws_step E (s, a) (s', if 0 \<le> fd \<and> 0 \<le> fst (ws_validate_auth E fd s) then Some fd else a)"
| ws_event: "ws_step E (s, a) (ws_server_cb E evt s, a)"
| ws_thread: "ws_send_round E pos s = Some (pos', s') \<Longrightarrow> ws_step E (s, a) (s', a)"
| ws_other: "host_websocket (daemons s') = host_websocket (daemons s) \<Longrightarrow> ws_step E (s, a) (s', a)"

inductive ws_reach :: "env \<Rightarrow> bmc \<times> int option \<Rightarrow> bool" for E where
  ws_start: "CONFIG_APP_WEB_TERMINAL_HOST_SERIAL E \<Longrightarrow> console_bridge_ws_init E s = (0, s') \<Longrightarrow>
    ws_reach E (s', None)"
| ws_more: "ws_reach E x \<Longrightarrow> ws_step E x y \<Longrightarrow> ws_reach E y"

section \<open>What sending does\<close>

text \<open>What Zephyr documents of \<open>websocket_send_msg\<close>: it takes no more than it is given.\<close>

definition ws_documented :: "env \<Rightarrow> bool" where
  "ws_documented E \<longleftrightarrow> (\<forall>h fd b w. zret E h (Http (WsSendMsg fd b w)) \<le> int (length b))"

text \<open>The bytes the websockets have taken in a history.\<close>

fun ws_sent :: "env \<Rightarrow> call list \<Rightarrow> bytes" where
  "ws_sent E [] = []"
| "ws_sent E (c # h) = ws_sent E h @
     (case c of Http (WsSendMsg fd b w) \<Rightarrow> take (nat (zret E h c)) b | _ \<Rightarrow> [])"

text \<open>From \<open>s\<close> to \<open>s'\<close>, only the socket \<open>fd\<close> was sent to, and nothing changed but that it may
  have been closed.\<close>

definition talks :: "int \<Rightarrow> bmc \<Rightarrow> bmc \<Rightarrow> bool" where
  "talks fd s s' \<longleftrightarrow>
     (\<exists>cs. trace s' = cs @ trace s \<and>
        (\<forall>c \<in> set cs. case c of Http (WsSendMsg f b w) \<Rightarrow> f = fd | Uart u \<Rightarrow> False | _ \<Rightarrow> True)) \<and>
     host_log s' = host_log s \<and> fresh s' = fresh s \<and> (fd_of s' = fd_of s \<or> fd_of s' = - 1)"

lemma talks_refl [simp]: "talks fd s s"
  by (simp add: talks_def)

lemma talks_trans [trans]: "talks fd s t \<Longrightarrow> talks fd t u \<Longrightarrow> talks fd s u"
  by (fastforce simp: talks_def)

lemma talks_call:
  "(case c of Http (WsSendMsg f b w) \<Rightarrow> f = fd | Uart u \<Rightarrow> False | _ \<Rightarrow> True) \<Longrightarrow>
     talks fd s (s\<lparr>trace := c # trace s\<rparr>)"
  by (simp add: talks_def)

lemma ws_end_result:
  "fd_of (ws_end_client_connection E s) = - 1" "talks fd s (ws_end_client_connection E s)"
  "ws_sent E (trace (ws_end_client_connection E s)) = ws_sent E (trace s)"
  by (simp_all add: ws_end_client_connection_def ext_ignore_eq talks_def)

definition sent_all :: "env \<Rightarrow> bytes \<Rightarrow> bmc \<Rightarrow> bmc \<Rightarrow> bool" where
  "sent_all E bs s s' \<longleftrightarrow> talks (fd_of s) s s' \<and>
     (fd_of s' \<noteq> - 1 \<longrightarrow> ws_sent E (trace s') = ws_sent E (trace s) @ bs)"

lemma ws_send_loop_result:
  assumes "ws_send_loop E block buf copied s = Some y"
  shows "block \<longrightarrow> copied \<le> length buf \<longrightarrow> ws_documented E \<longrightarrow>
    sent_all E (drop copied buf) s (snd y) \<and> (fd_of (snd y) = - 1 \<or> fst y = int (length buf))"
proof (rule ws_send_loop.raw_induct [OF _ assms], goal_cases)
  case (1 loop E block buf copied s y)
  note ih = 1(1) and body = 1(2)
  let ?msg = "Http (WsSendMsg (fd_of s) (drop copied buf) (if block then SYS_FOREVER_MS else 0))"
  let ?ret = "zret E (trace s) ?msg" and ?s = "s\<lparr>trace := ?msg # trace s\<rparr>"
  show ?case
  proof (intro impI)
    assume a: "block" "copied \<le> length buf" "ws_documented E"
    have le: "?ret \<le> int (length (drop copied buf))"
      using a(3) unfolding ws_documented_def by blast
    have one: "talks (fd_of s) s ?s"
      by (rule talks_call) simp
    consider "copied = length buf" | "copied < length buf" "?ret < 0" | "copied < length buf" "0 \<le> ?ret"
      using a(2) by linarith
    then show "sent_all E (drop copied buf) s (snd y) \<and> (fd_of (snd y) = - 1 \<or> fst y = int (length buf))"
    proof cases
      case 1
      then show ?thesis
        using body by (auto simp: sent_all_def)
    next
      case 2
      then have "snd y = ws_end_client_connection E ?s"
        using body a(1) by (auto simp: ext_def Let_def)
      then show ?thesis
        using one ws_end_result(1,2) talks_trans by (auto simp: sent_all_def)
    next
      case 3
      then have "loop E block buf (copied + nat ?ret) ?s = Some y"
        using body by (auto simp: ext_def Let_def)
      from ih [OF this] have rec: "sent_all E (drop (copied + nat ?ret) buf) ?s (snd y)"
        "fd_of (snd y) = - 1 \<or> fst y = int (length buf)"
        using a le 3 by auto
      have "take (nat ?ret) (drop copied buf) @ drop (copied + nat ?ret) buf = drop copied buf"
        by (metis add.commute append_take_drop_id drop_drop)
      then show ?thesis
        using rec one talks_trans [of "fd_of s" s ?s] by (auto simp: sent_all_def)
    qed
  qed
qed

lemma ws_send_result:
  assumes "ws_send E buf True s = Some (ret, s')" and "ws_documented E"
  shows "sent_all E buf s s' \<or> fd_of s < 0 \<and> ret < 0 \<and> s' = s"
    and "fd_of s' = - 1 \<or> ret = int (length buf) \<or> fd_of s < 0 \<and> ret < 0 \<and> s' = s"
  using assms ws_send_loop_result [of E True buf 0 s "(ret, s')"]
  by (auto simp: ws_send_def split: if_splits)

lemma ws_send_again_result:
  assumes "ws_send_again E buf copied s = Some s'"
  shows "ws_documented E \<longrightarrow> copied \<le> length buf \<longrightarrow>
    sent_all E (drop copied buf) s s' \<and> (fd_of s = - 1 \<longrightarrow> s' = s)"
proof (rule ws_send_again.raw_induct [OF _ assms], goal_cases)
  case (1 loop E buf copied s s')
  note ih = 1(1) and body = 1(2)
  show ?case
  proof (intro impI)
    assume doc: "ws_documented E" and le: "copied \<le> length buf"
    show "sent_all E (drop copied buf) s s' \<and> (fd_of s = - 1 \<longrightarrow> s' = s)"
    proof (cases "fd_of s = - 1")
      case True
      then show ?thesis
        using body by (auto simp: sent_all_def)
    next
      case False
      then obtain ret t where send: "ws_send E (drop copied buf) True s = Some (ret, t)"
        and rest: "(if ret < 0 then Some (ws_end_client_connection E t)
          else if copied + nat ret < length buf
          then loop E buf (copied + nat ret) (ext_ignore E (Kernel (KMsleep 50)) t)
          else Some t) = Some s'"
        using body by (auto simp: bind_eq_Some_conv)
      note sr = ws_send_result [OF send doc]
      have talk: "talks (fd_of s) s t"
        using sr(1) by (auto simp: sent_all_def)
      consider "s' = ws_end_client_connection E t"
        | "0 \<le> ret" "fd_of t = - 1" "copied + nat ret < length buf"
          "loop E buf (copied + nat ret) (ext_ignore E (Kernel (KMsleep 50)) t) = Some s'"
        | "0 \<le> ret" "s' = t"
        using rest sr(2) le by (auto split: if_splits)
      then show ?thesis
      proof cases
        case 1
        then show ?thesis
          using talks_trans [OF talk ws_end_result(2)] ws_end_result(1) False
          by (simp add: sent_all_def)
      next
        case 2
        let ?t = "ext_ignore E (Kernel (KMsleep 50)) t"
        have t: "talks (fd_of s) t ?t" "fd_of ?t = - 1"
          using 2(2) by (auto simp: ext_ignore_eq intro: talks_call)
        have "s' = ?t"
          using ih [OF 2(4)] doc 2(3) t(2) by simp
        then show ?thesis
          using talks_trans [OF talk t(1)] t(2) False by (simp add: sent_all_def)
      next
        case 3
        then show ?thesis
          using sr(1) False by auto
      qed
    qed
  qed
qed

section \<open>Only an authenticated client\<close>

text \<open>One round of the thread, for the client there is.\<close>

lemma ws_send_round_result:
  assumes "ws_send_round E pos s = Some (pos', s')" and "ws_documented E" and "fd_of s \<noteq> - 1"
    and "host_console_read 64 (if fresh s then 0 else pos) s = (ret, out, pos1)"
  shows "pos' = pos1" and "\<not> fresh s'" and "host_log s' = host_log s"
    and "fd_of s' = fd_of s \<or> fd_of s' = - 1"
    and "\<exists>cs. trace s' = cs @ trace s \<and>
      (\<forall>c \<in> set cs. case c of Http (WsSendMsg f b w) \<Rightarrow> f = fd_of s | Uart u \<Rightarrow> False | _ \<Rightarrow> True)"
    and "ret = int (length out) \<Longrightarrow> fd_of s' \<noteq> - 1 \<Longrightarrow> ws_sent E (trace s') = ws_sent E (trace s) @ out"
proof -
  define t where "t = (if fresh s then ws_update (\<lambda>w. w\<lparr>ws_new_client := False\<rparr>) s else s)"
  have t: "host_log t = host_log s" "fd_of t = fd_of s" "trace t = trace s" "\<not> fresh t"
    by (simp_all add: t_def)
  have read: "host_console_read 64 p t = host_console_read 64 p s" for p
    by (simp add: host_console_read_def t(1))
  have round: "ws_send_round E pos s =
     (if ret < 0 then Some (pos1, t)
      else if ret = 0 then Some (pos1, ext_ignore E
        (Kernel (EventWait (EVENT_WEBSOCKET_CLIENT OR EVENT_CONSOLE_LOG_DATA))) t)
      else map_option (Pair pos1) (ws_send_again E out 0 t))"
    using assms(3,4) read by (auto simp: ws_send_round_def t_def [symmetric] Let_def)
      (simp_all add: t_def host_console_read_def)
  have "pos' = pos1 \<and> talks (fd_of t) t s' \<and>
      (ret = int (length out) \<longrightarrow> fd_of s' \<noteq> - 1 \<longrightarrow> ws_sent E (trace s') = ws_sent E (trace t) @ out)"
    using assms(1,2) ws_send_again_result [of E out 0 t s'] unfolding round
    by (auto simp: ext_ignore_eq sent_all_def intro: talks_call split: if_splits)
  then show "pos' = pos1" "\<not> fresh s'" "host_log s' = host_log s" "fd_of s' = fd_of s \<or> fd_of s' = - 1"
    "\<exists>cs. trace s' = cs @ trace s \<and>
      (\<forall>c \<in> set cs. case c of Http (WsSendMsg f b w) \<Rightarrow> f = fd_of s | Uart u \<Rightarrow> False | _ \<Rightarrow> True)"
    "ret = int (length out) \<Longrightarrow> fd_of s' \<noteq> - 1 \<Longrightarrow> ws_sent E (trace s') = ws_sent E (trace s) @ out"
    by (simp_all add: talks_def t)
qed

lemma ws_validate_auth_keeps: "ws_validate_auth E fd s = (rc, t) \<Longrightarrow> daemons t = daemons s"
  using only_io_fields(10) [OF ws_validate_auth_io [of any_call s s E fd]] by simp

lemma console_ws_http_cb_client:
  assumes "console_ws_http_cb E fd s = (rc, s')"
  shows "fd_of s' = - 1 \<or> fd_of s' = (if 0 \<le> fd \<and> 0 \<le> fst (ws_validate_auth E fd s) then fd else fd_of s)"
  using assms ws_validate_auth_keeps
  by (auto simp: console_ws_http_cb_def ext_def ext_ignore_eq Let_def split: if_splits prod.splits)

lemma ws_server_cb_client: "fd_of (ws_server_cb E evt s) = - 1 \<or> fd_of (ws_server_cb E evt s) = fd_of s"
  by (auto simp: ws_server_cb_def ws_recv_def ext_dat_def ext_ignore_eq ws_end_result(1)
      host_console_write_log Let_def)

definition client_inv :: "bmc \<Rightarrow> int option \<Rightarrow> bool" where
  "client_inv s a \<longleftrightarrow> fd_of s = - 1 \<or> 0 \<le> fd_of s \<and> a = Some (fd_of s)"

lemma ws_client_inv:
  assumes "ws_reach E x" and "ws_documented E"
  shows "client_inv (fst x) (snd x)"
  using assms(1)
proof (induction rule: ws_reach.induct)
  case (ws_start s s')
  then show ?case
    by (auto simp: console_bridge_ws_init_def client_inv_def ext_ignore_eq Let_def)
next
  case (ws_more x y)
  from ws_more.hyps(2) ws_more.IH show ?case
  proof (cases rule: ws_step.cases)
    case (ws_http fd s rc s' a)
    then show ?thesis
      using console_ws_http_cb_client [OF ws_http(3)] ws_more.IH
      by (auto simp: client_inv_def split: if_splits)
  next
    case (ws_event s a evt)
    then show ?thesis
      using ws_server_cb_client [of E evt s] ws_more.IH by (auto simp: client_inv_def)
  next
    case (ws_thread pos s pos' s' a)
    show ?thesis
    proof (cases "fd_of s = - 1")
      case True
      then show ?thesis
        using ws_thread by (auto simp: ws_send_round_def client_inv_def ext_ignore_eq)
    next
      case False
      obtain ret out pos1 where "host_console_read 64 (if fresh s then 0 else pos) s = (ret, out, pos1)"
        by (metis prod_cases3)
      then show ?thesis
        using ws_send_round_result(4) [OF ws_thread(3) assms(2) False] ws_thread(1,2) ws_more.IH
        by (auto simp: client_inv_def)
    qed
  qed (auto simp: client_inv_def)
qed

text \<open>C12: The console's websocket belongs to an authenticated client. In every reachable
  state the client's socket, when there is one, is the one whose authentication was accepted
  last; only an event of that socket makes the callback send anything to the host, and the
  thread sends the console's output to no other socket.\<close>

theorem ws_console_authenticated:
  assumes "ws_reach E (s, a)" and "ws_documented E"
  shows "(fd_of s = - 1 \<or> a = Some (fd_of s)) \<and>
    (0 \<le> ev_fd evt \<and> Uart (UartTx b) \<in> set (new_calls s (ws_server_cb E evt s)) \<longrightarrow>
       a = Some (ev_fd evt)) \<and>
    (ws_send_round E pos s = Some (pos', s') \<and> Http (WsSendMsg fd bs w) \<in> set (new_calls s s') \<longrightarrow>
       a = Some fd)"
proof (intro conjI impI)
  have inv: "client_inv s a"
    using ws_client_inv [OF assms] by simp
  then show "fd_of s = - 1 \<or> a = Some (fd_of s)"
    by (auto simp: client_inv_def)
  have "ev_fd evt \<noteq> fd_of s \<Longrightarrow> set (new_calls s (ws_server_cb E evt s)) \<subseteq> {Sock (SockGetError (ev_fd evt))}"
    by (auto simp: ws_server_cb_def new_calls_def ext_ignore_eq split: if_splits)
  then show "a = Some (ev_fd evt)"
    if "0 \<le> ev_fd evt \<and> Uart (UartTx b) \<in> set (new_calls s (ws_server_cb E evt s))"
    using that inv by (cases "ev_fd evt = fd_of s") (auto simp: client_inv_def)
  show "a = Some fd"
    if sent: "ws_send_round E pos s = Some (pos', s') \<and> Http (WsSendMsg fd bs w) \<in> set (new_calls s s')"
  proof (cases "fd_of s = - 1")
    case True
    then show ?thesis
      using sent by (auto simp: ws_send_round_def new_calls_def ext_ignore_eq)
  next
    case False
    obtain ret out pos1 where "host_console_read 64 (if fresh s then 0 else pos) s = (ret, out, pos1)"
      by (metis prod_cases3)
    from ws_send_round_result(5) [OF conjunct1 [OF sent] assms(2) False this]
    obtain cs where "trace s' = cs @ trace s" and
      "\<forall>c \<in> set cs. case c of Http (WsSendMsg f b w) \<Rightarrow> f = fd_of s | Uart u \<Rightarrow> False | _ \<Rightarrow> True"
      by blast
    then show ?thesis
      using sent inv False by (auto simp: new_calls_eq client_inv_def)
  qed
qed

text \<open>A browser whose first message is \<open>Auth:admin_\<close> on a device with an empty password.\<close>

definition ws_env :: env where
  "ws_env = ideal_env
     \<lparr>zret := (\<lambda>h c. if c = Http (WsRecvMsg 7 69 3000) then 11 else ideal_ret h c),
      zdat := (\<lambda>h c. if c = Http (WsRecvMsg 7 69 3000) then ''Auth:admin_'' else ideal_dat h c)\<rparr>"

lemma ws_env_documented: "ws_documented ws_env"
  by (simp add: ws_documented_def ws_env_def ideal_ret_def)

lemma ws_env_accepts:
  "config_data s = zero_config \<Longrightarrow>
     ws_validate_auth ws_env 7 s = (0, s\<lparr>trace := Http (WsRecvMsg 7 69 3000) # trace s\<rparr>)"
  by (simp add: ws_validate_auth_def ext_dat_def ws_env_def CREDENTIALS_MAX_LEN_def c_str_def
      snprintf_def getters zero_config_def zeros_def MAX_PW_LEN_def Let_def)

lemma ws_env_reach: "\<exists>s. ws_reach ws_env (s, Some 7) \<and> fd_of s = 7"
proof -
  define s where "s = snd (console_bridge_ws_init ws_env (reset_state []))"
  have on: "CONFIG_APP_WEB_TERMINAL_HOST_SERIAL ws_env"
    by (simp add: ws_env_def ideal_env_def)
  have s: "console_bridge_ws_init ws_env (reset_state []) = (0, s)" "config_data s = zero_config"
    "fd_of s = - 1"
    by (simp_all add: s_def console_bridge_ws_init_def on ext_ignore_eq Let_def reset_state_def)
  obtain rc t where cb: "console_ws_http_cb ws_env 7 s = (rc, t)"
    by fastforce
  have reg: "zret ws_env h (Http (SocketServiceRegister 7)) = 0" for h
    by (simp add: ws_env_def ideal_ret_def)
  have "fd_of t = 7"
    using cb by (auto simp: console_ws_http_cb_def ws_env_accepts [OF s(2)] s(3) ext_def ext_ignore_eq
        reg Let_def)
  moreover have "ws_reach ws_env (t, Some 7)"
    using ws_more [OF ws_start [OF on s(1)] ws_http [OF cb]] by (simp add: ws_env_accepts [OF s(2)])
  ultimately show ?thesis
    by blast
qed

text \<open>Another socket's event sends nothing to the host.\<close>

lemma ws_console_authenticated_witness:
  "\<exists>s. fd_of s = 7 \<and> Uart (UartTx ''x'') \<notin>
     set (new_calls s (ws_server_cb ws_env \<lparr>ev_fd = 8, POLLERR = False, POLLNVAL = False, POLLIN = True\<rparr> s))"
proof -
  obtain s where "ws_reach ws_env (s, Some 7)" and "fd_of s = 7"
    using ws_env_reach by blast
  then show ?thesis
    using ws_console_authenticated [OF _ ws_env_documented, of s "Some 7"
        "\<lparr>ev_fd = 8, POLLERR = False, POLLNVAL = False, POLLIN = True\<rparr>" "''x''"]
    by (intro exI [of _ s]) simp
qed

section \<open>Sending ends\<close>

text \<open>A socket that never takes nothing without an error.\<close>

definition ws_progress :: "env \<Rightarrow> bool" where
  "ws_progress E \<longleftrightarrow> (\<forall>h fd b w. b \<noteq> [] \<longrightarrow> zret E h (Http (WsSendMsg fd b w)) \<noteq> 0)"

lemma ws_send_loop_ends: "ws_progress E \<Longrightarrow> ws_send_loop E block buf copied s \<noteq> None"
proof (induction "length buf - copied" arbitrary: copied s rule: less_induct)
  case less
  let ?msg = "Http (WsSendMsg (fd_of s) (drop copied buf) (if block then SYS_FOREVER_MS else 0))"
  have "copied < length buf \<Longrightarrow> zret E (trace s) ?msg \<noteq> 0"
    using less.prems by (simp add: ws_progress_def)
  then show ?case
    using less.hyps [of "copied + nat (zret E (trace s) ?msg)"] less.prems
    by (subst ws_send_loop.simps) (auto simp: ext_def Let_def)
qed

text \<open>C32: The sending thread always comes back to its loop. When the websocket follows its
  documentation and every send takes something or fails, one round of the thread ends, however
  the answers of the socket fall; the jump back to \<open>again\<close> is taken at most once, since a send
  that returns a part has closed the connection.\<close>

theorem ws_round_ends:
  assumes "ws_documented E" and "ws_progress E"
  shows "\<exists>pos' s'. ws_send_round E pos s = Some (pos', s')"
proof -
  have closed: "fd_of t = - 1 \<Longrightarrow> ws_send_again E buf copied t = Some t" for buf copied t
    by (simp add: ws_send_again.simps)
  have ends: "\<exists>s'. ws_send_again E buf copied t = Some s'" for buf copied t
  proof -
    have "ws_send E (drop copied buf) True t \<noteq> None"
      using ws_send_loop_ends [OF assms(2)] by (simp add: ws_send_def)
    then obtain ret u where send: "ws_send E (drop copied buf) True t = Some (ret, u)"
      by auto
    have "fd_of u = - 1 \<or> ret < 0 \<or> \<not> copied + nat ret < length buf"
      using ws_send_result(2) [OF send assms(1)] by auto
    then show ?thesis
      by (subst ws_send_again.simps) (auto simp: send closed ext_ignore_eq)
  qed
  show ?thesis
    using ends by (auto simp: ws_send_round_def Let_def split: prod.split)
qed

text \<open>A client of a socket that takes everything.\<close>

lemma ws_round_ends_witness:
  "\<exists>s pos' s'. fd_of s = 7 \<and> ws_send_round ws_env 0 s = Some (pos', s')"
proof -
  have "ws_progress ws_env"
    by (simp add: ws_progress_def ws_env_def ideal_ret_def)
  then show ?thesis
    using ws_round_ends [OF ws_env_documented] ws_env_reach by blast
qed

end
