(* ===== verification/Console_Ws_Output.thy ===== *)
theory Console_Ws_Output
  imports Console_Bridge_Ws
begin

text \<open>
  The UART, the sending thread of the websocket and the callbacks of the HTTP server together,
  and what a websocket client gets: the console's history, then its output.
\<close>

section \<open>The system\<close>

text \<open>The UART with the firmware, the thread's position; and of the present client what its
  socket has taken, and whether the thread has ever been further behind than the log reaches.\<close>

record ws_sys =
  wdev :: uart_sys
  wpos :: "64 word"
  wgot :: bytes
  wbehind :: bool

abbreviation ws_noticed :: "bmc \<Rightarrow> bool" where
  "ws_noticed s \<equiv> fd_of s \<noteq> - 1 \<and> fresh s"

text \<open>What the sockets have taken between two states.\<close>

definition ws_taken :: "env \<Rightarrow> bmc \<Rightarrow> bmc \<Rightarrow> bytes" where
  "ws_taken E s s' = drop (length (ws_sent E (trace s))) (ws_sent E (trace s'))"

inductive ws_sys_step :: "env \<Rightarrow> ws_sys \<Rightarrow> ws_sys \<Rightarrow> bool" for E where
  wo_rest: "rx_step E (wdev t) b \<Longrightarrow>
    host_websocket (daemons (firmware b)) = host_websocket (daemons (firmware (wdev t))) \<Longrightarrow>
    ws_sys_step E t (t\<lparr>wdev := b\<rparr>)"
| wo_round: "s = firmware (wdev t) \<Longrightarrow> ws_send_round E (wpos t) s = Some (pos, s') \<Longrightarrow>
    ws_sys_step E t (t\<lparr>wdev := (wdev t)\<lparr>firmware := s'\<rparr>, wpos := pos,
      wgot := (if ws_noticed s then [] else wgot t) @ ws_taken E s s',
      wbehind :=
        ((\<not> ws_noticed s \<and> wbehind t) \<or>
         unat (if ws_noticed s then 0 else wpos t) + log_kept E \<le> length (reported_stream (wdev t)))\<rparr>)"
| wo_http: "console_ws_http_cb E fd (firmware (wdev t)) = (rc, s') \<Longrightarrow>
    ws_sys_step E t (t\<lparr>wdev := (wdev t)\<lparr>firmware := s'\<rparr>\<rparr>)"
| wo_event: "ws_sys_step E t (t\<lparr>wdev := (wdev t)\<lparr>firmware := ws_server_cb E evt (firmware (wdev t))\<rparr>\<rparr>)"

inductive_cases ws_sys_stepE: "ws_sys_step E t u"

inductive ws_sys_reach :: "env \<Rightarrow> ws_sys \<Rightarrow> bool" for E where
  wo_init: "rx_reach E b \<Longrightarrow> fd_of (firmware b) = - 1 \<Longrightarrow>
    ws_sys_reach E \<lparr>wdev = b, wpos = 0, wgot = [], wbehind = False\<rparr>"
| wo_more: "ws_sys_reach E t \<Longrightarrow> ws_sys_step E t u \<Longrightarrow> ws_sys_reach E u"

section \<open>The callbacks leave the log alone\<close>

lemma callback_logs:
  "console_ws_http_cb E fd s = (rc, s') \<Longrightarrow> host_log s' = host_log s"
  "host_log (ws_server_cb E evt s) = host_log s"
proof -
  show "console_ws_http_cb E fd s = (rc, s') \<Longrightarrow> host_log s' = host_log s"
    using ws_validate_auth_keeps [of E fd s]
    by (auto simp: console_ws_http_cb_def ws_end_client_connection_def ext_def ext_ignore_eq Let_def
        split: if_splits prod.splits)
  show "host_log (ws_server_cb E evt s) = host_log s"
    by (auto simp: ws_server_cb_def ws_recv_def ws_end_client_connection_def ext_dat_def
        ext_ignore_eq host_console_write_log Let_def)
qed

lemma callback_clients:
  "console_ws_http_cb E fd s = (rc, s') \<Longrightarrow> fd_of s' \<noteq> - 1 \<Longrightarrow>
     fresh s' \<or> fd_of s' = fd_of s \<and> fresh s' = fresh s"
  "fd_of (ws_server_cb E evt s) \<noteq> - 1 \<Longrightarrow>
     fd_of (ws_server_cb E evt s) = fd_of s \<and> fresh (ws_server_cb E evt s) = fresh s"
proof -
  show "console_ws_http_cb E fd s = (rc, s') \<Longrightarrow> fd_of s' \<noteq> - 1 \<Longrightarrow>
     fresh s' \<or> fd_of s' = fd_of s \<and> fresh s' = fresh s"
    using ws_validate_auth_keeps [of E fd s]
    by (auto simp: console_ws_http_cb_def ext_def ext_ignore_eq Let_def split: if_splits prod.splits)
  show "fd_of (ws_server_cb E evt s) \<noteq> - 1 \<Longrightarrow>
     fd_of (ws_server_cb E evt s) = fd_of s \<and> fresh (ws_server_cb E evt s) = fresh s"
    by (auto simp: ws_server_cb_def ws_recv_def ext_dat_def ext_ignore_eq ws_end_result(1)
        host_console_write_log Let_def split: if_splits)
qed

lemma ws_round_log:
  assumes "ws_send_round E pos s = Some (pos', s')" and "ws_documented E"
  shows "host_log s' = host_log s"
proof (cases "fd_of s = - 1")
  case True
  then show ?thesis
    using assms(1) by (auto simp: ws_send_round_def ext_ignore_eq)
next
  case False
  then show ?thesis
    using ws_send_round_result(3) [OF assms False] by (metis prod_cases3)
qed

lemma ws_sys_rx: "ws_sys_reach E t \<Longrightarrow> ws_documented E \<Longrightarrow> rx_reach E (wdev t)"
proof (induction rule: ws_sys_reach.induct)
  case (wo_more t u)
  from wo_more.hyps(2) wo_more.prems have "rx_step E (wdev t) (wdev u)"
    by (elim ws_sys_stepE) (auto intro!: rx_other simp: ws_round_log callback_logs)
  with wo_more.IH [OF wo_more.prems] show ?case
    by (rule rx_more)
qed simp

section \<open>What the client gets\<close>

definition ws_output_inv :: "env \<Rightarrow> ws_sys \<Rightarrow> bool" where
  "ws_output_inv E t \<longleftrightarrow>
     (fd_of (firmware (wdev t)) \<noteq> - 1 \<longrightarrow> \<not> fresh (firmware (wdev t)) \<longrightarrow>
        console.followed (wdev t) 0 (wpos t) (wgot t) \<and>
        (\<not> wbehind t \<longrightarrow> wgot t = take (unat (wpos t)) (reported_stream (wdev t))))"

lemma ws_round_inv:
  assumes "ws_output_inv E t" and "log_ok E (wdev t)" and "ws_documented E"
    and "s = firmware (wdev t)" and "ws_send_round E (wpos t) s = Some (pos, s')"
  shows "ws_output_inv E (t\<lparr>wdev := (wdev t)\<lparr>firmware := s'\<rparr>, wpos := pos,
      wgot := (if ws_noticed s then [] else wgot t) @ ws_taken E s s',
      wbehind :=
        ((\<not> ws_noticed s \<and> wbehind t) \<or>
         unat (if ws_noticed s then 0 else wpos t) + log_kept E \<le> length (reported_stream (wdev t)))\<rparr>)"
proof (cases "fd_of s = - 1")
  case True
  then have "fd_of s' = - 1"
    using assms(5) by (auto simp: ws_send_round_def ext_ignore_eq)
  then show ?thesis
    by (simp add: ws_output_inv_def)
next
  case client: False
  let ?r = "reported_stream (wdev t)"
  define p0 g where "p0 = (if fresh s then 0 else wpos t)" and "g = (if fresh s then [] else wgot t)"
  obtain ret out pos1 where read: "host_console_read 64 p0 s = (ret, out, pos1)"
    by (metis prod_cases3)
  have same: "reported_stream ((wdev t)\<lparr>firmware := s'\<rparr>) = ?r"
    by (simp add: reported_stream_def chunk_start_def)
  have fol: "console.followed (wdev t) 0 p0 g"
    using assms(1,4) client by (simp add: ws_output_inv_def p0_def g_def console.followed_def)
  note rr = console.read_result [OF assms(2) fol read [unfolded assms(4)]]
  note cl = ws_send_round_result [OF assms(5,3) client read [unfolded p0_def]]
  have sent: "ws_taken E s s' = out" if "fd_of s' \<noteq> - 1"
    using cl(6) rr(1) that by (simp add: ws_taken_def)
  have exact: "g @ out = take (unat pos1) ?r"
    if near: "fresh s \<or> \<not> wbehind t" "length ?r < unat p0 + log_kept E"
  proof -
    have "g = take (unat p0) ?r"
      using assms(1,4) client near(1) by (auto simp: ws_output_inv_def p0_def g_def)
    moreover have "take (unat pos1) ?r = take (unat p0) ?r @ out"
      using rr(4) [OF near(2)] by (metis append_eq_conv_conj append_take_drop_id take_add)
    ultimately show ?thesis
      by simp
  qed
  show ?thesis
    using rr(2) sent exact client cl(1)
    by (auto simp: ws_output_inv_def same console.followed_def p0_def g_def not_le)
qed

lemma ws_output_reach:
  assumes "ws_sys_reach E t" and "ws_documented E" and "log_sizes_ok E"
    and "length (stream (wdev t)) + CONFIG_APP_CONSOLE_LOG_SIZE E < 2 ^ 64"
  shows "ws_output_inv E t"
  using assms(1,4)
proof (induction rule: ws_sys_reach.induct)
  case (wo_init b)
  then show ?case
    by (simp add: ws_output_inv_def)
next
  case (wo_more t u)
  have rx: "rx_reach E (wdev t)"
    by (rule ws_sys_rx [OF wo_more.hyps(1) assms(2)])
  have "length (stream (wdev t)) \<le> length (stream (wdev u))"
    using wo_more.hyps(2) stream_grows by (elim ws_sys_stepE) auto
  then have bound: "length (stream (wdev t)) + CONFIG_APP_CONSOLE_LOG_SIZE E < 2 ^ 64"
    using wo_more.prems by simp
  note inv = wo_more.IH [OF bound] and ring = ring_reach [OF rx assms(3) bound]
  have same: "reported_stream ((wdev t)\<lparr>firmware := s'\<rparr>) = reported_stream (wdev t)" for s'
    by (simp add: reported_stream_def chunk_start_def)
  from wo_more.hyps(2) show ?case
  proof (cases rule: ws_sys_step.cases)
    case (wo_rest b)
    have grows: "prefix (reported_stream (wdev t)) (reported_stream b)"
      by (rule reported_grows [OF wo_rest(2) ring])
    moreover from this have "take (unat pos) (reported_stream b) = take (unat pos) (reported_stream (wdev t))"
      if "console.followed (wdev t) j pos g" for j pos g
      using that by (auto simp: prefix_def console.followed_def)
    ultimately show ?thesis
      using inv wo_rest console.followed_grow [of "wdev t" _ _ _ b] by (auto simp: ws_output_inv_def)
  next
    case (wo_round s pos s')
    have "log_ok E (wdev t)"
      using ring assms(3) bound by (simp add: log_ok_def)
    then show ?thesis
      unfolding wo_round(1) using ws_round_inv [OF inv _ assms(2) wo_round(2,3)] by blast
  next
    case (wo_http fd rc s')
    then show ?thesis
      using inv callback_clients(1) [OF wo_http(2)]
      by (auto simp: ws_output_inv_def console.followed_def same)
  next
    case (wo_event evt)
    then show ?thesis
      using inv callback_clients(2) [of E evt "firmware (wdev t)"]
      by (auto simp: ws_output_inv_def console.followed_def same)
  qed
qed


text \<open>The host prints a byte, a browser connects, and gets it.\<close>

definition ws_boot :: bmc where
  "ws_boot = snd (console_logger_init ws_env (reset_state []))"

definition ws_dev :: uart_sys where
  "ws_dev = \<lparr>firmware = uart_callback ws_env (UART_RX_RDY 1) (dma_write 0 (CHR ''A'')
       (snd (console_bridge_ws_init ws_env ws_boot))),
     bufs = [(0, 128)], fill = 1, reported = 1, stream = ''A''\<rparr>"

definition ws_joined :: bmc where
  "ws_joined = snd (console_ws_http_cb ws_env 7 (firmware ws_dev))"

lemma ws_boot_facts:
  "console_logger_init ws_env (reset_state []) = (0, ws_boot)"
  "host_log ws_boot = \<lparr>allocated = 128, received = 0, log_size = 2048, log_buffer = zeros 2048\<rparr>"
  "config_data ws_boot = zero_config"
proof -
  show init: "console_logger_init ws_env (reset_state []) = (0, ws_boot)"
    by (simp add: ws_boot_def console_logger_init_def ext_def ext_ignore_eq Let_def ws_env_def
        ideal_env_def ideal_ret_def)
  show "host_log ws_boot = \<lparr>allocated = 128, received = 0, log_size = 2048, log_buffer = zeros 2048\<rparr>"
    using console_logger_init_result [OF _ init]
    by (simp add: ws_env_def ideal_env_def UART_RX_BUF_SIZE_def)
  show "config_data ws_boot = zero_config"
    by (simp add: ws_boot_def console_logger_init_def ext_def ext_ignore_eq Let_def ws_env_def
        ideal_env_def ideal_ret_def uart_rx_start_def reset_state_def)
qed

lemma ws_init_firmware:
  "snd (console_bridge_ws_init ws_env s) =
     ws_update (\<lambda>w. \<lparr>ws_fd = - 1, ws_new_client = False\<rparr>)
       (s\<lparr>trace := Kernel (ThreadCreate ''websocket_send'') # trace s\<rparr>)"
  by (simp add: console_bridge_ws_init_def ext_ignore_eq Let_def ws_env_def ideal_env_def)

lemma ws_dev_reach: "rx_reach ws_env ws_dev"
proof -
  let ?t = "snd (console_bridge_ws_init ws_env ws_boot)"
  let ?b = "\<lambda>s. \<lparr>firmware = s, bufs = [(0, 128)], fill = 0, reported = 0, stream = []\<rparr>"
  let ?c = "(?b ?t)\<lparr>firmware := dma_write (0 + 0) (CHR ''A'') ?t, fill := Suc 0, stream := [] @ ''A''\<rparr>"
  have on: "CONFIG_APP_CONSOLE_LOGGER ws_env" and size: "UART_RX_BUF_SIZE ws_env = 128"
    by (simp_all add: UART_RX_BUF_SIZE_def ws_env_def ideal_env_def)
  then have "rx_reach ws_env (?b ws_boot)"
    using rx_init [OF on ws_boot_facts(1)] console_logger_init_result [OF on ws_boot_facts(1)] by auto
  moreover have "rx_step ws_env (?b ws_boot) (?b ?t)"
    using rx_other [of ?t "?b ws_boot" ws_env] by (simp add: ws_init_firmware)
  moreover have "rx_step ws_env (?b ?t) ?c"
    using rx_byte [of "?b ?t" 0 128 "[]" ws_env] by simp
  moreover have "rx_step ws_env ?c ws_dev"
    using rx_ready [of ?c ws_env] by (simp add: ws_dev_def)
  ultimately show ?thesis
    by (meson rx_more)
qed

lemma ws_joined_facts:
  "host_log ws_joined = \<lparr>allocated = 128, received = 1, log_size = 2048,
     log_buffer = (zeros 2048)[0 := CHR ''A'']\<rparr>"
  "fd_of ws_joined = 7" "fresh ws_joined"
proof -
  have s: "config_data (firmware ws_dev) = zero_config" "fd_of (firmware ws_dev) = - 1"
    and log: "host_log (firmware ws_dev) = \<lparr>allocated = 128, received = 1, log_size = 2048,
     log_buffer = (zeros 2048)[0 := CHR ''A'']\<rparr>"
    by (simp_all add: ws_dev_def uart_rx_ready_def dma_write_def ext_ignore_eq ws_init_firmware
        ws_boot_facts)
  have reg: "zret ws_env h (Http (SocketServiceRegister 7)) = 0" for h
    by (simp add: ws_env_def ideal_ret_def)
  show "fd_of ws_joined = 7" "fresh ws_joined" "host_log ws_joined = \<lparr>allocated = 128, received = 1,
      log_size = 2048, log_buffer = (zeros 2048)[0 := CHR ''A'']\<rparr>"
    by (simp_all add: ws_joined_def console_ws_http_cb_def ws_env_accepts [OF s(1)] s(2) ext_def
        ext_ignore_eq reg log Let_def)
qed

lemma ws_joined_round:
  "ws_send_round ws_env 0 ws_joined =
     Some (1, ws_update (\<lambda>w. w\<lparr>ws_new_client := False\<rparr>)
       (ws_joined\<lparr>trace := Http (WsSendMsg 7 ''A'' SYS_FOREVER_MS) # trace ws_joined\<rparr>))"
proof -
  have buffer: "take (Suc 0) ((zeros 2048)[0 := c]) = [c]" for c
    by (cases "zeros 2048") (auto dest: arg_cong [where f = length])
  have send: "zret ws_env h (Http (WsSendMsg fd b w)) = int (length b)" for h fd b w
    by (simp add: ws_env_def ideal_ret_def)
  have "host_console_read 64 0 s = (1, ''A'', 1)" if "host_log s = host_log ws_joined" for s
    by (simp add: read_unwrapped that ws_joined_facts buffer)
  then show ?thesis
    by (simp add: ws_send_round_def ws_joined_facts ws_send_again.simps ws_send_def ws_send_loop.simps
        ext_def send Let_def)
qed


end
