(* ===== verification/Jtag.thy ===== *)
theory Jtag
  imports Ideal_Env
begin

text \<open>
  The JTAG bridge (jtag.c): a daemon that serves one client at a time on port 7777 with
  OpenOCD's remote bitbang protocol, one byte per command, and drives four pins. The writes
  are cached: a pin is only set when its level changes. The loop over the commands of a client
  ends when the client does, so that it is a partial function.
\<close>

unbundle bit_operations_syntax

section \<open>The pins\<close>

abbreviation pins :: "bmc \<Rightarrow> jtag_pins" where
  "pins s \<equiv> jtag (daemons s)"

abbreviation pins_update :: "(jtag_pins \<Rightarrow> jtag_pins) \<Rightarrow> bmc \<Rightarrow> bmc" where
  "pins_update f s \<equiv> s\<lparr>daemons := (daemons s)\<lparr>jtag := f (pins s)\<rparr>\<rparr>"

definition set_tck :: "env \<Rightarrow> int \<Rightarrow> bmc \<Rightarrow> bmc" where
  "set_tck E state s =
     (if tck_prev (pins s) \<noteq> state
      then pins_update (\<lambda>p. p\<lparr>tck_prev := state\<rparr>) (ext_ignore E (Gpio (GpioSet TCK state)) s)
      else s)"

definition set_tms :: "env \<Rightarrow> int \<Rightarrow> bmc \<Rightarrow> bmc" where
  "set_tms E state s =
     (if tms_prev (pins s) \<noteq> state
      then pins_update (\<lambda>p. p\<lparr>tms_prev := state\<rparr>) (ext_ignore E (Gpio (GpioSet TMS state)) s)
      else s)"

definition set_tdi :: "env \<Rightarrow> int \<Rightarrow> bmc \<Rightarrow> bmc" where
  "set_tdi E state s =
     (if tdi_prev (pins s) \<noteq> state
      then pins_update (\<lambda>p. p\<lparr>tdi_prev := state\<rparr>) (ext_ignore E (Gpio (GpioSet TDI state)) s)
      else s)"

definition get_tdo :: "env \<Rightarrow> bmc \<Rightarrow> int \<times> bmc" where
  "get_tdo E s = ext E (Gpio (GpioGet TDO)) s"

definition jtag_pins_disable :: "env \<Rightarrow> bmc \<Rightarrow> bmc" where
  "jtag_pins_disable E s =
     fold (\<lambda>p. ext_ignore E (Gpio (GpioConfigure p GPIO_INPUT))) [TCK, TMS, TDI, TDO] s"

definition jtag_pins_enable :: "env \<Rightarrow> bmc \<Rightarrow> bmc" where
  "jtag_pins_enable E s =
     (let s = ext_ignore E (Gpio (GpioConfigure TCK GPIO_OUTPUT_INACTIVE)) s;
          s = ext_ignore E (Gpio (GpioConfigure TMS GPIO_OUTPUT_ACTIVE)) s;
          s = ext_ignore E (Gpio (GpioConfigure TDI GPIO_OUTPUT_INACTIVE)) s;
          s = ext_ignore E (Gpio (GpioConfigure TDO GPIO_INPUT)) s
      in pins_update (\<lambda>p. p\<lparr>tck_prev := - 1, tms_prev := - 1, tdi_prev := - 1\<rparr>) s)"

text \<open>Whether all devices are ready; the first that is not ends the question.\<close>

fun pins_ready :: "env \<Rightarrow> pin list \<Rightarrow> bmc \<Rightarrow> bool \<times> bmc" where
  "pins_ready E [] s = (True, s)"
| "pins_ready E (p # ps) s =
     (let (ready, s) = ext E (Gpio (GpioReady p)) s in
      if ready = 0 then (False, s) else pins_ready E ps s)"

definition jtag_pins_init :: "env \<Rightarrow> bmc \<Rightarrow> int \<times> bmc" where
  "jtag_pins_init E s =
     (let (ready, s) = pins_ready E [TCK, TMS, TDI, TDO] s in
      if \<not> ready then (- ENODEV, s) else (0, jtag_pins_disable E s))"

section \<open>A command\<close>

definition cmd_bits :: "byte \<Rightarrow> int" where
  "cmd_bits c = int (of_char c)"

definition is_write :: "byte \<Rightarrow> bool" where
  "is_write c \<longleftrightarrow> c \<in> set ''01234567''"

definition jtag_write :: "env \<Rightarrow> byte \<Rightarrow> bmc \<Rightarrow> bmc" where
  "jtag_write E cmd_buf s =
     (let s = ext_ignore E (Kernel IrqLock) s;
          s = set_tms E (cmd_bits cmd_buf AND 0x02) s;
          s = set_tdi E (cmd_bits cmd_buf AND 0x01) s;
          s = set_tck E (cmd_bits cmd_buf AND 0x04) s
      in ext_ignore E (Kernel IrqUnlock) s)"

definition jtag_read :: "env \<Rightarrow> int \<Rightarrow> bmc \<Rightarrow> int \<times> bmc" where
  "jtag_read E client_fd s =
     (let (tdo_val, s) = get_tdo E s;
          resp = (if tdo_val \<noteq> 0 then CHR ''1'' else CHR ''0'')
      in ext E (Sock (SockSend client_fd [resp])) s)"

text \<open>The \<open>switch\<close>: whether the client is finished, and the state. Blink, the resets, the SWD
  commands and unknown bytes do nothing.\<close>

definition jtag_command :: "env \<Rightarrow> int \<Rightarrow> byte \<Rightarrow> bmc \<Rightarrow> bool \<times> bmc" where
  "jtag_command E client_fd cmd_buf s =
     (if cmd_buf \<in> set ''bB'' then (False, s)
      else if is_write cmd_buf then (False, jtag_write E cmd_buf s)
      else if cmd_buf = CHR ''R'' then
        let (rc, s) = jtag_read E client_fd s in (rc \<le> 0, s)
      else if cmd_buf = CHR ''Q'' then (True, s)
      else if cmd_buf \<in> set ''rstu'' then (False, s)
      else if cmd_buf \<in> set ''Oocdefg'' then (False, s)
      else (False, s))"

section \<open>A client\<close>

text \<open>One round of the loop of \<open>handle_client\<close>. A successful receive has written the byte.\<close>

definition jtag_round :: "env \<Rightarrow> int \<Rightarrow> bmc \<Rightarrow> bool \<times> bmc" where
  "jtag_round E client_fd s =
     (let (rc, buf, s) = ext_dat E (Sock (SockRecv client_fd 1)) s in
      if rc \<le> 0 then (True, s) else jtag_command E client_fd (hd (buf @ [NUL])) s)"

partial_function (option) jtag_client_loop :: "env \<Rightarrow> int \<Rightarrow> bmc \<Rightarrow> bmc option" where
  "jtag_client_loop E client_fd s =
     (let r = jtag_round E client_fd s in
      if fst r then Some (snd r) else jtag_client_loop E client_fd (snd r))"

definition jtag_handle_client :: "env \<Rightarrow> int \<Rightarrow> bmc \<Rightarrow> bmc option" where
  "jtag_handle_client E client_fd s =
     (let s = ext_ignore E (Sock (SockSetopt client_fd)) s;
          s = jtag_pins_enable E s
      in map_option (jtag_pins_disable E) (jtag_client_loop E client_fd s))"

section \<open>The daemon\<close>

definition JTAG_PORT :: nat where "JTAG_PORT = 7777"

text \<open>The daemon's thread up to its loop; None where it gives up.\<close>

definition jtag_listen :: "env \<Rightarrow> bmc \<Rightarrow> int option \<times> bmc" where
  "jtag_listen E s =
     (let (rc, s) = jtag_pins_init E s in
      if rc \<noteq> 0 then (None, s)
      else
        let (server_fd, s) = ext E (Sock SockSocket) s in
        if server_fd < 0 then (None, s)
        else
          let (rc, s) = ext E (Sock (SockBind server_fd JTAG_PORT)) s in
          if rc < 0 then (None, ext_ignore E (Sock (SockClose server_fd)) s)
          else
            let (rc, s) = ext E (Sock (SockListen server_fd 1)) s in
            if rc < 0 then (None, ext_ignore E (Sock (SockClose server_fd)) s)
            else (Some server_fd, s))"

text \<open>One round of its loop.\<close>

definition jtag_accept :: "env \<Rightarrow> int \<Rightarrow> bmc \<Rightarrow> bmc option" where
  "jtag_accept E server_fd s =
     (let (client_fd, s) = ext E (Sock (SockAccept server_fd)) s in
      if client_fd < 0 then Some s
      else map_option (ext_ignore E (Sock (SockClose client_fd))) (jtag_handle_client E client_fd s))"

definition jtag_init :: "env \<Rightarrow> bmc \<Rightarrow> int \<times> bmc" where
  "jtag_init E s =
     (if \<not> CONFIG_JTAG E then (0, s)
      else (0, ext_ignore E (Kernel (ThreadCreate ''jtag_daemon'')) s))"

section \<open>What the pins see\<close>

text \<open>The level of a pin after a history; None while it is not driven.\<close>

fun level :: "call list \<Rightarrow> pin \<Rightarrow> bool option" where
  "level [] p = None"
| "level (c # h) p =
     (case c of
        Gpio (GpioConfigure q f) \<Rightarrow>
          if q = p
          then (case f of GPIO_INPUT \<Rightarrow> None | GPIO_OUTPUT_INACTIVE \<Rightarrow> Some False
                | GPIO_OUTPUT_ACTIVE \<Rightarrow> Some True)
          else level h p
      | Gpio (GpioSet q v) \<Rightarrow>
          if q = p \<and> level h p \<noteq> None then Some (v \<noteq> 0) else level h p
      | _ \<Rightarrow> level h p)"

type_synonym levels = "bool option \<times> bool option \<times> bool option"

definition levels :: "call list \<Rightarrow> levels" where
  "levels h = (level h TCK, level h TMS, level h TDI)"

text \<open>The levels of TCK, TMS and TDI after every call, latest first.\<close>

fun wave :: "call list \<Rightarrow> levels list" where
  "wave [] = [levels []]"
| "wave (c # h) = levels (c # h) # wave h"

text \<open>The reference: a command without a cache. A digit sets TMS to bit 1, TDI to bit 0 and
  then TCK to bit 2; nothing else touches the pins.\<close>

definition ref_command :: "byte \<Rightarrow> levels list \<Rightarrow> levels list" where
  "ref_command c w =
     (if is_write c then
        let (tck, tms, tdi) = hd w; n = of_char c :: nat; tms' = Some (bit n 1);
            tdi' = Some (bit n 0); tck' = Some (bit n 2)
        in (tck', tms', tdi') # (tck, tms', tdi') # (tck, tms', tdi) # w
      else w)"

text \<open>What is cached is what is on the pin: a cached value is one of the bit's two, or unknown.\<close>

definition cached :: "int \<Rightarrow> int set \<Rightarrow> bool option \<Rightarrow> bool" where
  "cached prev values l \<longleftrightarrow> l \<noteq> None \<and> (prev = - 1 \<or> prev \<in> values \<and> l = Some (prev \<noteq> 0))"

definition cache_ok :: "bmc \<Rightarrow> bool" where
  "cache_ok s \<longleftrightarrow> cached (tck_prev (pins s)) {0, 4} (level (trace s) TCK) \<and>
     cached (tms_prev (pins s)) {0, 2} (level (trace s) TMS) \<and>
     cached (tdi_prev (pins s)) {0, 1} (level (trace s) TDI)"

section \<open>Caching cannot be seen on the pins\<close>

lemma wave_hd: "\<exists>w. wave h = levels h # w"
  by (cases h) simp_all

lemma wave_again: "remdups_adj (levels h # wave h) = remdups_adj (wave h)"
  using wave_hd [of h] by auto

lemma remdups_adj_same: "remdups_adj v = remdups_adj w \<Longrightarrow> remdups_adj (x # v) = remdups_adj (x # w)"
  by (simp add: remdups_adj_Cons)

text \<open>A write to one pin: the cache stays right, and the pins show one new level at most.\<close>

lemma level_set:
  "level h p \<noteq> None \<Longrightarrow> level (Gpio (GpioSet p v) # h) q = (if q = p then Some (v \<noteq> 0) else level h q)"
  by simp

lemma cached_levels:
  "0 \<le> v \<Longrightarrow> cached v values l \<Longrightarrow> l = Some (v \<noteq> 0)"
  "v \<in> values \<Longrightarrow> cached v values (Some (v \<noteq> 0))"
  by (auto simp: cached_def)

lemma cached_driven: "cached prev values l \<Longrightarrow> \<exists>x. l = Some x"
  by (auto simp: cached_def)

lemma set_tms_effect:
  assumes "cache_ok s" and "v \<in> {0, 2}"
  shows "cache_ok (set_tms E v s) \<and>
    levels (trace (set_tms E v s)) = (level (trace s) TCK, Some (v \<noteq> 0), level (trace s) TDI) \<and>
    remdups_adj (wave (trace (set_tms E v s))) =
      remdups_adj ((level (trace s) TCK, Some (v \<noteq> 0), level (trace s) TDI) # wave (trace s))"
  using assms wave_again [of "trace s"] cached_levels [of v "{0, 2}"]
  by (cases "tms_prev (pins s) = v")
    (auto simp: set_tms_def cache_ok_def levels_def ext_ignore_eq level_set dest: cached_driven)

lemma set_tdi_effect:
  assumes "cache_ok s" and "v \<in> {0, 1}"
  shows "cache_ok (set_tdi E v s) \<and>
    levels (trace (set_tdi E v s)) = (level (trace s) TCK, level (trace s) TMS, Some (v \<noteq> 0)) \<and>
    remdups_adj (wave (trace (set_tdi E v s))) =
      remdups_adj ((level (trace s) TCK, level (trace s) TMS, Some (v \<noteq> 0)) # wave (trace s))"
  using assms wave_again [of "trace s"] cached_levels [of v "{0, 1}"]
  by (cases "tdi_prev (pins s) = v")
    (auto simp: set_tdi_def cache_ok_def levels_def ext_ignore_eq level_set dest: cached_driven)

lemma set_tck_effect:
  assumes "cache_ok s" and "v \<in> {0, 4}"
  shows "cache_ok (set_tck E v s) \<and>
    levels (trace (set_tck E v s)) = (Some (v \<noteq> 0), level (trace s) TMS, level (trace s) TDI) \<and>
    remdups_adj (wave (trace (set_tck E v s))) =
      remdups_adj ((Some (v \<noteq> 0), level (trace s) TMS, level (trace s) TDI) # wave (trace s))"
  using assms wave_again [of "trace s"] cached_levels [of v "{0, 4}"]
  by (cases "tck_prev (pins s) = v")
    (auto simp: set_tck_def cache_ok_def levels_def ext_ignore_eq level_set dest: cached_driven)

text \<open>A call that does not concern the pins.\<close>

definition off_pins :: "call \<Rightarrow> bool" where
  "off_pins c \<longleftrightarrow> (\<forall>p \<in> {TCK, TMS, TDI, TDO}. \<forall>f v. c \<noteq> Gpio (GpioConfigure p f) \<and> c \<noteq> Gpio (GpioSet p v))"

lemma off_pins_level: "off_pins c \<Longrightarrow> p \<in> {TCK, TMS, TDI, TDO} \<Longrightarrow> level (c # h) p = level h p"
  by (auto simp: off_pins_def split: call.split gpio_call.split)

lemma off_pins_effect:
  assumes "off_pins c"
  shows "levels (c # h) = levels h" and "remdups_adj (wave (c # h)) = remdups_adj (wave h)"
proof -
  show "levels (c # h) = levels h"
    using assms by (simp add: levels_def off_pins_level del: level.simps)
  then show "remdups_adj (wave (c # h)) = remdups_adj (wave h)"
    using wave_again by simp
qed

lemma off_pins_simps [simp]:
  "off_pins (Kernel x)" "off_pins (Sock y)" "off_pins (Gpio (GpioGet p))"
  by (simp_all add: off_pins_def)

lemma cache_ok_call: "off_pins c \<Longrightarrow> cache_ok (s\<lparr>trace := c # trace s\<rparr>) = cache_ok s"
  by (simp add: cache_ok_def off_pins_level del: level.simps)

lemma cmd_bits_values:
  assumes "is_write c"
  shows "cmd_bits c AND 2 = (if bit (of_char c :: nat) 1 then 2 else 0)"
    and "cmd_bits c AND 1 = (if bit (of_char c :: nat) 0 then 1 else 0)"
    and "cmd_bits c AND 4 = (if bit (of_char c :: nat) 2 then 4 else 0)"
  using assms by (auto simp: is_write_def cmd_bits_def bit_iff_odd)

lemma jtag_write_effect:
  assumes "cache_ok s" and "is_write c"
  shows "cache_ok (jtag_write E c s)"
    and "remdups_adj (wave (trace (jtag_write E c s))) = remdups_adj (ref_command c (wave (trace s)))"
proof -
  let ?m = "cmd_bits c AND 2" and ?d = "cmd_bits c AND 1" and ?k = "cmd_bits c AND 4"
  define s0 s1 s2 s3 where "s0 = s\<lparr>trace := Kernel IrqLock # trace s\<rparr>" and "s1 = set_tms E ?m s0"
    and "s2 = set_tdi E ?d s1" and "s3 = set_tck E ?k s2"
  have v: "?m \<in> {0, 2}" "?d \<in> {0, 1}" "?k \<in> {0, 4}"
    "?m \<noteq> 0 \<longleftrightarrow> bit (of_char c :: nat) 1" "?d \<noteq> 0 \<longleftrightarrow> bit (of_char c :: nat) 0"
    "?k \<noteq> 0 \<longleftrightarrow> bit (of_char c :: nat) 2"
    using cmd_bits_values [OF assms(2)] by simp_all
  have 0: "cache_ok s0" "levels (trace s0) = levels (trace s)"
    "remdups_adj (wave (trace s0)) = remdups_adj (wave (trace s))"
    using assms(1) by (simp_all add: s0_def cache_ok_call off_pins_effect del: wave.simps)
  note 1 = set_tms_effect [OF 0(1) v(1), of E, folded s1_def]
  note 2 = set_tdi_effect [OF conjunct1 [OF 1] v(2), of E, folded s2_def]
  note 3 = set_tck_effect [OF conjunct1 [OF 2] v(3), of E, folded s3_def]
  have all: "jtag_write E c s = s3\<lparr>trace := Kernel IrqUnlock # trace s3\<rparr>"
    by (simp add: jtag_write_def ext_ignore_eq s0_def s1_def s2_def s3_def Let_def)
  then show "cache_ok (jtag_write E c s)"
    using 3 by (simp add: cache_ok_call)
  have "remdups_adj (wave (trace (jtag_write E c s))) = remdups_adj (wave (trace s3))"
    by (simp add: all off_pins_effect del: wave.simps)
  also have "\<dots> = remdups_adj ((Some (?k \<noteq> 0), Some (?m \<noteq> 0), Some (?d \<noteq> 0)) #
      (level (trace s) TCK, Some (?m \<noteq> 0), Some (?d \<noteq> 0)) #
      (level (trace s) TCK, Some (?m \<noteq> 0), level (trace s) TDI) # wave (trace s))"
    using 0 1 2 3 by (simp add: levels_def remdups_adj_Cons)
  also have "\<dots> = remdups_adj (ref_command c (wave (trace s)))"
    using wave_hd [of "trace s"] assms(2) by (auto simp: ref_command_def levels_def v(4-6) Let_def)
  finally show "remdups_adj (wave (trace (jtag_write E c s))) = remdups_adj (ref_command c (wave (trace s)))" .
qed

lemma jtag_read_effect:
  assumes "cache_ok s"
  shows "cache_ok (snd (jtag_read E fd s))"
    and "remdups_adj (wave (trace (snd (jtag_read E fd s)))) = remdups_adj (wave (trace s))"
  using assms off_pins_effect(2) [of "Gpio (GpioGet TDO)"] off_pins_effect(2) [of "Sock _"]
  by (simp_all add: jtag_read_def get_tdo_def ext_def cache_ok_def off_pins_level Let_def
      del: wave.simps level.simps)

lemma jtag_command_effect:
  assumes "cache_ok s"
  shows "cache_ok (snd (jtag_command E fd c s)) \<and>
    remdups_adj (wave (trace (snd (jtag_command E fd c s)))) =
      remdups_adj (ref_command c (wave (trace s)))"
proof (cases "is_write c")
  case True
  then have "c \<notin> set ''bB''"
    by (auto simp: is_write_def)
  then show ?thesis
    using jtag_write_effect [OF assms True] True by (simp add: jtag_command_def)
next
  case False
  then show ?thesis
    using assms jtag_read_effect [OF assms, of E fd]
    by (auto simp: jtag_command_def ref_command_def split: prod.splits)
qed

lemma ref_command_same:
  assumes "remdups_adj v = remdups_adj w" and "v \<noteq> []"
  shows "remdups_adj (ref_command c v) = remdups_adj (ref_command c w)" and "ref_command c v \<noteq> []"
proof -
  have "hd v = hd w"
    using assms by (metis hd_remdups_adj remdups_adj_Nil_iff)
  then show "remdups_adj (ref_command c v) = remdups_adj (ref_command c w)"
    using assms(1) by (simp add: ref_command_def Let_def remdups_adj_Cons split: prod.split)
  show "ref_command c v \<noteq> []"
    using assms(2) by (simp add: ref_command_def Let_def split: prod.split)
qed

lemma commands_effect:
  assumes "cache_ok s"
  shows "remdups_adj (wave (trace (foldl (\<lambda>s c. snd (jtag_command E fd c s)) s cs))) =
    remdups_adj (foldl (\<lambda>w c. ref_command c w) (wave (trace s)) cs)"
proof -
  have "remdups_adj (wave (trace (foldl (\<lambda>s c. snd (jtag_command E fd c s)) s cs))) =
      remdups_adj (foldl (\<lambda>w c. ref_command c w) w cs)"
    if "cache_ok s" and "remdups_adj (wave (trace s)) = remdups_adj w" and "w \<noteq> []" for s w
    using that
  proof (induction cs arbitrary: s w)
    case (Cons c cs)
    have "remdups_adj (wave (trace (snd (jtag_command E fd c s)))) = remdups_adj (ref_command c w)"
      using jtag_command_effect [OF Cons.prems(1), of E fd c] ref_command_same(1) Cons.prems(2,3)
        wave_hd [of "trace s"] by (metis list.distinct(1))
    then show ?case
      using Cons.IH [of "snd (jtag_command E fd c s)" "ref_command c w"]
        jtag_command_effect [OF Cons.prems(1), of E fd c] ref_command_same(2) [OF refl Cons.prems(3)]
      by simp
  qed simp
  then show ?thesis
    using assms wave_hd [of "trace s"] by (metis list.distinct(1))
qed

lemma jtag_pins_enable_effect:
  "cache_ok (jtag_pins_enable E s)"
  "levels (trace (jtag_pins_enable E s)) = (Some False, Some True, Some False)"
  by (simp_all add: jtag_pins_enable_def cache_ok_def cached_def levels_def ext_ignore_eq Let_def)

text \<open>C10: The cache of the JTAG levels cannot be observed. From the moment a client's session
  has enabled the pins, with TCK and TDI low and TMS high, the sequence of levels on TCK, TMS
  and TDI under any commands is, up to repetitions, that of an implementation without a cache:
  each digit sets TMS to its bit 1, then TDI to its bit 0 and TCK to its bit 2 last, and no
  other command moves a pin.\<close>

theorem jtag_waveform:
  "let s0 = jtag_pins_enable E s; s' = foldl (\<lambda>s c. snd (jtag_command E fd c s)) s0 cs
   in levels (trace s0) = (Some False, Some True, Some False) \<and>
      remdups_adj (wave (trace s')) =
        remdups_adj (foldl (\<lambda>w c. ref_command c w) (wave (trace s0)) cs)"
  by (simp add: Let_def jtag_pins_enable_effect commands_effect)

section \<open>A session ends\<close>

definition received_by :: "int \<Rightarrow> call list \<Rightarrow> nat" where
  "received_by fd h = length (filter (\<lambda>c. c = Sock (SockRecv fd 1)) h)"

text \<open>A client that sends less than \<open>n\<close> bytes and then closes, or fails.\<close>

definition ends_within :: "env \<Rightarrow> int \<Rightarrow> nat \<Rightarrow> bool" where
  "ends_within E fd n \<longleftrightarrow> (\<forall>h. n \<le> received_by fd h \<longrightarrow> zret E h (Sock (SockRecv fd 1)) \<le> 0)"

lemma jtag_command_recv:
  "received_by g (trace (snd (jtag_command E fd c s))) = received_by g (trace s)"
  by (auto simp: jtag_command_def jtag_write_def jtag_read_def get_tdo_def set_tms_def set_tdi_def
      set_tck_def ext_def ext_ignore_eq received_by_def Let_def split: prod.split)

lemma jtag_round_recv:
  "received_by fd (trace (snd (jtag_round E fd s))) = Suc (received_by fd (trace s))"
  by (auto simp: jtag_round_def ext_dat_def jtag_command_recv Let_def) (simp_all add: received_by_def)

lemma jtag_client_loop_ends:
  assumes "ends_within E fd n"
  shows "\<exists>s'. jtag_client_loop E fd s = Some s' \<and>
    received_by fd (trace s') \<le> Suc (max n (received_by fd (trace s)))"
proof (induction "n - received_by fd (trace s)" arbitrary: s rule: less_induct)
  case less
  show ?case
  proof (cases "fst (jtag_round E fd s)")
    case True
    then show ?thesis
      using jtag_round_recv [of fd E s] by (subst jtag_client_loop.simps) (simp add: Let_def)
  next
    case False
    then have "0 < zret E (trace s) (Sock (SockRecv fd 1))"
      by (auto simp: jtag_round_def ext_dat_def split: if_splits)
    then have "received_by fd (trace s) < n"
      using assms by (force simp: ends_within_def not_le [symmetric])
    then have "n - received_by fd (trace (snd (jtag_round E fd s))) < n - received_by fd (trace s)"
      by (simp add: jtag_round_recv)
    from less [OF this] obtain s' where "jtag_client_loop E fd (snd (jtag_round E fd s)) = Some s'"
      and "received_by fd (trace s') \<le> Suc (max n (received_by fd (trace (snd (jtag_round E fd s)))))"
      by blast
    then show ?thesis
      using False \<open>received_by fd (trace s) < n\<close> jtag_round_recv [of fd E s]
      by (subst jtag_client_loop.simps) (simp add: Let_def)
  qed
qed

lemma jtag_pins_disable_released:
  "p \<in> {TCK, TMS, TDI, TDO} \<Longrightarrow> level (trace (jtag_pins_disable E s)) p = None"
  by (auto simp: jtag_pins_disable_def ext_ignore_eq)

text \<open>C24: A JTAG session ends with its client. When the client sends less than \<open>n\<close> bytes and
  then closes the connection or fails, whatever the bytes and whenever it does so,
  \<open>handle_client\<close> returns, after at most \<open>n + 1\<close> receives, and all four pins are released.\<close>

theorem jtag_session_ends:
  assumes "ends_within E fd n" and "received_by fd (trace s) = 0"
  shows "\<exists>s'. jtag_handle_client E fd s = Some s' \<and> received_by fd (trace s') \<le> Suc n \<and>
    list_all (\<lambda>p. level (trace s') p = None) [TCK, TMS, TDI, TDO]"
proof -
  let ?s = "jtag_pins_enable E (ext_ignore E (Sock (SockSetopt fd)) s)"
  have none: "received_by fd (trace ?s) = 0"
    using assms(2) by (simp add: jtag_pins_enable_def ext_ignore_eq received_by_def Let_def)
  obtain t where t: "jtag_client_loop E fd ?s = Some t" "received_by fd (trace t) \<le> Suc n"
    using jtag_client_loop_ends [OF assms(1), of ?s] none by auto
  have "received_by fd (trace (jtag_pins_disable E t)) = received_by fd (trace t)"
    by (simp add: jtag_pins_disable_def ext_ignore_eq received_by_def)
  then show ?thesis
    using t jtag_pins_disable_released [of _ E t] by (simp add: jtag_handle_client_def Let_def)
qed

text \<open>A client that closes at once.\<close>

lemma jtag_session_ends_witness:
  "\<exists>s'. jtag_handle_client ideal_env 5 (reset_state []) = Some s' \<and> received_by 5 (trace s') \<le> 1"
proof -
  have "ends_within ideal_env 5 0"
    by (simp add: ends_within_def ideal_env_def ideal_ret_def)
  then show ?thesis
    using jtag_session_ends [of ideal_env 5 0 "reset_state []"]
    by (auto simp: received_by_def reset_state_def)
qed

section \<open>Between the sessions\<close>

text \<open>The daemon after it has started to listen, after each round of its loop, and with the rest
  of the firmware at work, which does not touch the pins.\<close>

inductive jtag_idle :: "env \<Rightarrow> bmc \<Rightarrow> bool" for E where
  idle_start: "jtag_listen E s = (Some server_fd, s') \<Longrightarrow> jtag_idle E s'"
| idle_round: "jtag_idle E s \<Longrightarrow> jtag_accept E server_fd s = Some s' \<Longrightarrow> jtag_idle E s'"
| idle_rest: "jtag_idle E s \<Longrightarrow> trace s' = cs @ trace s \<Longrightarrow> \<forall>c \<in> set cs. off_pins c \<Longrightarrow> jtag_idle E s'"

text \<open>C25: Without a client the JTAG pins are not driven. Once the daemon listens, at every
  moment between its sessions TCK, TMS, TDI and TDO are inputs, whatever clients have done and
  however their connections ended, and whatever the rest of the firmware does.\<close>

theorem jtag_released:
  assumes "jtag_idle E s"
  shows "list_all (\<lambda>p. level (trace s) p = None) [TCK, TMS, TDI, TDO]"
proof -
  have "level (trace s) p = None" if p: "p \<in> {TCK, TMS, TDI, TDO}" for p
    using assms
  proof (induction rule: jtag_idle.induct)
    case (idle_start s server_fd s')
    then show ?case
      using jtag_pins_disable_released [OF p]
      by (auto simp: jtag_listen_def jtag_pins_init_def ext_def ext_ignore_eq Let_def
          split: if_splits prod.splits)
  next
    case (idle_round s server_fd s')
    then show ?case
      using jtag_pins_disable_released [OF p]
      by (auto simp: jtag_accept_def jtag_handle_client_def ext_def ext_ignore_eq Let_def
          split: if_splits)
  next
    case (idle_rest s s' cs)
    have "level (cs @ trace s) p = level (trace s) p"
      using idle_rest.hyps(3) p by (induction cs) (simp_all add: off_pins_level del: level.simps)
    then show ?case
      using idle_rest by simp
  qed
  then show ?thesis
    by simp
qed

text \<open>A daemon that listens, and has served a client that closed at once.\<close>

lemma jtag_released_witness:
  "\<exists>s0 s. jtag_accept ideal_env 0 s0 = Some s \<and> jtag_idle ideal_env s \<and> level (trace s) TMS = None"
proof -
  obtain s0 where start: "jtag_idle ideal_env s0" and fresh: "received_by 0 (trace s0) = 0"
  proof
    let ?r = "jtag_listen ideal_env (reset_state [])"
    have "fst ?r = Some 0" and rest: "received_by 0 (trace (snd ?r)) = 0"
      by (simp_all add: jtag_listen_def jtag_pins_init_def jtag_pins_disable_def ext_def ext_ignore_eq
          ideal_env_def ideal_ret_def received_by_def reset_state_def)
    then show "jtag_idle ideal_env (snd ?r)"
      using idle_start [of ideal_env "reset_state []" 0 "snd ?r"] by (metis prod.collapse)
    show "received_by 0 (trace (snd ?r)) = 0"
      by (rule rest)
  qed
  let ?s1 = "s0\<lparr>trace := Sock (SockAccept 0) # trace s0\<rparr>"
  have "ends_within ideal_env 0 0" and acc: "zret ideal_env h (Sock (SockAccept 0)) = 0" for h
    by (simp_all add: ends_within_def ideal_env_def ideal_ret_def)
  then obtain t where "jtag_client_loop ideal_env 0
      (jtag_pins_enable ideal_env (ext_ignore ideal_env (Sock (SockSetopt 0)) ?s1)) = Some t"
    using jtag_client_loop_ends by blast
  then obtain s where s: "jtag_accept ideal_env 0 s0 = Some s"
    by (simp add: jtag_accept_def jtag_handle_client_def ext_def acc)
  then show ?thesis
    using idle_round [OF start s] jtag_released [OF idle_round [OF start s]] by auto
qed

end
