(* ===== verification/Boot.thy ===== *)
theory Boot
  imports Config_Shell Host_Power Button Sensors_Vpd Redfish_Actions Console_Ws_Output Jtag
begin

text \<open>
  Starting the firmware (main.c): \<open>main\<close> runs the initialisation of every component in order.
  This is where the components meet: the states from which the step relations of the console,
  of the websockets and of the settings start are the state \<open>main\<close> leaves behind. Also the
  greeting on the console and the animation of the shell.
\<close>

section \<open>Printing\<close>

text \<open>\<open>%*s\<close> with an empty string\<close>

definition indent :: "nat \<Rightarrow> bytes \<Rightarrow> bytes" where
  "indent pad line = replicate pad (CHR '' '') @ line"

abbreviation bslash :: bytes where
  "bslash \<equiv> [CHR 0x5C]"

abbreviation apos :: bytes where
  "apos \<equiv> [CHR 0x27]"

definition print_banner :: "env \<Rightarrow> bmc \<Rightarrow> bmc" where
  "print_banner E s =
     (let pad = 20;
          s = ext_ignore E (Kernel (Printk [])) s
      in fold (\<lambda>line. ext_ignore E (Kernel (Printk (indent pad line))))
        [''    +---------------------+'',
         ''    | Welcome to WallaBMC |'',
         ''    +---------------------+'',
         ''                 '' @ bslash,
         ''                   '' @ bslash @ ''     /)'',
         ''                      <.'' @ apos @ '' '' @ bslash @ ''_'',
         ''                        / ( )'' @ bslash,
         ''                        __|/  '' @ bslash @ ''__'',
         ''.,.,.,,,..,,.,.,.,.,..,,.,.,.,,.,..,,.,.,.,.''] s)"

definition wallaby_ground :: "bytes list" where
  "wallaby_ground =
     ['''', '''', '''',
      ''             /)'',
      ''          <.'' @ apos @ '' '' @ bslash @ ''_'',
      ''            / ( )'' @ bslash,
      ''            __|/  '' @ bslash @ ''__'']"

definition wallaby_air :: "bytes list" where
  "wallaby_air =
     [''             /)'',
      ''          <.'' @ apos @ '' '' @ bslash @ ''_'',
      ''            / ( )'' @ bslash,
      ''            |/  '' @ bslash,
      ''            /     '' @ bslash,
      '''', '''']"

definition hop_frame :: "env \<Rightarrow> nat \<Rightarrow> bmc \<Rightarrow> bmc" where
  "hop_frame E pos s =
     (let s = ext_ignore E (Kernel (ShellPrint (CHR 0x1B # ''[2J'' @ CHR 0x1B # ''[H''))) s;
          in_air = ((pos div 8) mod 2 \<noteq> 0);
          current_frame = (if in_air then wallaby_air else wallaby_ground);
          s = fold (\<lambda>line. ext_ignore E (Kernel (ShellPrint (indent pos line)))) current_frame s;
          s = ext_ignore E (Kernel (ShellPrint (replicate 82 (CHR ''-'')))) s
      in ext_ignore E (Kernel (KMsleep 120)) s)"

text \<open>The loop over the position, which the code keeps in a signed number.\<close>

function hop_positions :: "env \<Rightarrow> int \<Rightarrow> bmc \<Rightarrow> bmc" where
  "hop_positions E pos s =
     (if pos > 0 then hop_positions E (pos - 4) (hop_frame E (nat pos) s) else s)"
  by pat_completeness auto
termination
  by (relation "measure (\<lambda>(E, pos, s). nat pos)") auto

declare hop_positions.simps [simp del]

definition cmd_hop :: "env \<Rightarrow> bmc \<Rightarrow> int \<times> bmc" where
  "cmd_hop E s =
     (let max_pos = 60; num_hops = 4 :: nat;
          s = ext_ignore E (Kernel (ShellPrint [CHR 0x0A])) s;
          s = ((hop_positions E max_pos) ^^ num_hops) s;
          s = ext_ignore E (Kernel (ShellPrint [CHR 0x0A])) s
      in (0, s))"

lemma cmd_hop_io: "(\<And>line. P (Kernel (ShellPrint line))) \<Longrightarrow> P (Kernel (KMsleep 120)) \<Longrightarrow> only_io P s (snd (cmd_hop E s))"
proof -
  assume P: "\<And>line. P (Kernel (ShellPrint line))" "P (Kernel (KMsleep 120))"
  have frame: "only_io P s t \<Longrightarrow> only_io P s (hop_frame E n t)" for E n t
    using P by (auto simp: hop_frame_def Let_def intro!: io_intro)
  have positions: "only_io P s t \<Longrightarrow> only_io P s (hop_positions E p t)" for p t
    by (induction E p t rule: hop_positions.induct) (subst hop_positions.simps, auto simp: frame)
  have hops: "only_io P s t \<Longrightarrow> only_io P s ((hop_positions E 60 ^^ n) t)" for n t
    by (induction n) (auto intro: positions)
  show ?thesis
    using P by (auto simp: cmd_hop_def Let_def intro!: io_intro hops)
qed

section \<open>Starting up\<close>

text \<open>\<open>if (x_init() < 0) return -1;\<close> for each of a list, in order.\<close>

fun run_inits :: "(bmc \<Rightarrow> int \<times> bmc) list \<Rightarrow> bmc \<Rightarrow> int \<times> bmc" where
  "run_inits [] s = (0, s)"
| "run_inits (f # fs) s = (let (rc, s) = f s in if rc < 0 then (- 1, s) else run_inits fs s)"

text \<open>An initialisation whose failure is only logged.\<close>

definition or_continue :: "(bmc \<Rightarrow> int \<times> bmc) \<Rightarrow> bmc \<Rightarrow> int \<times> bmc" where
  "or_continue f s = (0, snd (f s))"

text \<open>The calls of \<open>main\<close>, up to JTAG, and from the web server on.\<close>

definition board_inits :: "env \<Rightarrow> (bmc \<Rightarrow> int \<times> bmc) list" where
  "board_inits E =
     [rtc_init E, vpd_init E, or_continue (fs_init E), config_init E, or_continue (button_init E),
      net_init E, power_init E, reset_init E, status_led_init E, jtag_init E]"

definition service_inits :: "env \<Rightarrow> (bmc \<Rightarrow> int \<times> bmc) list" where
  "service_inits E =
     [app_http_server_init E, console_logger_init E, console_bridge_init E, console_bridge_ws_init E]"

definition main :: "env \<Rightarrow> bmc \<Rightarrow> int \<times> bmc" where
  "main E s =
     (let s = print_banner E s;
          (rc, s) = run_inits (board_inits E @ service_inits E) s
      in if rc < 0 then (- 1, s) else (0, s\<lparr>boot_finished := True\<rparr>))"

section \<open>What initialisation changes\<close>

text \<open>An operation that leaves a part of the state alone, whether it succeeds or not.\<close>

definition keeps :: "(bmc \<Rightarrow> 'a) \<Rightarrow> (bmc \<Rightarrow> int \<times> bmc) \<Rightarrow> bool" where
  "keeps part f \<longleftrightarrow> (\<forall>s. part (snd (f s)) = part s)"

lemma run_inits_append:
  "run_inits (fs @ gs) s =
     (let (rc, t) = run_inits fs s in if rc < 0 then (rc, t) else run_inits gs t)"
  by (induction fs arbitrary: s) (auto split: prod.splits)

lemma run_inits_result: "fst (run_inits fs s) \<in> {0, - 1}"
  by (induction fs arbitrary: s) (auto split: prod.splits)

lemma run_inits_keep: "list_all (keeps part) fs \<Longrightarrow> part (snd (run_inits fs s)) = part s"
proof (induction fs arbitrary: s)
  case (Cons f fs)
  then have "part (snd (f s)) = part s"
    by (simp add: keeps_def)
  then show ?case
    using Cons by (cases "f s") simp
qed simp

text \<open>The contract of the steps of the start before the web server, and of those that leave the
  settings alone, too.\<close>

locale board_init =
  fixes f :: "bmc \<Rightarrow> int \<times> bmc"
  assumes daemons: "daemons (snd (f s)) = daemons s"
    and finished: "boot_finished (snd (f s)) = boot_finished s"
begin

lemma keeps: "keeps daemons f" "keeps boot_finished f"
  by (simp_all add: keeps_def daemons finished)

end

locale device_init = board_init +
  assumes config: "config_data (snd (f s)) = config_data s"
begin

lemma keeps_config: "keeps config_data f"
  by (simp add: keeps_def config)

end

lemma device_init_io: "(\<And>s. only_io any_call s (snd (f s))) \<Longrightarrow> device_init f"
  using only_io_fields(2,8,10) by unfold_locales metis+

interpretation rtc: device_init "rtc_init E" for E
  by (rule device_init_io) (auto intro!: io_intro)

interpretation button: device_init "or_continue (button_init E)" for E
  by (rule device_init_io) (auto simp: or_continue_def button_init_def Let_def intro!: io_intro)

interpretation reset: device_init "reset_init E" for E
  by (rule device_init_io) (auto intro!: io_intro)

interpretation status_led: device_init "status_led_init E" for E
  by (rule device_init_io) (auto intro!: io_intro)

interpretation jtag_daemon: device_init "jtag_init E" for E
  by (rule device_init_io) (auto simp: jtag_init_def intro!: io_intro)

interpretation vpd: device_init "vpd_init E" for E
  by unfold_locales (auto simp: vpd_init_def ext_dat_def split: sum.split prod.split)

interpretation storage: board_init "or_continue (fs_init E)" for E
  by unfold_locales (auto simp: or_continue_def fs_init_def mount_fs_def ext_def ext_dat_def Let_def)

lemma config_write_raw_keeps:
  "daemons (snd (config_write_raw E i b s)) = daemons s"
  "boot_finished (snd (config_write_raw E i b s)) = boot_finished s"
  using only_io_fields(8,10) [OF cfg.wr_io [of any_call i b s s E]] by simp_all

lemma config_read_raw_keeps:
  "daemons (snd (snd (config_read_raw E i n s))) = daemons s"
  "boot_finished (snd (snd (config_read_raw E i n s))) = boot_finished s"
  using only_io_fields(8,10) [OF cfg.rd_io [of any_call i n s s E]] by simp_all

lemma config_clear_keeps:
  "daemons (snd (config_clear E s)) = daemons s" "boot_finished (snd (config_clear E s)) = boot_finished s"
  using only_io_fields(8,10) [OF cfg.clr_io [of any_call s s E]] by simp_all

lemmas config_raw_keeps = config_write_raw_keeps config_read_raw_keeps config_clear_keeps

lemmas config_ops =
  config_read_u8_def config_read_u32_def config_read_str_def read_str_with_def
  config_write_u8_def config_write_u32_def config_write_str_def

lemma config_version_keeps:
  "daemons (config_init_version E s) = daemons s"
  "boot_finished (config_init_version E s) = boot_finished s"
  by (simp_all add: config_init_version_def config_ops config_raw_keeps case_prod_unfold Let_def)

lemma config_field_keeps:
  "daemons (init_str E i get put d s) = daemons s"
  "boot_finished (init_str E i get put d s) = boot_finished s"
  "daemons (init_u32 E i get4 put4 d4 s) = daemons s"
  "boot_finished (init_u32 E i get4 put4 d4 s) = boot_finished s"
  "daemons (init_u8 E i get1 put1 d1 s) = daemons s"
  "boot_finished (init_u8 E i get1 put1 d1 s) = boot_finished s"
  by (simp_all add: init_str_def init_u32_def init_u8_def config_ops config_raw_keeps
      case_prod_unfold Let_def)

interpretation settings: board_init "config_init E" for E
  by unfold_locales (simp_all add: config_init_def config_field_keeps config_version_keeps Let_def)

interpretation power: device_init "power_init E" for E
proof -
  have io: "only_io any_call s (snd (configure_power_gpios E is s))"
    "only_io any_call s (snd (set_power_gpios E v is s))" for s v "is"
    by (auto intro!: io_intro)
  note f = only_io_fields(2,8,10) [OF io(1)] only_io_fields(2,8,10) [OF io(2)]
  show "device_init (power_init E)"
    by unfold_locales (simp_all add: power_init_def power_on_def f case_prod_unfold Let_def)
qed

interpretation network: device_init "net_init E" for E
proof -
  have io: "only_io any_call s (snd (net_do_set_default_ip4_from_config E s))"
    "only_io any_call s (snd (dhcp4_init E s))" "only_io any_call s (snd (net_stop_dhcp4 E s))"
    "only_io any_call s (schedule_ntp E s)" for s
    by (auto simp: schedule_ntp_def intro!: io_intro)
  note f = only_io_fields(2,8,10) [OF io(1)] only_io_fields(2,8,10) [OF io(2)]
    only_io_fields(2,8,10) [OF io(3)] only_io_fields(2,8,10) [OF io(4)]
  have n: "daemons (snd (ntp_init E s)) = daemons s" "boot_finished (snd (ntp_init E s)) = boot_finished s"
    "config_data (snd (ntp_init E s)) = config_data s" for s
    by (simp_all add: ntp_init_def start_ntp_def ext_ignore_eq f Let_def)
  show "device_init (net_init E)"
    by unfold_locales (simp_all add: net_init_def f n ext_def case_prod_unfold Let_def)
qed

lemmas board_keeps = rtc.keeps vpd.keeps storage.keeps settings.keeps button.keeps network.keeps
  power.keeps reset.keeps status_led.keeps jtag_daemon.keeps

lemma board_inits_keep: "list_all (keeps daemons) (board_inits E)" "list_all (keeps boot_finished) (board_inits E)"
  by (simp_all add: board_inits_def board_keeps)

text \<open>From the load of the settings on, they stay.\<close>

lemma board_inits_config:
  assumes "run_inits (board_inits E) s = (0, t)"
  shows "wf_config (config_data t)"
proof -
  let ?before = "[rtc_init E, vpd_init E, or_continue (fs_init E)]"
  let ?after = "[or_continue (button_init E), net_init E, power_init E, reset_init E,
    status_led_init E, jtag_init E]"
  obtain rc u where "run_inits ?before s = (rc, u)"
    by fastforce
  then have u: "run_inits (config_init E # ?after) u = (0, t)"
    using assms run_inits_append [of ?before "config_init E # ?after" s]
    by (simp add: board_inits_def del: run_inits.simps split: if_splits)
  have "fst (config_init E u) = 0"
    by (simp add: config_init_def Let_def)
  with u have "run_inits ?after (snd (config_init E u)) = (0, t)"
    by (cases "config_init E u") simp
  moreover have "list_all (keeps config_data) ?after"
    by (simp add: button.keeps_config network.keeps_config power.keeps_config reset.keeps_config
        status_led.keeps_config jtag_daemon.keeps_config)
  ultimately have "config_data t = config_data (snd (config_init E u))"
    using run_inits_keep [of config_data ?after "snd (config_init E u)"] by simp
  then show ?thesis
    by (simp add: config_init_wf)
qed

lemma app_http_server_init_keeps:
  "client_fd (snd (app_http_server_init E s)) = client_fd s"
  "config_data (snd (app_http_server_init E s)) = config_data s"
  "boot_finished (snd (app_http_server_init E s)) = boot_finished s"
  using only_io_fields(2,8,10) [OF setup_tls_io [of s E]]
  by (simp_all add: app_http_server_init_def ext_def case_prod_unfold Let_def)

lemma console_logger_init_keeps:
  "client_fd (snd (console_logger_init E s)) = client_fd s"
  "shell_ws (daemons (snd (console_logger_init E s))) = shell_ws (daemons s)"
  "host_websocket (daemons (snd (console_logger_init E s))) = host_websocket (daemons s)"
  "config_data (snd (console_logger_init E s)) = config_data s"
  "boot_finished (snd (console_logger_init E s)) = boot_finished s"
  by (auto simp: console_logger_init_def uartmuxsel_init_def uart_rx_start_def ext_def ext_ignore_eq Let_def
      split: prod.split)

lemma bridge_init_keeps:
  "daemons (snd (console_bridge_init E s)) = daemons s"
  "config_data (snd (console_bridge_init E s)) = config_data s"
  "boot_finished (snd (console_bridge_init E s)) = boot_finished s"
  by (simp_all add: console_bridge_init_def ext_ignore_eq)

lemma ws_init_keeps:
  "host_log (snd (console_bridge_ws_init E s)) = host_log s"
  "client_fd (snd (console_bridge_ws_init E s)) = client_fd s"
  "shell_ws (daemons (snd (console_bridge_ws_init E s))) = shell_ws (daemons s)"
  "config_data (snd (console_bridge_ws_init E s)) = config_data s"
  "boot_finished (snd (console_bridge_ws_init E s)) = boot_finished s"
  by (simp_all add: console_bridge_ws_init_def ext_ignore_eq)

text \<open>What Zephyr documents of starting the web server: 0 or a negative error.\<close>

definition http_documented :: "env \<Rightarrow> bool" where
  "http_documented E \<longleftrightarrow> (\<forall>h tag c v. zret E h (Http (TlsCredentialAdd tag c)) \<le> 0 \<and>
     zret E h (Http (ShellWebsocketEnable v)) \<le> 0 \<and> zret E h (Http HttpServerStart) \<le> 0)"

lemma setup_tls_nonpos: "http_documented E \<Longrightarrow> fst (setup_tls E s) \<le> 0"
  by (simp add: http_documented_def setup_tls_def setup_tls_cert_def setup_tls_psk_def ext_def
      split: prod.split)

lemma app_http_server_init_nonpos:
  assumes "http_documented E"
  shows "fst (app_http_server_init E s) \<le> 0"
proof -
  have doc: "zret E h (Http (ShellWebsocketEnable v)) \<le> 0" "zret E h (Http HttpServerStart) \<le> 0" for h v
    using assms by (simp_all add: http_documented_def)
  obtain err u where "setup_tls E s = (err, u)"
    by fastforce
  then show ?thesis
    using setup_tls_nonpos [OF assms, of s] doc
    by (simp add: app_http_server_init_def ext_def Let_def)
qed

lemma service_inits_result:
  assumes "run_inits (service_inits E) s = (0, t)" and "http_documented E"
  obtains s1 s2 s3 where "app_http_server_init E s = (0, s1)" and "console_logger_init E s1 = (0, s2)"
    and "console_bridge_init E s2 = (0, s3)" and "console_bridge_ws_init E s3 = (0, t)"
proof -
  obtain r1 s1 where 1: "app_http_server_init E s = (r1, s1)" by fastforce
  obtain r2 s2 where 2: "console_logger_init E s1 = (r2, s2)" by fastforce
  obtain r3 s3 where 3: "console_bridge_init E s2 = (r3, s3)" by fastforce
  obtain r4 s4 where 4: "console_bridge_ws_init E s3 = (r4, s4)" by fastforce
  have "r1 \<le> 0" "r2 \<le> 0" "r3 = 0" "r4 = 0"
    using app_http_server_init_nonpos [OF assms(2), of s] 1 2 3 4
    by (auto simp: console_logger_init_def uartmuxsel_init_def console_bridge_init_def
        console_bridge_ws_init_def Let_def split: prod.splits if_splits)
  then show ?thesis
    using that 1 2 3 4 assms(1) by (auto simp: service_inits_def split: if_splits)
qed

section \<open>The components after the start\<close>

definition fresh_uart :: "env \<Rightarrow> bmc \<Rightarrow> uart_sys" where
  "fresh_uart E s = \<lparr>firmware = s, bufs = [(0, UART_RX_BUF_SIZE E)], fill = 0, reported = 0, stream = []\<rparr>"

lemma fresh_uart_reach:
  assumes "CONFIG_APP_CONSOLE_LOGGER E" and "console_logger_init E s1 = (0, s2)" and "host_log s = host_log s2"
  shows "rx_reach E (fresh_uart E s)"
proof -
  obtain h where h: "trace s2 = Uart (UartRxEnable 0 (UART_RX_BUF_SIZE E) UART_RX_DELAY_US) # h"
    using console_logger_init_result [OF assms(1,2)] by blast
  have "rx_reach E (fresh_uart E s2)"
    unfolding fresh_uart_def by (rule rx_init [OF assms(1,2) h])
  moreover have "rx_step E (fresh_uart E s2) (fresh_uart E s)"
    using rx_other [of s "fresh_uart E s2" E] assms(3) by (simp add: fresh_uart_def)
  ultimately show ?thesis
    by (rule rx_more)
qed

text \<open>What \<open>main\<close> promises to the step relations of the components.\<close>

definition services_ready :: "env \<Rightarrow> bmc \<Rightarrow> bool" where
  "services_ready E s \<longleftrightarrow>
     (CONFIG_APP_CONSOLE_LOGGER E \<longrightarrow>
        telnet_reach E \<lparr>dev = fresh_uart E s, tx_pos = 0, dpc = Listening, joined = 0, got = [], behind = False\<rparr> \<and>
        (CONFIG_APP_WEB_TERMINAL_HOST_SERIAL E \<longrightarrow>
           ws_sys_reach E \<lparr>wdev = fresh_uart E s, wpos = 0, wgot = [], wbehind = False\<rparr>)) \<and>
     (CONFIG_APP_WEB_TERMINAL_HOST_SERIAL E \<longrightarrow> ws_reach E (s, None)) \<and>
     (CONFIG_SHELL_BACKEND_WEBSOCKET (http_options E) \<longrightarrow>
        ws_detail_cb (shell_ws (daemons s)) HttpService = AuthCb HttpService \<and>
        (CONFIG_APP_HTTPS (http_options E) \<longrightarrow>
           ws_detail_cb (shell_ws (daemons s)) HttpsService = AuthCb HttpsService))"

lemma services_started:
  assumes run: "run_inits (service_inits E) s = (0, t)" and doc: "http_documented E"
    and start: "daemons s = zero_daemons"
  shows "services_ready E (t\<lparr>boot_finished := True\<rparr>)"
proof -
  let ?t = "t\<lparr>boot_finished := True\<rparr>"
  obtain s1 s2 s3 where 1: "app_http_server_init E s = (0, s1)" and 2: "console_logger_init E s1 = (0, s2)"
    and 3: "console_bridge_init E s2 = (0, s3)" and 4: "console_bridge_ws_init E s3 = (0, t)"
    by (rule service_inits_result [OF run doc])
  note keep = app_http_server_init_keeps [of E s] console_logger_init_keeps [of E s1]
    bridge_init_keeps [of E s2] ws_init_keeps [of E s3]
  have log: "host_log ?t = host_log s2" and client: "client_fd ?t = - 1"
    and sh: "shell_ws (daemons ?t) = shell_ws (daemons s1)"
    using keep start unfolding 1 2 3 4 by (simp_all add: zero_daemons_def)
  have ws: "fd_of ?t = - 1" "ws_reach E (?t, None)" if "CONFIG_APP_WEB_TERMINAL_HOST_SERIAL E"
  proof -
    show "fd_of ?t = - 1"
      using 4 that by (auto simp: console_bridge_ws_init_def ext_ignore_eq)
    show "ws_reach E (?t, None)"
      by (rule ws_more [OF ws_start [OF that 4] ws_other]) simp
  qed
  have uart: "rx_reach E (fresh_uart E ?t)" if "CONFIG_APP_CONSOLE_LOGGER E"
    by (rule fresh_uart_reach [OF that 2 log])
  show ?thesis
    unfolding services_ready_def
    using telnet_init [OF uart] wo_init [OF uart] client ws sh shell_ws_started [OF start _ 1]
    by (simp add: fresh_uart_def)
qed

text \<open>C11: Starting the firmware establishes what every component's properties start from.
  \<open>main\<close> returns 0 or -1 and marks the boot as finished exactly when it returns 0. Then the
  settings are well formed; the console's log is empty and the UART writes to its first chunk,
  from where the threads of the TCP console and of the websockets can start without a client; and
  the shell's websockets go through authentication.\<close>

theorem boot_establishes:
  assumes "main E (reset_state h) = (rc, s)" and "http_documented E"
  shows "rc \<in> {0, - 1} \<and> (boot_finished s \<longleftrightarrow> rc = 0) \<and>
    (rc = 0 \<longrightarrow> wf_config (config_data s) \<and> services_ready E s)"
proof -
  define s0 where "s0 = print_banner E (reset_state h)"
  have s0: "daemons s0 = zero_daemons" "\<not> boot_finished s0"
    by (simp_all add: s0_def print_banner_def ext_ignore_eq reset_state_def)
  obtain r t where run: "run_inits (board_inits E @ service_inits E) s0 = (r, t)"
    by fastforce
  have r: "r \<in> {0, - 1}"
    using run_inits_result [of "board_inits E @ service_inits E" s0] run by simp
  have rc: "rc = r" "s = (if r = 0 then t\<lparr>boot_finished := True\<rparr> else t)"
    using assms(1) run r by (auto simp: main_def s0_def [symmetric])
  have "list_all (keeps boot_finished) (board_inits E @ service_inits E)"
    using board_inits_keep [of E]
    by (simp add: service_inits_def keeps_def app_http_server_init_keeps console_logger_init_keeps
        bridge_init_keeps ws_init_keeps)
  from run_inits_keep [OF this, of s0] have unfinished: "\<not> boot_finished t"
    using s0(2) run by simp
  have "wf_config (config_data s) \<and> services_ready E s" if ok: "r = 0"
  proof -
    obtain u where u: "run_inits (board_inits E) s0 = (0, u)" "run_inits (service_inits E) u = (0, t)"
      using run run_inits_result [of "board_inits E" s0] ok
      by (auto simp: run_inits_append split: prod.splits if_splits)
    have "daemons u = zero_daemons"
      using run_inits_keep [OF board_inits_keep(1), of E s0] s0(1) u(1) by simp
    moreover have "config_data t = config_data u"
      using run_inits_keep [of config_data "service_inits E" u] u(2)
      by (simp add: service_inits_def keeps_def app_http_server_init_keeps console_logger_init_keeps
          bridge_init_keeps ws_init_keeps)
    ultimately show ?thesis
      using services_started [OF u(2) assms(2)] board_inits_config [OF u(1)] rc(2) ok by simp
  qed
  then show ?thesis
    using r rc unfinished by auto
qed

lemma run_inits_succeed: "list_all (\<lambda>f. \<forall>s. 0 \<le> fst (f s)) fs \<Longrightarrow> fst (run_inits fs s) = 0"
proof (induction fs arbitrary: s)
  case (Cons f fs)
  then have "0 \<le> fst (f s)"
    by simp
  then show ?case
    using Cons by (cases "f s") simp
qed simp

lemma ideal_calls:
  "fst (ext ideal_env (Gpio g) s) = (case g of GpioReady p \<Rightarrow> 1 | _ \<Rightarrow> 0)"
  "fst (ext ideal_env (Time t) s) = (case t of RtcReady \<Rightarrow> 1 | _ \<Rightarrow> 0)"
  "fst (ext ideal_env (Uart u) s) = (case u of UartReady \<Rightarrow> 1 | _ \<Rightarrow> 0)"
  "fst (ext ideal_env (Http HttpServerStart) s) = 0"
  "fst (ext ideal_env (Http (ShellWebsocketEnable v)) s) = 0"
  "fst (ext ideal_env (Net NetConfigInitApp) s) = 0"
  by (simp_all add: ext_def ideal_env_def ideal_ret_def)

lemma ideal_options:
  "CONFIG_RTC ideal_env" "\<not> CONFIG_APP_BMC_UUID ideal_env" "HAS_GPIO_RESET ideal_env"
  "HAS_STATUS_LED ideal_env" "CONFIG_JTAG ideal_env" "CONFIG_APP_NTP ideal_env"
  "\<not> CONFIG_APP_HTTPS (http_options ideal_env)" "\<not> HAS_UARTMUXSEL ideal_env"
  by (simp_all add: ideal_env_def)

lemma ideal_powers:
  "fst (configure_power_gpios ideal_env is s) = 0" "fst (set_power_gpios ideal_env v is s) = 0"
  by (induction "is" arbitrary: s) (simp_all add: ideal_calls case_prod_unfold)

lemma ideal_inits:
  "fst (rtc_init ideal_env s) = 0" "fst (vpd_init ideal_env s) = 0" "fst (net_init ideal_env s) = 0"
  "fst (power_init ideal_env s) = 0" "fst (reset_init ideal_env s) = 0"
  "fst (status_led_init ideal_env s) = 0" "fst (jtag_init ideal_env s) = 0"
proof -
  have "timeutil_timegm ideal_env tm \<noteq> - 1" for tm
    by (simp add: ideal_env_def)
  then show "fst (rtc_init ideal_env s) = 0"
    by (simp add: rtc_init_def rtc_init_clock_def ideal_calls ideal_options case_prod_unfold Let_def)
qed (simp_all add: vpd_init_def net_init_def dhcp4_init_def power_init_def power_on_def reset_init_def
    status_led_init_def jtag_init_def ideal_powers ideal_calls ideal_options case_prod_unfold Let_def)

lemma ideal_boots: "fst (main ideal_env s) = 0"
proof -
  have "list_all (\<lambda>f. \<forall>s. 0 \<le> fst (f s)) (board_inits ideal_env)"
    by (simp add: board_inits_def or_continue_def config_init_def ideal_inits Let_def)
  moreover have "list_all (\<lambda>f. \<forall>s. 0 \<le> fst (f s)) (service_inits ideal_env)"
    by (simp add: service_inits_def app_http_server_init_def setup_tls_def console_logger_init_def
        console_bridge_init_def console_bridge_ws_init_def ideal_options ideal_calls case_prod_unfold Let_def)
  ultimately show ?thesis
    using run_inits_succeed [of "board_inits ideal_env @ service_inits ideal_env"]
    by (simp add: main_def case_prod_unfold Let_def)
qed

lemma boot_establishes_witness:
  "\<exists>s. main ideal_env (reset_state []) = (0, s) \<and> boot_finished s \<and> services_ready ideal_env s"
proof -
  have doc: "http_documented ideal_env"
    by (simp add: http_documented_def ideal_env_def ideal_ret_def)
  show ?thesis
    using boot_establishes [OF prod.collapse [symmetric] doc, of "[]"] ideal_boots
    by (metis prod.collapse)
qed

section \<open>A client before the end of the start\<close>

definition off_sockets :: "call \<Rightarrow> bool" where
  "off_sockets c \<longleftrightarrow> (\<forall>h k. c \<noteq> Http h \<and> c \<noteq> Sock k)"

abbreviation late_inits :: "env \<Rightarrow> (bmc \<Rightarrow> int \<times> bmc) list" where
  "late_inits E \<equiv> [console_logger_init E, console_bridge_init E, console_bridge_ws_init E]"

lemma run_inits_calls:
  assumes "\<And>f s. f \<in> set fs \<Longrightarrow> \<exists>cs. trace (snd (f s)) = cs @ trace s \<and> list_all P cs"
  shows "\<exists>cs. trace (snd (run_inits fs s)) = cs @ trace s \<and> list_all P cs"
  using assms
proof (induction fs arbitrary: s)
  case (Cons f fs)
  obtain rc t where f: "f s = (rc, t)"
    by fastforce
  obtain bs where "trace t = bs @ trace s" "list_all P bs"
    using Cons.prems [of f s] f by auto
  moreover obtain cs where "trace (snd (run_inits fs t)) = cs @ trace t" "list_all P cs"
    using Cons.IH [of t] Cons.prems by auto
  ultimately show ?case
    using f by (cases "rc < 0") (auto intro: exI [of _ "cs @ bs"])
qed simp

lemma late_inits_calls:
  assumes "f \<in> set (late_inits E)"
  shows "\<exists>cs. trace (snd (f s)) = cs @ trace s \<and> list_all off_sockets cs"
  using assms
  by (auto simp: console_logger_init_def uartmuxsel_init_def uart_rx_start_def console_bridge_init_def
      console_bridge_ws_init_def ext_def ext_ignore_eq off_sockets_def Let_def)

lemma early_client:
  assumes "console_ws_http_cb E fd s = (0, t)" and "fd_of s = 0"
  shows "Http (WsUnregister 0) \<in> set (new_calls s t) \<and> fd_of t = fd \<and> fresh t"
proof -
  obtain r u where a: "ws_validate_auth E fd s = (r, u)"
    by fastforce
  have "only_io any_call s u"
    using ws_validate_auth_io [of any_call s s E fd] a by simp
  then obtain cs where u: "u = s\<lparr>trace := cs @ trace s\<rparr>"
    by (auto elim: only_ioE)
  then have "0 \<le> fd" "0 \<le> r"
    using assms(1) a by (auto simp: console_ws_http_cb_def split: if_splits)
  then have t: "trace t = (Kernel (EventPost EVENT_WEBSOCKET_CLIENT) # Http (SocketServiceRegister fd) #
      Http (WsUnregister 0) # Http SocketServiceUnregister # cs) @ trace s \<and> fd_of t = fd \<and> fresh t"
    using assms a u
    by (auto simp: console_ws_http_cb_def ws_end_client_connection_def ext_def ext_ignore_eq Let_def
        split: if_splits)
  then show ?thesis
    using new_calls_eq [OF conjunct1 [OF t]] by simp
qed



end
