(* ===== verification/Shell_Commands.thy ===== *)
theory Shell_Commands
  imports Boot
begin

text \<open>
  The command tree of the shell: the tables of config.c, power.c, sensors.c, vpd.c and
  main.c under the names they are registered with. Zephyr's shell finds the command for a
  line and checks the number of its arguments. A command returns its status, unless it does not return,
  the lines it prints as far as they are modelled, and the state.
\<close>

type_synonym shell_fn = "env \<Rightarrow> bytes list \<Rightarrow> bmc \<Rightarrow> int option \<times> bytes list \<times> bmc"

datatype shell_node = SHELL_CMD shell_fn | SHELL_SUB "(bytes \<times> shell_node) list"

text \<open>The commands of the components in this form.\<close>

definition silent :: "(env \<Rightarrow> bmc \<Rightarrow> int \<times> bmc) \<Rightarrow> shell_node" where
  "silent f = SHELL_CMD (\<lambda>E argv s. let (rc, s) = f E s in (Some rc, [], s))"

definition setting :: "shell_cmd \<Rightarrow> shell_node" where
  "setting f = SHELL_CMD (\<lambda>E argv s. let (rc, s) = f E argv s in (rc, [], s))"

definition stopping :: "(env \<Rightarrow> bmc \<Rightarrow> int option \<times> bmc) \<Rightarrow> shell_node" where
  "stopping f = SHELL_CMD (\<lambda>E argv s. let (rc, s) = f E s in (rc, [], s))"

definition sub_config_cmds :: "(bytes \<times> shell_node) list" where
  "sub_config_cmds =
     [(''show'', SHELL_CMD (\<lambda>E argv s. (Some 0, cmd_config_show E s, s))),
      (''bmc'', SHELL_SUB (map (apsnd setting) sub_config_bmc_cmds)),
      (''host'', SHELL_SUB (map (apsnd setting) sub_config_host_cmds)),
      (''clear_and_reboot'', setting cmd_config_clear)]"

definition sub_power_cmds :: "(bytes \<times> shell_node) list" where
  "sub_power_cmds = [(''on'', silent cmd_power_on), (''off'', silent cmd_power_off)]"

definition sub_sensors_cmds :: "(bytes \<times> shell_node) list" where
  "sub_sensors_cmds =
     [(''show'', SHELL_CMD (\<lambda>E argv s.
        let (rc, line, s) = cmd_show_sensors E s in (Some rc, [line], s)))]"

definition sub_vpd_cmds :: "(bytes \<times> shell_node) list" where
  "sub_vpd_cmds =
     [(''show'', SHELL_CMD (\<lambda>E argv s. let (rc, lines) = cmd_vpd_show E s in (Some rc, lines, s)))]"

definition sub_bmc_cmds :: "(bytes \<times> shell_node) list" where
  "sub_bmc_cmds = [(''reboot'', stopping cmd_bmc_reboot), (''poweroff'', stopping cmd_bmc_poweroff)]"

text \<open>What the files register at the top of the tree.\<close>

definition shell_commands :: "env \<Rightarrow> (bytes \<times> shell_node) list" where
  "shell_commands E =
     [(''bmc'', SHELL_SUB sub_bmc_cmds), (''config'', SHELL_SUB sub_config_cmds), (''hop'', silent cmd_hop),
      (''power'', SHELL_SUB sub_power_cmds), (''reset'', silent cmd_reset), (''vpd'', SHELL_SUB sub_vpd_cmds)] @
     (if HAS_DIE_TEMP E then [(''sensors'', SHELL_SUB sub_sensors_cmds)] else [])"

text \<open>The command of a line, with its arguments; the first is its own name.\<close>

fun shell_lookup :: "(bytes \<times> shell_node) list \<Rightarrow> bytes list \<Rightarrow> (shell_fn \<times> bytes list) option" where
  "shell_lookup cmds [] = None"
| "shell_lookup cmds (w # ws) =
     (case map_of cmds w of
        None \<Rightarrow> None
      | Some (SHELL_CMD f) \<Rightarrow> Some (f, w # ws)
      | Some (SHELL_SUB sub) \<Rightarrow> shell_lookup sub ws)"

section \<open>What a line can change\<close>

lemma plain_commands_config:
  "config_data (snd (cmd_power_on E s)) = config_data s" "config_data (snd (cmd_power_off E s)) = config_data s"
  "config_data (snd (cmd_reset E s)) = config_data s" "config_data (snd (cmd_hop E s)) = config_data s"
  "config_data (snd (cmd_bmc_reboot E s)) = config_data s" "config_data (snd (cmd_bmc_poweroff E s)) = config_data s"
  "config_data (snd (snd (cmd_show_sensors E s))) = config_data s"
proof -
  have io: "only_io any_call s (snd (set_power_gpios E v is s))" for v "is"
    by (auto intro!: io_intro)
  show "config_data (snd (cmd_power_on E s)) = config_data s" "config_data (snd (cmd_power_off E s)) = config_data s"
    using only_io_fields(2) [OF io]
    by (simp_all add: cmd_power_on_def cmd_power_off_def power_on_def power_off_def case_prod_unfold Let_def)
  have "only_io any_call s (snd (power_reset E s))"
    by (auto intro!: io_intro)
  then show "config_data (snd (cmd_reset E s)) = config_data s"
    by (simp add: cmd_reset_def only_io_fields(2))
  show "config_data (snd (cmd_hop E s)) = config_data s"
    by (rule only_io_fields(2) [OF cmd_hop_io [of any_call]]) simp_all
  show "config_data (snd (cmd_bmc_reboot E s)) = config_data s"
    by (simp add: cmd_bmc_reboot_def bmc_reboot_frame)
  have "only_io any_call (snd (fs_exit E s)) (bmc_poweroff E s)"
    by (auto simp: bmc_poweroff_def Let_def intro!: io_intro split: prod.split)
  moreover have "config_data (snd (fs_exit E s)) = config_data s"
    by (simp add: fs_exit_def umount_fs_def)
  ultimately show "config_data (snd (cmd_bmc_poweroff E s)) = config_data s"
    by (simp add: cmd_bmc_poweroff_def only_io_fields(2))
  have "only_io any_call s (snd (snd (read_die_temperature E s)))"
    by (auto intro!: io_intro)
  then show "config_data (snd (snd (cmd_show_sensors E s))) = config_data s"
    by (simp add: cmd_show_sensors_def case_prod_unfold only_io_fields(2) Let_def)
qed

lemma clear_config: "config_data (snd (cmd_config_clear E argv s)) = config_data s"
  using only_io_fields(2) [OF cfg.clr_io [of any_call s s E]]
  by (simp add: cmd_config_clear_def bmc_reboot_frame case_prod_unfold Let_def)

lemma map_of_setting: "map_of (map (apsnd setting) cmds) w = map_option setting (map_of cmds w)"
  by (induction cmds) auto

text \<open>A settings command is refused before the end of the boot, and then only calls setters.\<close>

lemma settings_line:
  assumes "shell_lookup (map (apsnd setting) cmds) line = Some (f, argv)"
    and "cmds = sub_config_bmc_cmds \<or> cmds = sub_config_host_cmds"
  shows "if boot_finished s then config_calls E s (snd (snd (f E argv s)))
    else f E argv s = (Some (- EAGAIN), [], s)"
proof -
  obtain w ws where line: "line = w # ws"
    using assms(1) by (cases line) auto
  then obtain cmd where cmd: "map_of cmds w = Some cmd"
      "f = (\<lambda>E argv s. let (rc, s) = cmd E argv s in (rc, [], s))"
    using assms(1) by (auto simp: map_of_setting setting_def split: option.splits)
  have "cmd \<in> snd ` set cmds"
    using map_of_SomeD [OF cmd(1)] by force
  then have "cmd \<in> snd ` set (sub_config_bmc_cmds @ sub_config_host_cmds)"
    using assms(2) by auto
  from config_commands_guarded [OF this, of s E argv] show ?thesis
    using cmd(2) by (auto simp: case_prod_unfold Let_def)
qed

lemma other_line:
  assumes "shell_lookup table ws = Some (f, argv)"
    and "table \<in> {sub_bmc_cmds, sub_power_cmds, sub_vpd_cmds, sub_sensors_cmds}"
  shows "config_data (snd (snd (f E argv s))) = config_data s"
  using assms plain_commands_config [of E s]
  by (cases ws) (auto simp: sub_bmc_cmds_def sub_power_cmds_def sub_vpd_cmds_def sub_sensors_cmds_def
      silent_def stopping_def case_prod_unfold Let_def split: if_splits)

lemma top_line:
  assumes "SHELL_CMD f \<in> {silent cmd_hop, silent cmd_reset}"
  shows "config_data (snd (snd (f E argv s))) = config_data s"
  using assms plain_commands_config [of E s] by (auto simp: silent_def case_prod_unfold Let_def)



end
