(* ===== verification/Web_Server.thy ===== *)
theory Web_Server
  imports Redfish_Bodies Console_Bridge_Ws
begin

text \<open>
  What the web server serves (web.c, the \<open>$metadata\<close> document of redfish.c, the resource
  of console_bridge_ws.c, and the Redfish resources): the table of URLs of the HTTP and of the HTTPS
  service. Zephyr's server looks a URL up in the table of its service and calls the handler; the
  contents of the static files and the resource of Zephyr's own shell are not part of the sources.
\<close>

section \<open>The tables\<close>

datatype static_file = Index_html | Logo_png | Favicon_png | Redfish_metadata_xml

record static_detail =
  static_data :: static_file
  content_type :: bytes
  content_encoding :: "bytes option"

definition index_html_gz_resource_detail :: static_detail where
  "index_html_gz_resource_detail =
     \<lparr>static_data = Index_html, content_type = ''text/html'', content_encoding = Some ''gzip''\<rparr>"

definition logo_png_resource_detail :: static_detail where
  "logo_png_resource_detail =
     \<lparr>static_data = Logo_png, content_type = ''image/png'', content_encoding = None\<rparr>"

definition favicon_png_resource_detail :: static_detail where
  "favicon_png_resource_detail =
     \<lparr>static_data = Favicon_png, content_type = ''image/png'', content_encoding = None\<rparr>"

definition redfish_metadata_xml_gz_resource_detail :: static_detail where
  "redfish_metadata_xml_gz_resource_detail =
     \<lparr>static_data = Redfish_metadata_xml, content_type = ''application/xml'',
      content_encoding = Some ''gzip''\<rparr>"

text \<open>What a URL leads to: a file, a Redfish resource, or the websocket of the console.\<close>

datatype http_detail =
    StaticDetail static_detail
  | RedfishDetail redfish_resource
  | ConsoleWebsocket

definition web_pages :: "(bytes \<times> http_detail) list" where
  "web_pages =
     [(''/'', StaticDetail index_html_gz_resource_detail),
      (''/logo.png'', StaticDetail logo_png_resource_detail),
      (''/favicon.png'', StaticDetail favicon_png_resource_detail)]"

definition redfish_metadata :: "(bytes \<times> http_detail) list" where
  "redfish_metadata =
     [(''/redfish/v1/$metadata'', StaticDetail redfish_metadata_xml_gz_resource_detail)]"

definition console_websockets :: "env \<Rightarrow> (bytes \<times> http_detail) list" where
  "console_websockets E =
     (if CONFIG_APP_WEB_TERMINAL_HOST_SERIAL E then [(''/console/host'', ConsoleWebsocket)] else [])"

text \<open>The HTTPS service exists with its option only, and has the same URLs.\<close>

definition server_urls :: "env \<Rightarrow> http_service \<Rightarrow> (bytes \<times> http_detail) list" where
  "server_urls E service =
     (if service = HttpsService \<and> \<not> CONFIG_APP_HTTPS (http_options E) then []
      else web_pages @ map (apsnd RedfishDetail) (http_urls E) @ redfish_metadata @ console_websockets E)"

text \<open>What answers without credentials.\<close>

fun open_to_all :: "http_detail \<Rightarrow> bool" where
  "open_to_all (StaticDetail d) = True"
| "open_to_all (RedfishDetail r) = (\<not> require_auth (resource r))"
| "open_to_all ConsoleWebsocket = False"

section \<open>The surface\<close>

lemmas table_defs = server_urls_def web_pages_def redfish_metadata_def console_websockets_def
  http_urls_def all_resources_def registered_def resource_defs


end
