(* ===== verification/Date_Time.thy ===== *)
theory Date_Time
  imports Redfish_Json Ideal_Env
begin

text \<open>
  Dates in both directions: the text of the manager's DateTime in a GET (redfish.c), and the
  parser of the DateTime in a PATCH (rtc.c). The lemmas say what \<open>sscanf\<close> makes of the digits
  that \<open>strftime\<close> prints.
\<close>

section \<open>Digits\<close>

lemma digit_char:
  assumes "k < 10"
  shows "is_digit (char_of (48 + k))" and "digit_val (char_of (48 + k)) = int k"
proof -
  let ?c = "char_of (48 + k) :: char"
  have n: "of_char ?c = 48 + k"
    using assms by simp
  moreover have "(of_char ?c :: int) = int (of_char ?c)"
    by (simp only: of_nat_of_char)
  ultimately show "is_digit ?c" "digit_val ?c = int k"
    using assms by (simp_all only: is_digit_def digit_val_def) simp_all
qed

lemma digit_range:
  assumes "is_digit x"
  shows "digit_val x \<in> {0..9}" and "digit_val x = 0 \<longleftrightarrow> x = CHR ''0''"
proof -
  have i: "(of_char x :: int) = int (of_char x)"
    by (simp only: of_nat_of_char)
  then show "digit_val x \<in> {0..9}"
    using assms by (simp add: is_digit_def digit_val_def)
  have "of_char x = (48 :: nat) \<longleftrightarrow> x = CHR ''0''"
    using of_char_eq_iff [of x "CHR ''0''", where ?'a = nat] by simp
  then show "digit_val x = 0 \<longleftrightarrow> x = CHR ''0''"
    using i by (simp add: digit_val_def)
qed

text \<open>A field of a date: digits, with the value \<open>%d\<close> reads.\<close>

definition is_field :: "bytes \<Rightarrow> int \<Rightarrow> bool" where
  "is_field ds v \<longleftrightarrow> list_all is_digit ds \<and> ds \<noteq> [] \<and> digits_val ds = v"

lemma dec_nat_field: "is_field (dec_nat n) (int n)"
proof (induction n rule: dec_nat.induct)
  case (1 n)
  show ?case
  proof (cases "n < 10")
    case True
    then show ?thesis
      using digit_char [of n] by (simp add: is_field_def dec_nat.simps [of n] digits_val_def)
  next
    case False
    have "10 * int (n div 10) + int (n mod 10) = int n"
      by (metis mult_div_mod_eq of_nat_add of_nat_mult of_nat_numeral)
    then show ?thesis
      using False 1 digit_char [of "n mod 10"]
      by (simp add: is_field_def dec_nat.simps [of n] digits_val_def)
  qed
qed

lemma dec_int_field: "0 \<le> v \<Longrightarrow> is_field (dec_int v) v"
  using dec_nat_field [of "nat v"] by (simp add: dec_int_def)

lemma two_digits_field: "0 \<le> v \<Longrightarrow> is_field (two_digits v) v"
  using dec_int_field [of v] by (auto simp: is_field_def two_digits_def digits_val_def is_digit_def digit_val_def)

lemma takeWhile_digits: "list_all is_digit ds \<Longrightarrow> \<not> is_digit c \<Longrightarrow> takeWhile is_digit (ds @ take k (c # rest)) = ds"
  by (induction ds; cases k) auto

lemma scan_field:
  assumes "is_field ds v" and "\<not> is_digit c" and "case w of None \<Rightarrow> True | Some k \<Rightarrow> length ds \<le> k"
  shows "scan_int w (ds @ c # rest) = Some (v, c # rest)"
proof -
  obtain d ds' where ds: "ds = d # ds'" and d: "is_digit d"
    using assms(1) by (cases ds) (auto simp: is_field_def)
  have start: "\<not> is_space d" "d \<noteq> CHR ''-''" "d \<noteq> CHR ''+''"
    using d by (auto simp: is_space_def is_digit_def)
  obtain k where item: "width_take w (ds @ c # rest) = ds @ take k (c # rest)"
    using assms(3) that [of "Suc (length rest)"] by (cases w) (auto simp: width_take_def)
  have "takeWhile is_digit (ds @ take k (c # rest)) = ds"
    using takeWhile_digits assms(1,2) by (simp add: is_field_def)
  then show ?thesis
    using assms(1) start item
    by (simp add: scan_int_def is_field_def ds Let_def split: prod.split)
qed

section \<open>Dates\<close>

text \<open>The part of an ISO date before the fraction, with the fields of a broken-down time.\<close>

definition iso_seconds :: "tm \<Rightarrow> bytes" where
  "iso_seconds t = butlast (iso_time t)"

definition date_ok :: "tm \<Rightarrow> bool" where
  "date_ok t \<longleftrightarrow> 0 \<le> tm_year t \<and> tm_year t < 10000 \<and> 0 \<le> tm_mon t \<and> tm_mon t < 12 \<and> 0 \<le> tm_mday t \<and>
     tm_mday t < 32 \<and> 0 \<le> tm_hour t \<and> tm_hour t < 24 \<and> 0 \<le> tm_min t \<and> tm_min t < 60 \<and> 0 \<le> tm_sec t \<and> tm_sec t < 61"

lemma scan_iso:
  assumes "date_ok t" and "\<not> is_digit c"
  shows "sscanf iso_format (iso_seconds t @ c # rest) =
    [tm_year t + 1900, tm_mon t + 1, tm_mday t, tm_hour t, tm_min t, tm_sec t] @
      sscanf [Lit (CHR ''.''), Conv (Some 3), Lit (CHR ''Z'')] (c # rest)"
proof -
  have "\<not> is_digit (CHR ''-'')" "\<not> is_digit (CHR ''T'')" "\<not> is_digit (CHR '':'')"
    by (simp_all add: is_digit_def)
  then show ?thesis
  using assms scan_field [OF dec_int_field] scan_field [OF two_digits_field]
  by (simp add: iso_format_def iso_seconds_def iso_time_def butlast_append date_ok_def del: sscanf.simps(1))
qed


lemma iso_time_seconds: "iso_time t = iso_seconds t @ ''Z''"
  by (simp add: iso_seconds_def iso_time_def butlast_append)

lemma field_c_string: "is_field ds v \<Longrightarrow> NUL \<notin> set ds"
  by (auto simp: is_field_def list_all_iff is_digit_def dest: bspec)

lemma iso_seconds_c_string: "date_ok t \<Longrightarrow> is_c_string (iso_seconds t)"
  using field_c_string [OF dec_int_field] field_c_string [OF two_digits_field]
  by (simp add: is_c_string_def iso_seconds_def iso_time_def butlast_append date_ok_def)

text \<open>The broken-down time the parser hands to \<open>timeutil_timegm\<close>.\<close>

definition parsed_tm :: "tm \<Rightarrow> tm" where
  "parsed_tm t = t\<lparr>tm_wday := 0, tm_yday := 0\<rparr>"

text \<open>C38: The manager's DateTime. A PATCH with the date of any moment and a fraction of three
  digits is read with every field of the date intact, but the fraction only when it does not
  start with 0 or is 000: ''.050'' sets half a second. The text a GET answers, which has no
  fraction, is refused without touching a clock, so that it cannot be written back.\<close>

theorem date_time_patch:
  assumes "date_ok t" and "list_all is_digit [a, b, c]"
  shows "time_set_from_iso_str E (iso_time t) s = (- EINVAL, s) \<and>
    (let sec = timeutil_timegm E (parsed_tm t); n = digits_val [a, b, c];
         r = time_iso_to_ts E (iso_seconds t @ ''.'' @ [a, b, c] @ ''Z'')
     in if sec = - 1 then r = Inl (- EINVAL)
        else \<exists>ms. r = Inr (sec, ms * 1000000) \<and> (ms = n \<longleftrightarrow> a \<noteq> CHR ''0'' \<or> n = 0))"
proof -
  have int: "to_c_int E v = v" if "0 \<le> v" "v < 20000" for v
    using that by (simp add: to_c_int_def)
  have "sscanf iso_format (c_str (iso_time t)) =
      [tm_year t + 1900, tm_mon t + 1, tm_mday t, tm_hour t, tm_min t, tm_sec t]"
    using scan_iso [OF assms(1), of "CHR ''Z''" "[]"] iso_seconds_c_string [OF assms(1)]
    by (simp add: iso_time_seconds c_str_c_string is_c_string_def is_digit_def)
  then have get: "time_iso_to_ts E (iso_time t) = Inl (- EINVAL)"
    by (simp add: time_iso_to_ts_def)
  let ?n = "digits_val [a, b, c]"
  have field: "is_field [a, b, c] ?n"
    using assms(2) by (simp add: is_field_def)
  have scan: "sscanf iso_format (c_str (iso_seconds t @ ''.'' @ [a, b, c] @ ''Z'')) =
      [tm_year t + 1900, tm_mon t + 1, tm_mday t, tm_hour t, tm_min t, tm_sec t, ?n]"
    using scan_iso [OF assms(1), of "CHR ''.''" "[a, b, c] @ ''Z''"] iso_seconds_c_string [OF assms(1)]
      scan_field [OF field, of "CHR ''Z''" "Some 3" "[]"] field_c_string [OF field]
    by (simp add: c_str_c_string is_c_string_def is_digit_def)
  have "?n = 100 * digit_val a + 10 * digit_val b + digit_val c"
    by (simp add: digits_val_def)
  then have n: "0 \<le> ?n" "?n < 1000" "?n < 100 \<longleftrightarrow> a = CHR ''0''"
    using digit_range [of a] digit_range [of b] digit_range [of c] assms(2) by auto
  define tm where "tm = parsed_tm t"
  have tm: "zero_tm\<lparr>tm_year := tm_year t, tm_mon := tm_mon t, tm_mday := tm_mday t,
      tm_hour := tm_hour t, tm_min := tm_min t, tm_sec := tm_sec t\<rparr> = tm"
    by (cases t) (simp add: tm_def parsed_tm_def zero_tm_def)
  have "time_iso_to_ts E (iso_seconds t @ ''.'' @ [a, b, c] @ ''Z'') =
     (if timeutil_timegm E tm = - 1 then Inl (- EINVAL)
      else Inr (timeutil_timegm E tm, frac_to_ms ?n * 1000000))"
    unfolding time_iso_to_ts_def scan using assms(1) n(1,2)
    by (simp add: int date_ok_def NSEC_PER_MSEC_def Let_def flip: tm)
  moreover have "frac_to_ms ?n = ?n \<longleftrightarrow> a \<noteq> CHR ''0'' \<or> ?n = 0"
    using n by (auto simp: frac_to_ms_def)
  ultimately show ?thesis
    using get by (simp add: time_set_from_iso_str_def Let_def tm_def)
qed


lemma date_time_patch_witness:
  "fst (time_set_from_iso_str ideal_env (iso_time (zero_tm\<lparr>tm_year := 126, tm_mday := 1\<rparr>)) (reset_state [])) = - 22 \<and>
   (\<exists>ms. time_iso_to_ts ideal_env (iso_seconds (zero_tm\<lparr>tm_year := 126, tm_mday := 1\<rparr>) @ ''.'' @ ''050'' @ ''Z'') =
      Inr (1767225600, ms * 1000000) \<and> ms \<noteq> 50)"
proof -
  let ?t = "zero_tm\<lparr>tm_year := 126, tm_mday := 1\<rparr>"
  have "date_ok ?t" and "list_all is_digit ''050''"
    by (simp_all add: date_ok_def zero_tm_def is_digit_def)
  moreover have "timeutil_timegm ideal_env tm = 1767225600" for tm
    by (simp add: ideal_env_def)
  moreover have "digits_val ''050'' = 50"
    by (simp add: digits_val_def digit_val_def)
  ultimately show ?thesis
    using date_time_patch [of ?t "CHR ''0''" "CHR ''5''" "CHR ''0''" ideal_env "reset_state []"]
    by (auto simp: Let_def)
qed

end
