(* ===== verification/Ntp_Schedule.thy ===== *)
theory Ntp_Schedule
  imports Ntp Ideal_Env
begin

text \<open>
  How often the firmware asks the time server (ntp.c): the delays the work item asks for over any
  number of runs, with anything else between them, and the arithmetic of the SNTP timestamp.
\<close>

section \<open>The delays\<close>

text \<open>A run of the firmware with the delays the handler of the work item has asked for. Starting
  and stopping the synchronisation, and the rest of the firmware, leave \<open>ntp_synced\<close> alone.\<close>

inductive ntp_run :: "env \<Rightarrow> bmc \<Rightarrow> nat list \<Rightarrow> bool" for E where
  run_reset: "\<not> ntp_synced s \<Longrightarrow> ntp_run E s []"
| run_handler: "ntp_run E s ds \<Longrightarrow> t = ntp_sync_work_handler E s \<Longrightarrow>
    trace t = Kernel (WorkSchedule NtpSyncWork d) # h \<Longrightarrow> ntp_run E t (ds @ [d])"
| run_start: "ntp_run E s ds \<Longrightarrow> ntp_run E (snd (start_ntp E s)) ds"
| run_stop: "ntp_run E s ds \<Longrightarrow> ntp_run E (snd (stop_ntp E s)) ds"
| run_rest: "ntp_run E s ds \<Longrightarrow> ntp_synced t = ntp_synced s \<Longrightarrow> ntp_run E t ds"

lemma do_sntp_keeps:
  "ntp_synced (snd (do_sntp E s)) = ntp_synced s" "ntp_interval_sec (snd (do_sntp E s)) = ntp_interval_sec s"
  using only_io_fields [OF do_sntp_io [of any_call s s E]] by simp_all

lemma handler_effect:
  "\<exists>ok. ntp_synced (ntp_sync_work_handler E s) = (ntp_synced s \<or> ok) \<and>
     (\<exists>h. trace (ntp_sync_work_handler E s) = Kernel (WorkSchedule NtpSyncWork
        (if ok \<and> \<not> ntp_synced s then 21600000 else 60000)) # h)"
proof -
  obtain rc t where run: "do_sntp E (s\<lparr>ntp_interval_sec := 60\<rparr>) = (rc, t)"
    by fastforce
  then have "ntp_synced t = ntp_synced s" "ntp_interval_sec t = 60"
    using do_sntp_keeps [of E "s\<lparr>ntp_interval_sec := 60\<rparr>"] by simp_all
  then show ?thesis
    by (intro exI [of _ "rc = 0"])
      (auto simp: ntp_sync_work_handler_def run schedule_ntp_def ext_ignore_eq Let_def)
qed

lemma start_stop_keep:
  "ntp_synced (snd (start_ntp E s)) = ntp_synced s" "ntp_synced (snd (stop_ntp E s)) = ntp_synced s"
  by (simp_all add: start_ntp_def stop_ntp_def schedule_ntp_def ext_ignore_eq Let_def)

text \<open>C37: The interval of six hours is used at most once. Over any run of the firmware, every
  delay the handler asks for is one minute or six hours, six hours at most once, namely at the
  first success; every later success is followed by one minute, as if the clock had never been
  set.\<close>

theorem ntp_resync:
  assumes "ntp_run E s ds"
  shows "set ds \<subseteq> {60000, 21600000} \<and> count_list ds 21600000 = (if ntp_synced s then 1 else 0)"
  using assms
proof (induction rule: ntp_run.induct)
  case (run_handler s ds t d h)
  then show ?case
    using handler_effect [of E s] by (auto split: if_splits)
qed (simp_all add: start_stop_keep)

text \<open>Two runs of the handler, both with success.\<close>

lemma ntp_resync_witness:
  "\<exists>s. ntp_run ideal_env s [21600000, 60000] \<and> ntp_synced s \<and> count_list [21600000, 60000 :: nat] 21600000 = 1"
proof -
  have ok: "fst (do_sntp ideal_env s) = 0" for s
    by (simp add: do_sntp_def dns_query_def sntp_set_clocks_def ext_dat_def ext_def ideal_env_def
        ideal_ret_def case_prod_unfold Let_def)
  define run where "run = (\<lambda>s. ntp_sync_work_handler ideal_env s)"
  have hd: "\<exists>h. trace (run s) = Kernel (WorkSchedule NtpSyncWork
      (if ntp_synced s then 60000 else 21600000)) # h" and synced: "ntp_synced (run s)" for s
    using ok do_sntp_keeps [of ideal_env "s\<lparr>ntp_interval_sec := 60\<rparr>"]
    by (auto simp: run_def ntp_sync_work_handler_def schedule_ntp_def ext_ignore_eq case_prod_unfold Let_def)
  have "ntp_run ideal_env (reset_state []) []"
    by (rule run_reset) (simp add: reset_state_def)
  moreover obtain h where "trace (run (reset_state [])) = Kernel (WorkSchedule NtpSyncWork 21600000) # h"
    using hd [of "reset_state []"] by (auto simp: reset_state_def)
  ultimately have one: "ntp_run ideal_env (run (reset_state [])) [21600000]"
    using run_handler [of ideal_env "reset_state []" "[]", OF _ refl] by (simp add: run_def)
  obtain h' where "trace (run (run (reset_state []))) = Kernel (WorkSchedule NtpSyncWork 60000) # h'"
    using hd [of "run (reset_state [])"] synced by auto
  with one have both: "ntp_run ideal_env (run (run (reset_state []))) [21600000, 60000]"
    using run_handler [OF one refl] by (simp add: run_def)
  then show ?thesis
    using ntp_resync [OF both] synced both by auto
qed

section \<open>The fraction of a second\<close>

text \<open>The conversion of the timestamp's fraction cannot overflow and stays below a second: the
  nanoseconds are the fraction's share of 10^9, rounded down, so less than one unit off.\<close>

lemma fraction_in_range:
  "uint (fraction_to_nsec f) = uint f * 1000000000 div 2 ^ 32 \<and> uint (fraction_to_nsec f) < 1000000000"
proof -
  have lt: "uint f * 1000000000 < 2 ^ 32 * 1000000000"
    using uint_lt2p [of f] by simp
  then have "uint ((ucast f :: 64 word) * 1000000000) = uint f * 1000000000"
    by (simp add: uint_mult_ge0 uint_word_ariths take_bit_eq_mod unsigned_ucast_eq)
  moreover have drop: "uint (drop_bit 32 w) = drop_bit 32 (uint w)" for w :: "64 word"
    using uint_lt2p [of w] by (simp add: unsigned_drop_bit_eq take_bit_int_eq_self)
  ultimately have eq: "uint (fraction_to_nsec f) = uint f * 1000000000 div 2 ^ 32"
    unfolding fraction_to_nsec_def drop by (simp add: drop_bit_eq_div)
  then show ?thesis
    using lt by simp
qed

end
