(* ===== verification/Fs_Retry.thy ===== *)
theory Fs_Retry
  imports Ideal_Env
begin

text \<open>
  The retry of flash operations (fs.c): how often a write or a clear is repeated, and what is
  made of the last answer.
\<close>

text \<open>The call \<open>c\<close> is made \<open>n + 1\<close> times from \<open>s\<close>: \<open>n\<close> times it failed with EIO, and the last time
  it did not, or the retries were used up.\<close>

definition retried :: "env \<Rightarrow> call \<Rightarrow> bmc \<Rightarrow> nat \<Rightarrow> bool" where
  "retried E c s n \<longleftrightarrow> n \<le> FLASH_WRITE_RETRY_COUNT \<and>
     (\<forall>m < n. zret E (replicate m c @ trace s) c = - EIO) \<and>
     (zret E (replicate n c @ trace s) c = - EIO \<longrightarrow> n = FLASH_WRITE_RETRY_COUNT)"

definition last_answer :: "env \<Rightarrow> call \<Rightarrow> bmc \<Rightarrow> nat \<Rightarrow> int" where
  "last_answer E c s n = zret E (replicate n c @ trace s) c"

lemma retried_unique:
  assumes "retried E c s n" and "retried E c s m"
  shows "n = m"
proof -
  have "\<not> n < m" if "retried E c s n" and "retried E c s m" for n m
    using that by (auto simp: retried_def)
  with assms show ?thesis
    by (meson linorder_neqE_nat)
qed

lemma retry_call_retried:
  "\<exists>n. retried E c s n \<and>
     retry_call E c 0 s = (last_answer E c s n, s\<lparr>trace := replicate (Suc n) c @ trace s\<rparr>)"
  using retry_call_runs [of 0 E c s] unfolding retried_def last_answer_def by auto

text \<open>C28: The retry of flash operations. A write or a clear on a mounted store makes its call to NVS
  once and again after each EIO, at most three times again, and nothing else; the number of
  repetitions is determined by the answers. A write gives the last answer, with the number of bytes in
  the place of 0, which NVS answers for unchanged data; a clear gives the last answer. Without
  a store both leave everything as it is.\<close>

theorem flash_retry:
  assumes "CONFIG_PERSISTENT_STORAGE E"
  shows "if fs_is_enabled s then
     (\<exists>!n. retried E (Nvs (NvsWrite i b)) s n) \<and> (\<exists>!n. retried E (Nvs NvsClear) s n) \<and>
     (\<forall>n. retried E (Nvs (NvsWrite i b)) s n \<longrightarrow> fs_key_write E i b s =
        (let r = last_answer E (Nvs (NvsWrite i b)) s n in
         (if r = 0 then int (length b) else r,
          s\<lparr>trace := replicate (Suc n) (Nvs (NvsWrite i b)) @ trace s\<rparr>))) \<and>
     (\<forall>n. retried E (Nvs NvsClear) s n \<longrightarrow> fs_clear E s =
        (last_answer E (Nvs NvsClear) s n, s\<lparr>trace := replicate (Suc n) (Nvs NvsClear) @ trace s\<rparr>))
     else fs_key_write E i b s = (- ENODEV, s) \<and> fs_clear E s = (- ENODEV, s)"
proof -
  have ex: "\<exists>!n. retried E c s n" for c
    using retry_call_retried retried_unique by blast
  have run: "retry_call E c 0 s = (last_answer E c s n, s\<lparr>trace := replicate (Suc n) c @ trace s\<rparr>)"
    if "retried E c s n" for c n
    using retry_call_retried [of E c s] retried_unique [OF that] by auto
  show ?thesis
    using assms ex
    by (auto simp: fs_key_write_def fs_clear_def fs_enabled_def fs_write_again_retry
        fs_clear_again_retry run simp del: replicate_Suc)
qed

text \<open>A flash whose first two writes fail.\<close>

definition flaky_env :: env where
  "flaky_env = ideal_env\<lparr>zret := (\<lambda>h c. case c of
       Nvs (NvsWrite i b) \<Rightarrow> if length h < 2 then - EIO else int (length b) | _ \<Rightarrow> ideal_ret h c)\<rparr>"

lemma flash_retry_witness:
  "fst (fs_key_write flaky_env 3 ''x'' ((reset_state [])\<lparr>fs_is_enabled := True\<rparr>)) = 1"
proof -
  let ?s = "(reset_state [])\<lparr>fs_is_enabled := True\<rparr>"
  have "retried flaky_env (Nvs (NvsWrite 3 ''x'')) ?s 2"
    by (auto simp: retried_def flaky_env_def reset_state_def FLASH_WRITE_RETRY_COUNT_def)
  moreover have "last_answer flaky_env (Nvs (NvsWrite 3 ''x'')) ?s 2 = 1"
    by (simp add: last_answer_def flaky_env_def reset_state_def)
  moreover have "CONFIG_PERSISTENT_STORAGE flaky_env"
    by (simp add: flaky_env_def ideal_env_def)
  ultimately show ?thesis
    using flash_retry [of flaky_env ?s 3 "''x''"] by (simp add: Let_def)
qed

end
