(* ===== verification/Static_Address.thy ===== *)
theory Static_Address
  imports Config_Persist Ideal_Env
begin

text \<open>
  The static IPv4 address (config.c over net.c): what the setters of the address, the subnet
  mask and the gateway leave in the table of the default interface. The table is Zephyr's;
  \<open>net_documented\<close> says how the calls change it. The loop that clears the addresses set by
  hand is followed by induction over the slots.
\<close>

section \<open>What Zephyr documents about the table of an interface\<close>

definition set_by_hand :: "addr_slot \<Rightarrow> bool" where
  "set_by_hand x \<longleftrightarrow> is_used x \<and> (addr_type x = NET_ADDR_MANUAL \<or> addr_type x = NET_ADDR_OVERRIDABLE)"

definition rm_slot :: "ip4 \<Rightarrow> addr_slot \<Rightarrow> addr_slot" where
  "rm_slot a x = (if slot_addr x = a then x\<lparr>is_used := False\<rparr> else x)"

definition mask_slot :: "ip4 \<Rightarrow> ip4 \<Rightarrow> addr_slot \<Rightarrow> addr_slot" where
  "mask_slot a m x = (if is_used x \<and> slot_addr x = a then x\<lparr>slot_netmask := m\<rparr> else x)"

text \<open>An address that is in the table already stays as it is; otherwise it takes a free slot.\<close>

definition slot_added :: "nat \<Rightarrow> ip4 \<Rightarrow> (nat \<Rightarrow> addr_slot) \<Rightarrow> (nat \<Rightarrow> addr_slot) \<Rightarrow> bool" where
  "slot_added n a u v \<longleftrightarrow> (\<exists>k < n. is_used (v k) \<and> slot_addr (v k) = a \<and>
     (is_used (u k) \<longrightarrow> v k = u k) \<and> (\<forall>j. j \<noteq> k \<longrightarrow> v j = u j))"

text \<open>Calls that fail may do anything to the table; storage leaves it alone.\<close>

definition net_documented :: "env \<Rightarrow> bool" where
  "net_documented E \<longleftrightarrow>
     (\<forall>h i g. unicast E (Net (NetIfSetGw i g) # h) i = unicast E h i \<and>
        ipv4_gw E (Net (NetIfSetGw i g) # h) i = g) \<and>
     (\<forall>h i a. (zret E h (Net (NetIfAddrRm i a)) \<noteq> 0 \<longrightarrow>
          unicast E (Net (NetIfAddrRm i a) # h) i = (\<lambda>k. rm_slot a (unicast E h i k))) \<and>
        ipv4_gw E (Net (NetIfAddrRm i a) # h) i = ipv4_gw E h i) \<and>
     (\<forall>h i a. (zret E h (Net (NetIfAddrAdd i a)) \<noteq> 0 \<longrightarrow> slot_added (NET_IF_MAX_IPV4_ADDR E) a
          (unicast E h i) (unicast E (Net (NetIfAddrAdd i a) # h) i)) \<and>
        ipv4_gw E (Net (NetIfAddrAdd i a) # h) i = ipv4_gw E h i) \<and>
     (\<forall>h i a m. (zret E h (Net (NetIfSetNetmask i a m)) \<noteq> 0 \<longrightarrow>
          unicast E (Net (NetIfSetNetmask i a m) # h) i = (\<lambda>k. mask_slot a m (unicast E h i k))) \<and>
        ipv4_gw E (Net (NetIfSetNetmask i a m) # h) i = ipv4_gw E h i) \<and>
     (\<forall>h i c. unicast E (Nvs c # h) i = unicast E h i \<and> ipv4_gw E (Nvs c # h) i = ipv4_gw E h i) \<and>
     (\<forall>h i k. \<not> has_ipv4 E h i \<longrightarrow> \<not> is_used (unicast E h i k))"

text \<open>The removal of an address that is in the table succeeds; the code does not look.\<close>

definition removals_succeed :: "env \<Rightarrow> bool" where
  "removals_succeed E \<longleftrightarrow> (\<forall>h i k. is_used (unicast E h i k) \<longrightarrow>
     zret E h (Net (NetIfAddrRm i (slot_addr (unicast E h i k)))) \<noteq> 0)"

lemma net_documentedD:
  assumes "net_documented E"
  shows "unicast E (Net (NetIfSetGw i g) # h) i = unicast E h i"
    and "ipv4_gw E (Net (NetIfSetGw i g) # h) i = g"
    and "zret E h (Net (NetIfAddrRm i a)) \<noteq> 0 \<Longrightarrow>
      unicast E (Net (NetIfAddrRm i a) # h) i = (\<lambda>k. rm_slot a (unicast E h i k))"
    and "zret E h (Net (NetIfAddrAdd i a)) \<noteq> 0 \<Longrightarrow>
      slot_added (NET_IF_MAX_IPV4_ADDR E) a (unicast E h i) (unicast E (Net (NetIfAddrAdd i a) # h) i)"
    and "zret E h (Net (NetIfSetNetmask i a m)) \<noteq> 0 \<Longrightarrow>
      unicast E (Net (NetIfSetNetmask i a m) # h) i = (\<lambda>k. mask_slot a m (unicast E h i k))"
    and "ipv4_gw E (Net (NetIfAddrRm i a) # h) i = ipv4_gw E h i"
    and "ipv4_gw E (Net (NetIfAddrAdd i a) # h) i = ipv4_gw E h i"
    and "ipv4_gw E (Net (NetIfSetNetmask i a m) # h) i = ipv4_gw E h i"
    and "ipv4_gw E (Nvs c # h) i = ipv4_gw E h i"
    and "unicast E (Nvs c # h) i = unicast E h i"
    and "\<not> has_ipv4 E h i \<Longrightarrow> \<not> is_used (unicast E h i k)"
  using assms by (simp_all add: net_documented_def)

section \<open>Clearing the table\<close>

definition hand_addresses :: "(nat \<Rightarrow> addr_slot) \<Rightarrow> nat \<Rightarrow> ip4 set" where
  "hand_addresses u n = {slot_addr (u k) | k. k < n \<and> set_by_hand (u k)}"

definition cleared :: "(nat \<Rightarrow> addr_slot) \<Rightarrow> nat \<Rightarrow> nat \<Rightarrow> addr_slot" where
  "cleared u n k = (if slot_addr (u k) \<in> hand_addresses u n then (u k)\<lparr>is_used := False\<rparr> else u k)"

lemma hand_addresses_Suc: "hand_addresses u (Suc n) =
    (if set_by_hand (u n) then insert (slot_addr (u n)) (hand_addresses u n) else hand_addresses u n)"
  by (auto simp: hand_addresses_def less_Suc_eq)

lemma cleared_fields [simp]:
  "slot_addr (cleared u n k) = slot_addr (u k)" "addr_type (cleared u n k) = addr_type (u k)"
  by (simp_all add: cleared_def)

lemma cleared_by_hand: "set_by_hand (cleared u n k) \<longleftrightarrow>
    set_by_hand (u k) \<and> slot_addr (u k) \<notin> hand_addresses u n"
  by (simp add: cleared_def set_by_hand_def)

lemma cleared_Suc:
  "cleared u (Suc n) = (if set_by_hand (cleared u n n)
     then (\<lambda>k. rm_slot (slot_addr (u n)) (cleared u n k)) else cleared u n)"
  by (auto simp: fun_eq_iff cleared_by_hand hand_addresses_Suc)
    (auto simp: cleared_def rm_slot_def hand_addresses_Suc)

lemma cleared_all: "k < n \<Longrightarrow> \<not> set_by_hand (cleared u n k)"
  by (auto simp: cleared_by_hand hand_addresses_def)

lemma remove_manual_addr_eq:
  "remove_manual_addr E i n s =
     (if set_by_hand (unicast E (trace s) i n)
      then s\<lparr>trace := Net (NetIfAddrRm i (slot_addr (unicast E (trace s) i n))) # trace s\<rparr> else s)"
  by (auto simp: remove_manual_addr_def set_by_hand_def ext_ignore_eq Let_def)

lemma remove_manual_addrs:
  assumes "net_documented E" and "removals_succeed E"
  shows "unicast E (trace (fold (remove_manual_addr E i) [0..<n] s)) i =
      cleared (unicast E (trace s) i) n \<and>
    ipv4_gw E (trace (fold (remove_manual_addr E i) [0..<n] s)) i = ipv4_gw E (trace s) i"
proof (induction n)
  case 0
  then show ?case
    by (simp add: fun_eq_iff cleared_def hand_addresses_def)
next
  case (Suc n)
  define t where "t = fold (remove_manual_addr E i) [0..<n] s"
  let ?u = "unicast E (trace s) i"
  have step: "fold (remove_manual_addr E i) [0..<Suc n] s = remove_manual_addr E i n t"
    by (simp add: t_def)
  note IH = Suc [folded t_def]
  show ?case
  proof (cases "set_by_hand (cleared ?u n n)")
    case True
    then have "is_used (unicast E (trace t) i n)"
      using IH by (simp add: set_by_hand_def)
    then have "zret E (trace t) (Net (NetIfAddrRm i (slot_addr (unicast E (trace t) i n)))) \<noteq> 0"
      using assms(2) unfolding removals_succeed_def by blast
    from net_documentedD(3) [OF assms(1) this] show ?thesis
      unfolding step using True IH
      by (simp add: remove_manual_addr_eq cleared_Suc net_documentedD(6) [OF assms(1)])
  next
    case False
    then show ?thesis
      unfolding step using IH by (simp add: remove_manual_addr_eq cleared_Suc)
  qed
qed

section \<open>Setting the address\<close>

text \<open>The table agrees with the address, the mask and the gateway: whatever is set by hand is
  this address, and it is there with its mask.\<close>

definition static_applied :: "env \<Rightarrow> iface \<Rightarrow> ip4 \<Rightarrow> ip4 \<Rightarrow> ip4 \<Rightarrow> call list \<Rightarrow> bool" where
  "static_applied E i addr nm gw h \<longleftrightarrow> ipv4_gw E h i = gw \<and>
     (\<forall>k < NET_IF_MAX_IPV4_ADDR E. set_by_hand (unicast E h i k) \<longrightarrow>
        addr \<noteq> 0 \<and> slot_addr (unicast E h i k) = addr) \<and>
     (addr \<noteq> 0 \<longrightarrow> (\<exists>k < NET_IF_MAX_IPV4_ADDR E. is_used (unicast E h i k) \<and>
        slot_addr (unicast E h i k) = addr \<and> slot_netmask (unicast E h i k) = nm))"

text \<open>The addresses that were not set by hand are untouched.\<close>

definition others_kept :: "env \<Rightarrow> iface \<Rightarrow> ip4 \<Rightarrow> call list \<Rightarrow> call list \<Rightarrow> bool" where
  "others_kept E i addr h h' \<longleftrightarrow> (\<forall>k. is_used (unicast E h i k) \<and>
     slot_addr (unicast E h i k) \<notin>
       insert addr (hand_addresses (unicast E h i) (NET_IF_MAX_IPV4_ADDR E)) \<longrightarrow>
     unicast E h' i k = unicast E h i k)"

lemma table_after:
  assumes "v = cleared u n" and "slot_added n a v w" and "x = (\<lambda>k. mask_slot a m (w k))"
  shows "k < n \<Longrightarrow> set_by_hand (x k) \<Longrightarrow> slot_addr (x k) = a"
    and "\<exists>k < n. is_used (x k) \<and> slot_addr (x k) = a \<and> slot_netmask (x k) = m"
    and "is_used (u k) \<Longrightarrow> slot_addr (u k) \<notin> insert a (hand_addresses u n) \<Longrightarrow> x k = u k"
proof -
  obtain l where l: "l < n" "is_used (w l)" "slot_addr (w l) = a" "is_used (v l) \<longrightarrow> w l = v l"
    "\<forall>j. j \<noteq> l \<longrightarrow> w j = v j"
    using assms(2) by (auto simp: slot_added_def)
  show "slot_addr (x k) = a" if "k < n" and "set_by_hand (x k)"
  proof (cases "k = l")
    case False
    then have "set_by_hand (v k)"
      using that l(5) assms(3) by (auto simp: mask_slot_def set_by_hand_def split: if_splits)
    then show ?thesis
      using cleared_all [OF that(1)] assms(1) by simp
  qed (use l assms(3) in \<open>simp add: mask_slot_def\<close>)
  show "\<exists>k < n. is_used (x k) \<and> slot_addr (x k) = a \<and> slot_netmask (x k) = m"
    using l assms(3) by (intro exI [of _ l]) (simp add: mask_slot_def)
  show "x k = u k" if "is_used (u k)" and "slot_addr (u k) \<notin> insert a (hand_addresses u n)"
    using that l assms(1,3) by (cases "k = l") (auto simp: mask_slot_def cleared_def)
qed

lemma set_default_ip4_applied:
  assumes "net_documented E" and "removals_succeed E" and "default_iface E (trace s) = Some i"
    and "net_do_set_default_ip4 E addr nm gw s = (0, s')"
  shows "static_applied E i addr nm gw (trace s') \<and> others_kept E i addr (trace s) (trace s')"
proof -
  let ?n = "NET_IF_MAX_IPV4_ADDR E" and ?u = "unicast E (trace s) i"
  define s1 where "s1 = s\<lparr>trace := Net (NetIfSetGw i gw) # trace s\<rparr>"
  define s2 where "s2 = (if has_ipv4 E (trace s1) i
    then fold (remove_manual_addr E i) [0..<?n] s1 else s1)"
  note doc = net_documentedD [OF assms(1)]
  have u1: "unicast E (trace s1) i = ?u" and gw1: "ipv4_gw E (trace s1) i = gw"
    by (simp_all add: s1_def doc(1,2))
  have free: "\<not> is_used (?u k)" if "\<not> has_ipv4 E (trace s1) i" for k
    using doc(11) [OF that, of k] u1 by simp
  have u2: "unicast E (trace s2) i = cleared ?u ?n" and gw2: "ipv4_gw E (trace s2) i = gw"
    using remove_manual_addrs [OF assms(1,2), of i ?n s1] u1 gw1 free
    by (auto simp: s2_def fun_eq_iff cleared_def hand_addresses_def set_by_hand_def)
  have run: "net_do_set_default_ip4 E addr nm gw s =
     (if addr = 0 then (0, s2)
      else
        let (if_addr, t) = ext E (Net (NetIfAddrAdd i addr)) s2 in
        if if_addr = 0 then (- EINVAL, t)
        else let (ok, t) = ext E (Net (NetIfSetNetmask i addr nm)) t in
          if ok = 0 then (- EINVAL, t) else (0, t))"
    by (simp add: net_do_set_default_ip4_def assms(3) s2_def s1_def ext_ignore_eq Let_def)
  show ?thesis
  proof (cases "addr = 0")
    case True
    then have "s' = s2"
      using assms(4) run by simp
    then show ?thesis
      using True u2 gw2 cleared_all [of _ ?n ?u]
      by (auto simp: static_applied_def others_kept_def cleared_def)
  next
    case False
    let ?h3 = "Net (NetIfAddrAdd i addr) # trace s2"
    let ?h4 = "Net (NetIfSetNetmask i addr nm) # ?h3"
    have z: "zret E (trace s2) (Net (NetIfAddrAdd i addr)) \<noteq> 0"
      "zret E ?h3 (Net (NetIfSetNetmask i addr nm)) \<noteq> 0" and h4: "trace s' = ?h4"
      using assms(4) run False by (auto simp: ext_def split: if_splits)
    have gw4: "ipv4_gw E ?h4 i = gw"
      by (simp add: doc(7,8) gw2)
    from table_after [OF u2 doc(4) [OF z(1)] doc(5) [OF z(2)]] show ?thesis
      using gw4 False h4 by (auto simp: static_applied_def others_kept_def)
  qed
qed

section \<open>The setters\<close>

lemma storage_keeps_table:
  assumes "net_documented E" and "only_io (\<lambda>c. \<exists>x. c = Nvs x) s t"
  shows "unicast E (trace t) i = unicast E (trace s) i \<and> ipv4_gw E (trace t) i = ipv4_gw E (trace s) i"
proof -
  have "unicast E (cs @ h) i = unicast E h i \<and> ipv4_gw E (cs @ h) i = ipv4_gw E h i"
    if "\<forall>c \<in> set cs. \<exists>x. c = Nvs x" for cs h
    using that by (induction cs) (auto simp: net_documentedD(9,10) [OF assms(1)])
  with assms(2) show ?thesis
    by (auto elim!: only_ioE)
qed

lemma ip4_setter_applied:
  assumes "net_documented E" and "removals_succeed E" and "default_iface E (trace s) = Some i"
    and "ip4_setter E fld put str s = (0, s')"
  shows "static_applied E i (config_bmc_default_ip4 s') (config_bmc_default_ip4_nm s')
      (config_bmc_default_ip4_gw s') (trace s') \<and>
    others_kept E i (config_bmc_default_ip4 s') (trace s) (trace s')"
proof -
  obtain a t where arg: "ip4_arg E str = Inr a"
    and net: "net_do_set_default_ip4_from_config E (cfg_update (put a) s) = (0, t)"
    and w: "write_field E fld (config_data t) t = (0, s')"
    using assms(4) ip4_arg_error [of E str]
    by (auto simp: ip4_setter_def Let_def split: sum.splits prod.splits if_splits)
  let ?s = "cfg_update (put a) s"
  have io: "only_io any_call ?s t"
    using net_do_set_default_ip4_from_config_io [of any_call ?s ?s E] net by simp
  have nvs: "only_io (\<lambda>c. \<exists>x. c = Nvs x) t s'"
    using cfg.wr_io [of "\<lambda>c. \<exists>x. c = Nvs x" "cfg_key fld" "field_bytes fld (config_data t)" t t E] w
    by (auto split: prod.splits if_splits)
  have data: "config_data s' = config_data ?s"
    by (simp only: only_io_fields(2) [OF nvs] only_io_fields(2) [OF io])
  have "static_applied E i (config_bmc_default_ip4 ?s) (config_bmc_default_ip4_nm ?s)
      (config_bmc_default_ip4_gw ?s) (trace t) \<and>
    others_kept E i (config_bmc_default_ip4 ?s) (trace s) (trace t)"
    using set_default_ip4_applied [OF assms(1,2), of ?s i] assms(3) net
    by (simp add: net_do_set_default_ip4_from_config_def)
  then show ?thesis
    using storage_keeps_table [OF assms(1) nvs, of i] data
    by (simp add: getters static_applied_def others_kept_def)
qed

section \<open>An interface with two addresses\<close>

text \<open>Slot 0 has a leased address, slot 1 one set by hand.\<close>

fun put_addr :: "ip4 \<Rightarrow> addr_slot list \<Rightarrow> addr_slot list" where
  "put_addr a [] = []"
| "put_addr a (x # xs) =
     (if is_used x then x # put_addr a xs
      else \<lparr>is_used = True, addr_type = NET_ADDR_OVERRIDABLE, addr_preferred = True, slot_addr = a,
        slot_netmask = 0\<rparr> # xs)"

fun example_table :: "call list \<Rightarrow> addr_slot list" where
  "example_table [] =
     [\<lparr>is_used = True, addr_type = NET_ADDR_DHCP, addr_preferred = True, slot_addr = 9,
        slot_netmask = 255\<rparr>,
      \<lparr>is_used = True, addr_type = NET_ADDR_MANUAL, addr_preferred = True, slot_addr = 7,
        slot_netmask = 255\<rparr>]"
| "example_table (c # h) =
     (let xs = example_table h in
      case c of
        Net (NetIfAddrRm i a) \<Rightarrow> map (rm_slot a) xs
      | Net (NetIfAddrAdd i a) \<Rightarrow>
          if list_ex (\<lambda>x. is_used x \<and> slot_addr x = a) xs then xs else put_addr a xs
      | Net (NetIfSetNetmask i a m) \<Rightarrow> map (mask_slot a m) xs
      | _ \<Rightarrow> xs)"

fun example_gw :: "call list \<Rightarrow> ip4" where
  "example_gw [] = 0"
| "example_gw (c # h) = (case c of Net (NetIfSetGw i g) \<Rightarrow> g | _ \<Rightarrow> example_gw h)"

definition free_slot :: addr_slot where
  "free_slot = \<lparr>is_used = False, addr_type = NET_ADDR_ANY, addr_preferred = False, slot_addr = 0,
     slot_netmask = 0\<rparr>"

definition address_env :: env where
  "address_env = ideal_env\<lparr>NET_IF_MAX_IPV4_ADDR := 2,
     unicast := (\<lambda>h i k. if k < 2 then example_table h ! k else free_slot), ipv4_gw := (\<lambda>h i. example_gw h),
     zret := (\<lambda>h c. case c of
        Net (NetIfAddrRm i a) \<Rightarrow> 1
      | Net (NetIfAddrAdd i a) \<Rightarrow>
          if list_ex (\<lambda>x. is_used x \<and> slot_addr x = a \<or> \<not> is_used x) (example_table h) then 1 else 0
      | _ \<Rightarrow> ideal_ret h c)\<rparr>"

lemma length_put_addr [simp]: "length (put_addr a xs) = length xs"
  by (induction xs) auto

lemma length_example_table [simp]: "length (example_table h) = 2"
  by (induction h) (simp_all add: Let_def split: call.split net_call.split)

lemma put_addr_added:
  "list_ex (\<lambda>x. \<not> is_used x) xs \<Longrightarrow> \<exists>k < length xs. \<not> is_used (xs ! k) \<and>
     is_used (put_addr a xs ! k) \<and> slot_addr (put_addr a xs ! k) = a \<and>
     (\<forall>j < length xs. j \<noteq> k \<longrightarrow> put_addr a xs ! j = xs ! j)"
proof (induction xs)
  case (Cons x xs)
  show ?case
  proof (cases "is_used x")
    case True
    with Cons obtain k where "k < length xs" "\<not> is_used (xs ! k)" "is_used (put_addr a xs ! k)"
      "slot_addr (put_addr a xs ! k) = a" "\<forall>j < length xs. j \<noteq> k \<longrightarrow> put_addr a xs ! j = xs ! j"
      by auto
    then show ?thesis
      using True by (intro exI [of _ "Suc k"]) (auto simp: nth_Cons split: nat.split)
  next
    case False
    then show ?thesis
      by (intro exI [of _ 0]) (auto simp: nth_Cons split: nat.split)
  qed
qed simp

lemma address_env_added:
  assumes "zret address_env h (Net (NetIfAddrAdd i a)) \<noteq> 0"
  shows "slot_added 2 a (unicast address_env h i)
    (unicast address_env (Net (NetIfAddrAdd i a) # h) i)"
proof (cases "list_ex (\<lambda>x. is_used x \<and> slot_addr x = a) (example_table h)")
  case True
  then show ?thesis
    by (auto simp: slot_added_def address_env_def Let_def list_ex_length)
next
  case False
  then have "list_ex (\<lambda>x. \<not> is_used x) (example_table h)"
    using assms by (auto simp: address_env_def list_ex_length split: if_splits)
  from put_addr_added [OF this, of a] show ?thesis
    using False by (auto simp: slot_added_def address_env_def Let_def)
qed

lemma address_env_documented: "net_documented address_env"
  using address_env_added
  by (auto simp: net_documented_def address_env_def fun_eq_iff rm_slot_def mask_slot_def
      free_slot_def Let_def ideal_env_def)

lemma address_env_removes: "removals_succeed address_env"
  by (simp add: removals_succeed_def address_env_def)

text \<open>The handler of dhcp.c for new addresses looks at the origin of a slot, not at whether it is in
  use. After the lease in slot 0 has been removed, it still reports that lease as new.\<close>

lemma stale_lease_reported:
  fixes h :: "call list"
  assumes "h = [Net (NetIfAddrRm 1 9)]"
  shows "\<not> is_used (unicast address_env h 1 0)"
    and "dhcp_event_handler address_env h NET_EVENT_IPV4_ADDR_ADD 1 =
      Some (lease_messages address_env h 1 (unicast address_env h 1 0))"
proof -
  have two: "[0..<2] = [0, 1::nat]"
    by (simp add: upt_rec)
  show "\<not> is_used (unicast address_env h 1 0)"
    and "dhcp_event_handler address_env h NET_EVENT_IPV4_ADDR_ADD 1 =
      Some (lease_messages address_env h 1 (unicast address_env h 1 0))"
    by (simp_all add: assms address_env_def rm_slot_def dhcp_event_handler_def two ideal_env_def Let_def)
qed

section \<open>Property\<close>

text \<open>C15: The static address. Where the interface's table is changed as Zephyr documents, a setter of
  the address, the subnet mask or the gateway that returns 0 leaves the default interface with
  exactly the configured static address: the gateway is the configured one, the address is in
  the table with the configured mask, and no other address set by hand is (none at all where
  the configured one is 0). Addresses of other origin, such as a lease, are kept.\<close>

theorem static_address_applied:
  assumes "net_documented E" and "removals_succeed E" and "default_iface E (trace s) = Some i"
    and "run \<in> {config_bmc_default_ip4_set, config_bmc_default_ip4_nm_set, config_bmc_default_ip4_gw_set}"
    and "run E str s = (0, s')"
  shows "static_applied E i (config_bmc_default_ip4 s') (config_bmc_default_ip4_nm s')
      (config_bmc_default_ip4_gw s') (trace s') \<and>
    others_kept E i (config_bmc_default_ip4 s') (trace s) (trace s')"
  using ip4_setter_applied [OF assms(1-3)] assms(4,5) by (auto simp: ip4_setter_eq)

lemma static_address_applied_witness:
  "\<exists>s'. config_bmc_default_ip4_set address_env (Some ''10.0.0.1'')
       ((reset_state [])\<lparr>fs_is_enabled := True, config_use_fs := True\<rparr>) = (0, s') \<and>
     static_applied address_env 1 16777226 0 0 (trace s')"
proof -
  let ?s = "(reset_state [])\<lparr>fs_is_enabled := True, config_use_fs := True\<rparr>"
  obtain rc s' where r: "config_bmc_default_ip4_set address_env (Some ''10.0.0.1'') ?s = (rc, s')"
    by fastforce
  have arg: "ip4_arg address_env (Some ''10.0.0.1'') = Inr 16777226"
    by (simp add: ip4_arg_def ip4_stoa_def address_env_def ideal_env_def c_str_def)
  have iface: "default_iface address_env (trace ?s) = Some 1"
    by (simp add: address_env_def ideal_env_def)
  have two: "[0..<2] = [0, 1::nat]"
    by (simp add: upt_rec)
  have "config_bmc_default_ip4 s' = 16777226" "config_bmc_default_ip4_nm s' = 0"
    "config_bmc_default_ip4_gw s' = 0" "rc = 0"
    using r arg
    by (auto simp: config_bmc_default_ip4_set_def net_do_set_default_ip4_from_config_def
        net_do_set_default_ip4_def address_env_def ideal_env_def ext_def ext_ignore_def
        reset_state_def zero_config_def getters two remove_manual_addr_def Let_def
        rm_slot_def mask_slot_def config_write_u32_def config_write_raw_def fs_key_write_def fs_enabled_def
        fs_write_again.simps ideal_ret_def)
  then show ?thesis
    using static_address_applied [OF address_env_documented address_env_removes, of ?s 1
        config_bmc_default_ip4_set "Some ''10.0.0.1''" s'] r iface by auto
qed

end
