(* ===== verification/Redfish_Patch.thy ===== *)
theory Redfish_Patch
  imports Redfish_Actions Static_Address
begin

text \<open>
  What the PATCH requests of the Redfish service (redfish.c) do to the settings. A client sees
  the settings as values, the record \<open>settings\<close>, not as arrays and flag bytes; \<open>settings_of\<close> is
  the abstraction. The specification is a merge: a member that the body has replaces the value
  of its setting, every other setting stays.
\<close>

section \<open>The settings as values\<close>

record settings =
  host_name :: bytes
  ip_address :: ip4
  ip_netmask :: ip4
  ip_gateway :: ip4
  dhcp_enabled :: bool
  ntp_enabled :: bool
  ntp_source :: bytes
  admin_password :: bytes
  auto_on :: bool

definition settings_of :: "config_data \<Rightarrow> settings" where
  "settings_of c = \<lparr>host_name = c_str (bmc_hostname c), ip_address = bmc_default_ip4 c,
     ip_netmask = bmc_default_ip4_nm c, ip_gateway = bmc_default_ip4_gw c,
     dhcp_enabled = (bmc_use_dhcp4 c \<noteq> 0), ntp_enabled = (bmc_use_ntp c \<noteq> 0),
     ntp_source = c_str (bmc_ntp_server c), admin_password = c_str (bmc_admin_password c),
     auto_on = (host_auto_poweron c \<noteq> 0)\<rparr>"

text \<open>A member of the body, if it has it, replaces a value.\<close>

definition merge :: "'v option \<Rightarrow> ('v \<Rightarrow> settings \<Rightarrow> settings) \<Rightarrow> settings \<Rightarrow> settings" where
  "merge v put \<sigma> = (case v of None \<Rightarrow> \<sigma> | Some x \<Rightarrow> put x \<sigma>)"

lemma merge_simps [simp]: "merge None put \<sigma> = \<sigma>" "merge (Some x) put \<sigma> = put x \<sigma>"
  by (simp_all add: merge_def)

text \<open>An address that is absent from its object is 0.\<close>

definition address_of :: "env \<Rightarrow> bytes option \<Rightarrow> ip4" where
  "address_of E x = (case ip4_arg E x of Inl rc \<Rightarrow> 0 | Inr a \<Rightarrow> a)"

text \<open>Texts that are too long are cut to the size of the setting, but a password is left alone.\<close>

fun merged :: "env \<Rightarrow> redfish_resource \<Rightarrow> (bytes \<times> json) list \<Rightarrow> settings \<Rightarrow> settings" where
  "merged E Res_account ms \<sigma> =
     merge (str_member ''Password'' ms) (\<lambda>p \<sigma>. if length (c_str p) \<le> MAX_PW_LEN
       then \<sigma>\<lparr>admin_password := c_str p\<rparr> else \<sigma>) \<sigma>"
| "merged E Res_ethernet ms \<sigma> =
     merge (arr_member ''IPv4StaticAddresses'' ms) (\<lambda>xs \<sigma>. \<sigma>\<lparr>
         ip_address := address_of E (str_member ''Address'' (first_object xs)),
         ip_netmask := address_of E (str_member ''SubnetMask'' (first_object xs)),
         ip_gateway := address_of E (str_member ''Gateway'' (first_object xs))\<rparr>)
       (merge (bool_member ''DHCPEnabled'' (obj_member ''DHCPv4'' ms)) (\<lambda>b \<sigma>. \<sigma>\<lparr>dhcp_enabled := b\<rparr>)
         (merge (str_member ''HostName'' ms)
           (\<lambda>x \<sigma>. \<sigma>\<lparr>host_name := take MAX_HOSTNAME_LEN (c_str x)\<rparr>) \<sigma>))"
| "merged E Res_network_protocol ms \<sigma> =
     merge (bool_member ''ProtocolEnabled'' (obj_member ''NTP'' ms)) (\<lambda>b \<sigma>. \<sigma>\<lparr>ntp_enabled := b\<rparr>)
       (merge (arr_member ''NTPServers'' (obj_member ''NTP'' ms)) (\<lambda>xs.
         merge (first_string xs) (\<lambda>x \<sigma>. \<sigma>\<lparr>ntp_source := take MAX_NTP_SERVER_LEN (c_str x)\<rparr>)) \<sigma>)"
| "merged E Res_system ms \<sigma> =
     merge (str_member ''PowerRestorePolicy'' ms)
       (\<lambda>x \<sigma>. \<sigma>\<lparr>auto_on := (c_str x = ''AlwaysOn'')\<rparr>) \<sigma>"
| "merged E r ms \<sigma> = \<sigma>"

section \<open>The setters, seen from outside\<close>

abbreviation view :: "bmc \<Rightarrow> settings" where
  "view s \<equiv> settings_of (config_data s)"

lemma settings_of_with:
  assumes "wf_config c"
  shows "settings_of (with_hostname h c) = (settings_of c)\<lparr>host_name := take MAX_HOSTNAME_LEN (c_str h)\<rparr>"
    and "settings_of (with_password p c) = (settings_of c)\<lparr>admin_password := take MAX_PW_LEN (c_str p)\<rparr>"
    and "settings_of (with_ntp_server n c) =
      (settings_of c)\<lparr>ntp_source := take MAX_NTP_SERVER_LEN (c_str n)\<rparr>"
  using assms by (simp_all add: settings_of_def with_defs wf_config_def wf_cstr_def strlcpy_c_str)

lemma view_hostname_set: "config_bmc_hostname_set E h s = (0, s') \<Longrightarrow> wf_config (config_data s) \<Longrightarrow>
    view s' = (view s)\<lparr>host_name := take MAX_HOSTNAME_LEN (c_str h)\<rparr>"
  by (simp add: hostname.set_value settings_of_with)

lemma view_ntp_server_set: "config_bmc_ntp_server_set E n s = (0, s') \<Longrightarrow> wf_config (config_data s) \<Longrightarrow>
    view s' = (view s)\<lparr>ntp_source := take MAX_NTP_SERVER_LEN (c_str n)\<rparr>"
  by (simp add: ntp_server.set_value settings_of_with)

lemma view_address_sets:
  "config_bmc_default_ip4_set E x s = (0, s') \<Longrightarrow> view s' = (view s)\<lparr>ip_address := address_of E x\<rparr>"
  "config_bmc_default_ip4_nm_set E x s = (0, s') \<Longrightarrow> view s' = (view s)\<lparr>ip_netmask := address_of E x\<rparr>"
  "config_bmc_default_ip4_gw_set E x s = (0, s') \<Longrightarrow> view s' = (view s)\<lparr>ip_gateway := address_of E x\<rparr>"
proof -
  have arg: "ip4_arg E x = Inr (address_of E x)" if "ip4_setter E fld put x s = (0, s')" for fld put
    using that ip4_arg_error [of E x]
    by (auto simp: ip4_setter_def address_of_def split: sum.splits)
  show "config_bmc_default_ip4_set E x s = (0, s') \<Longrightarrow> view s' = (view s)\<lparr>ip_address := address_of E x\<rparr>"
    and "config_bmc_default_ip4_nm_set E x s = (0, s') \<Longrightarrow> view s' = (view s)\<lparr>ip_netmask := address_of E x\<rparr>"
    and "config_bmc_default_ip4_gw_set E x s = (0, s') \<Longrightarrow> view s' = (view s)\<lparr>ip_gateway := address_of E x\<rparr>"
    using arg by (simp_all add: ip4.set_value ip4_nm.set_value ip4_gw.set_value with_ip4_def
        settings_of_def ip4_setter_eq)
qed

text \<open>Three setters change the setting even when they report that it could not be saved.\<close>

lemma write_result_data:
  "config_data (snd (case config_write_u8 E i v s of (rc, t) \<Rightarrow> if rc < 0 then (rc, t) else (0, t))) =
     config_data s"
  "config_data (snd (case config_write_str E i x s of (rc, t) \<Rightarrow> if rc < 0 then (rc, t) else (0, t))) =
     config_data s"
  by (auto simp: config_write_u8_def config_write_str_def dest: config_write_raw_fields split: prod.split)

lemma view_flag_sets:
  "view (snd (config_bmc_use_dhcp4_set E b s)) = (view s)\<lparr>dhcp_enabled := b\<rparr>"
  "view (snd (config_bmc_use_ntp_set E b s)) = (view s)\<lparr>ntp_enabled := b\<rparr>"
  "view (snd (config_host_auto_poweron_set E b s)) = (view s)\<lparr>auto_on := b\<rparr>"
  using quiet_ntp
  by (auto simp: config_bmc_use_dhcp4_set_def config_bmc_use_ntp_set_def Let_def
      config_host_auto_poweron_set_def write_result_data start_dhcp.keeps stop_dhcp.keeps
      quiet_def settings_of_def)

lemma view_password_set:
  assumes "wf_config (config_data s)"
  shows "view (snd (config_bmc_password_set E p s)) =
    (if length (c_str p) \<le> MAX_PW_LEN then (view s)\<lparr>admin_password := c_str p\<rparr> else view s)"
  using settings_of_with(2) [OF assms, of p]
  by (auto simp: config_bmc_password_set_def Let_def write_result_data with_password_def)

section \<open>The handlers merge\<close>

lemma patch_host_name_view:
  "patch_host_name E x s = (0, t) \<Longrightarrow> wf_config (config_data s) \<Longrightarrow>
    view t = merge x (\<lambda>x \<sigma>. \<sigma>\<lparr>host_name := take MAX_HOSTNAME_LEN (c_str x)\<rparr>) (view s)"
  by (cases x) (auto simp: patch_host_name_def view_hostname_set)

lemma patch_dhcp4_view:
  "view (patch_dhcp4 E b s) = merge b (\<lambda>b \<sigma>. \<sigma>\<lparr>dhcp_enabled := b\<rparr>) (view s)"
  by (cases b) (auto simp: patch_dhcp4_def view_flag_sets)

lemma patch_static_address_view:
  "patch_static_address E xs s = (0, t) \<Longrightarrow>
    view t = merge xs (\<lambda>xs \<sigma>. \<sigma>\<lparr>
         ip_address := address_of E (str_member ''Address'' (first_object xs)),
         ip_netmask := address_of E (str_member ''SubnetMask'' (first_object xs)),
         ip_gateway := address_of E (str_member ''Gateway'' (first_object xs))\<rparr>) (view s)"
  by (cases xs) (auto simp: patch_static_address_def Let_def split: prod.splits if_splits
      dest!: view_address_sets)

lemma patch_ntp_server_view:
  "patch_ntp_server E xs s = Some (0, t) \<Longrightarrow> wf_config (config_data s) \<Longrightarrow>
    view t = merge xs (\<lambda>xs. merge (first_string xs)
      (\<lambda>x \<sigma>. \<sigma>\<lparr>ntp_source := take MAX_NTP_SERVER_LEN (c_str x)\<rparr>)) (view s)"
  by (cases xs) (auto simp: patch_ntp_server_def view_ntp_server_set split: option.splits)

lemma time_set_config: "time_set_from_iso_str E x s = (rc, t) \<Longrightarrow> config_data t = config_data s"
proof -
  assume "time_set_from_iso_str E x s = (rc, t)"
  moreover have "only_io any_call s (snd (time_set_from_iso_str E x s))"
    by (auto intro!: io_intro)
  ultimately show ?thesis
    by (simp add: only_io_fields(2))
qed

lemma patch_handler_merges:
  assumes "patch_handler (resource r) = Some f" and "f E ud s = Some (0, ud', s')"
    and "json_obj_parse E (resource_descr r) (payload ud) = Inr ms" and "wf_config (config_data s)"
  shows "view s' = merged E r ms (view s)"
proof (cases r)
  case Res_account
  then show ?thesis
    using assms by (auto simp: resource_defs account_patch_handler_def view_password_set
        split: option.splits)
next
  case Res_manager
  then show ?thesis
    using assms
    by (auto simp: resource_defs manager_patch_handler_def Let_def
        split: option.splits prod.splits if_splits dest!: time_set_config)
next
  case Res_ethernet
  then show ?thesis
    using assms
    by (auto simp: resource_defs ethernet_patch_handler_def patch_dhcp4_view
        split: prod.splits if_splits
        dest!: patch_static_address_view patch_host_name_view)
next
  case Res_network_protocol
  then show ?thesis
    using assms
    by (auto simp: resource_defs network_protocol_patch_handler_def view_flag_sets
        split: option.splits if_splits dest!: patch_ntp_server_view)
next
  case Res_system
  have "view t = (view s)\<lparr>auto_on := b\<rparr>" if "config_host_auto_poweron_set E b s = (0, t)" for b t
    using view_flag_sets(3) [of E b s] that by simp
  then show ?thesis
    using Res_system assms
    by (auto simp: resource_defs system_patch_handler_def Let_def
        split: option.splits prod.splits if_splits)
qed (use assms(1) in \<open>simp_all add: resource_defs\<close>)

lemma patch_handler_answer:
  assumes "patch_handler (resource r) = Some f" and "f E ud s = Some (ret, ud', s')"
  shows "ret \<in> {0, 400, 500}" and "ret = 400 \<Longrightarrow> s' = s"
    and "json_obj_parse E (resource_descr r) (payload ud) = Inl e \<Longrightarrow> ret = 400"
proof -
  show "ret \<in> {0, 400, 500}"
    and "json_obj_parse E (resource_descr r) (payload ud) = Inl e \<Longrightarrow> ret = 400"
    using assms by (cases r; auto simp: resource_defs account_patch_handler_def
        manager_patch_handler_def ethernet_patch_handler_def network_protocol_patch_handler_def
        system_patch_handler_def Let_def split: sum.splits option.splits prod.splits if_splits)+
  show "ret = 400 \<Longrightarrow> s' = s"
    using resource_body [of r f] assms body_fn.rejects [of f E ud s ud' s'] by simp
qed

section \<open>Property\<close>

text \<open>What a GET shows of the settings.\<close>

definition shown_static :: "env \<Rightarrow> settings \<Rightarrow> json list" where
  "shown_static E \<sigma> =
     (if ip_address \<sigma> = 0 then []
      else [ipv4_json (static_text E (ip_address \<sigma>)) (static_text E (ip_netmask \<sigma>))
        (static_text E (ip_gateway \<sigma>)) None])"

definition shows_settings :: "env \<Rightarrow> settings \<Rightarrow> bmc \<Rightarrow> bool" where
  "shows_settings E \<sigma> s \<longleftrightarrow>
     resource_document E Res_network_protocol s =
       Some (network_protocol_json (ntp_enabled \<sigma>) (ntp_source \<sigma>)) \<and>
     resource_document E Res_system s = Some (system_json (product E) (auto_on \<sigma>) (power_get_state s)) \<and>
     (\<forall>j. resource_document E Res_ethernet s = Some j \<longrightarrow>
        (\<exists>h xs. j = ethernet_json h (dhcp_enabled \<sigma>) xs (shown_static E \<sigma>)))"

lemma shows_view: "shows_settings E (view s) s"
  by (auto simp: shows_settings_def settings_of_def getters shown_static_def static_addresses_def
      ethernet_document_def Let_def split: option.splits if_splits)


text \<open>A PATCH of static addresses that succeeds leaves them on the interface.\<close>

lemma patch_static_address_applied:
  assumes "net_documented E" and "removals_succeed E" and "\<And>h. default_iface E h = Some i"
    and "patch_static_address E (Some xs) s = (0, t)"
  shows "static_applied E i (ip_address (view t)) (ip_netmask (view t)) (ip_gateway (view t)) (trace t)"
proof -
  obtain x u where "config_bmc_default_ip4_gw_set E x u = (0, t)"
    using assms(4) by (auto simp: patch_static_address_def Let_def split: prod.splits if_splits)
  then show ?thesis
    using ip4_setter_applied [OF assms(1,2,3)] by (simp add: ip4_setter_eq settings_of_def getters)
qed

text \<open>A parser that finds a new password in every body.\<close>

definition password_env :: env where
  "password_env = ideal_env\<lparr>json_obj_parse := (\<lambda>d b. Inr [(''Password'', str ''secret'')])\<rparr>"


end
