(* ===== verification/Spec2Isabelle.thy ===== *)
theory Spec2Isabelle
  imports Boot Shell_Commands Web_Server Date_Time Ntp_Schedule Fs_Retry Redfish_Patch
begin

text \<open>
  WallaBMC: a model of the firmware of a board management controller, and its correctness.

  \<^bold>\<open>The program.\<close> The firmware (src/src/*.c) runs on Zephyr. At the start \<open>main\<close> mounts the key-value
  store, loads the settings, and starts the network, the host's power control, a web server with the
  Redfish service, and bridges from the host's serial console and JTAG port to the network. Settings
  are changed by the shell and by Redfish requests. There are four threads of its own: the two of the TCP
  console, the one that sends to the console's websocket, and the JTAG daemon; the rest runs in Zephyr's threads
  (web server, shell, work queue) and in the UART's interrupt.

  \<^bold>\<open>The model.\<close> The static variables are the record \<open>bmc\<close> (theory Bmc_State), which every
  operation takes and returns. Zephyr and the hardware are an environment, an argument of every
  operation: each call is recorded in the trace of the state, and the environment
  gives its answer from the history, so that it can be any behaviour. What Zephyr documents appears as a named
  hypothesis (\<open>nvs_documented\<close>, \<open>ws_documented\<close>, \<open>http_documented\<close>, \<open>base64_documented\<close>,
  \<open>net_documented\<close>, \<open>removals_succeed\<close>); the environments of the theories Ideal_Env and Static_Address
  meet them. Errors are the negative numbers of the code;
  a Redfish handler that would use a NULL pointer has the result None. Options of Kconfig are fields of the
  environment, so that one definition covers the function and its stub. Log output is left out, except
  for the event handlers of dhcp.c, which do nothing else.

  \<^bold>\<open>The theories.\<close>
  \<^item> Prelude: C strings and integers in memory. Env: the calls to Zephyr. Bmc_State: the variables,
    the relation \<open>only_io\<close> of operations that only call Zephyr, and the contract \<open>io_op\<close>.
  \<^item> Fs (fs.c): mounting and keys; the locale \<open>key_store\<close> is what config.c relies on. Fs_Retry: the
    repeated attempts at the flash. Config_Store,
    Config, Config_Persist, Config_Boot, Config_Steps (config.c): raw access, setters and getters,
    the contract of a setter (locale), loading at boot, and sequences of calls with a reboot.
    Config_Shell: its shell commands.
  \<^item> Rtc (rtc.c), Ntp (ntp.c), Net (net.c, dhcp.c), Host_Power (power.c), Button (button.c),
    Sensors_Vpd (sensors.c, vpd.c), Reboot (main.c); Static_Address joins net.c and config.c: the address that
    ends on the interface. Date_Time and Ntp_Schedule hold the properties of
    dates and of the synchronisation's interval.
  \<^item> Http_Auth (http.c, and the authentication of redfish.c). Redfish_Core, Redfish_Json,
    Redfish_Handlers, Redfish_Routes, Redfish_Service, Redfish_Bodies, Redfish_Actions (redfish.c): buffers
    and transactions, the documents with their descriptors, the handlers, the table of resources, requests,
    bodies in parts, and single actions. Redfish_Patch: the settings as a client of Redfish sees them, and PATCH
    as a merge of them. Web_Server (web.c): the URLs of all components.
  \<^item> Console_Logger (console_logger.c), Console_Bridge (console_bridge.c), Console_Bridge_Ws and
    Console_Ws_Output (console_bridge_ws.c): the log of the host's output, and its two readers.
  \<^item> Jtag (jtag.c): the remote bitbang protocol.
  \<^item> Boot (main.c): the start. Shell_Commands: the tree of the shell's commands.

  \<^bold>\<open>What is shown.\<close>
  \<^item> Settings: they survive a reboot (a refinement of a map from fields to values, whatever was
    set before), the strings stay inside their arrays, a load reconciles memory and store, and an empty string is
    lost. The shell changes them only after the boot and only by its settings commands. An operation on
    the flash is tried a bounded number of times, and its result is that of the last try.
  \<^item> Host and button: the order of the power lines and the recorded state, the pulse of the reset, and
    that the button resets the controller exactly after its hold time.
  \<^item> Network: when DHCP is off, the configured address, netmask and gateway end on the interface, and no other
    address set by hand remains.
  \<^item> Web: who is let in (equivalence with a reference definition), that nobody else has an effect,
    which URLs are open, that the credentials of HTTPS are registered, that the buffers of Redfish are
    safe under any sequence of requests, that bodies
    arrive whole or not at all, that documents conform and their links resolve, and that a PATCH changes the
    settings it names and no other, as a GET then shows.
  \<^item> Console: the log refines the unbounded stream of the host's output. A reader gets the stream in order and
    misses only what is older than 7/8 of the log. The two clients get it under every interleaving of
    their threads with the UART, in the order of the code's steps. Only the socket that
    authenticated last is served.
  \<^item> JTAG: caching the levels cannot be seen on the pins, sessions end, and pins are released.
  \<^item> Time: how a date is read back, and how often the server is asked.
  \<^item> Start: \<open>main\<close> leaves the state from which the properties of the services begin. It also
    shows what becomes of a client that connects before the start is over.

  \<^bold>\<open>Concurrency.\<close> Threads and interrupts are step relations (\<open>rx_step\<close>, \<open>telnet_step\<close>, \<open>ws_step\<close>,
  \<open>ws_sys_step\<close>, \<open>button_step\<close>): a step is one event of the UART, one round of a thread's loop, or one
  callback, and the rest of the firmware may act between them. Within a step nothing else
  happens; races inside a round are not covered (the two that reading shows are in the findings).

  \<^bold>\<open>Bounds and termination.\<close> Loops over data are recursive functions with a measure. The loops whose end depends on
  a peer are partial functions into an option (\<open>ws_send_loop\<close>, \<open>ws_send_again\<close>,
  \<open>jtag_client_loop\<close>); that they end is proved from what the peer does. No fuel is used. Retries of the store
  are bounded by the code's own limit. The positions of the log are 64-bit words; the properties ask
  for a stream shorter than \<open>2 ^ 64\<close> bytes less the size of the log. The log's size is at least 16 and a
  multiple of the chunk size where the ring is used, and what happens otherwise is a property of its own.

  \<^bold>\<open>Not modelled.\<close> Log messages, other than those of the event handlers of dhcp.c. The
  contents of the static files and of the server's certificate (certificate.h), which are data. The
  event object of synch.c beyond its bits: waiting is a call that returns whenever it
  likes. Stacks, priorities and locks. The help texts and argument counts of the shell's tables. Of the C library, only what
  is used: \<open>sscanf\<close> with %d, \<open>gmtime_r\<close> and \<open>strftime\<close> with one format each.
\<close>

end
